theory Spec2Isabelle
  imports Main "HOL-Library.Word" "HOL-Library.Multiset" "HOL-Library.Monad_Syntax"
begin

section \<open>The fat-BVH intersection strategy (fatbvhstrategy.cpp)\<close>

text \<open>
  A shallow embedding of \<^verbatim>\<open>FatBvhStrategy\<close>: \<^verbatim>\<open>Preprocess\<close> and the four query
  operations.  A C++ \<^verbatim>\<open>int\<close> is a HOL integer between \<^verbatim>\<open>INT_MIN\<close> and
  \<^verbatim>\<open>INT_MAX\<close>, and every \<^verbatim>\<open>int\<close> operation of the source is checked against
  that range; the \<^verbatim>\<open>std::uint32_t\<close> ray counts of the queries are 32-bit words,
  since their products wrap.  Signed overflow, reading or writing a vector outside
  its bounds, a \<^verbatim>\<open>static_cast\<close> to the wrong shape class and the use of a buffer
  pointer that is null or was deleted are undefined behaviour in C++; the model
  makes each of them the result \<open>None\<close>.  The two vertex loops annotated with
  \<^verbatim>\<open>#pragma omp parallel for\<close> share the matrix of line 306 between their
  iterations and are modelled with the interleaving of their steps; the two bounds
  loops share nothing but the vectors whose elements they write, one range for
  each iteration, and are modelled in program order.  \<^verbatim>\<open>size_t\<close> is a natural
  number: the byte counts of the buffers are taken to fit.
\<close>

subsection \<open>Constants\<close>

definition kWorkGroupSize :: int where
  "kWorkGroupSize = 64"

definition kMaxStackSize :: int where
  "kMaxStackSize = 48"

definition kMaxBatchSize :: int where
  "kMaxBatchSize = 1024 * 1024"

definition sizeof_int :: nat where
  "sizeof_int = 4"

subsection \<open>The type int\<close>

text \<open>
  \<^verbatim>\<open>int\<close> has 32 bits.  An addition or subtraction whose result is outside the
  range is undefined and has no result here; so has a conversion to \<^verbatim>\<open>int\<close> of a
  size or a difference of iterators that is outside the range (its result is
  implementation-defined).
\<close>

definition INT_MAX :: int where
  "INT_MAX = 2147483647"

definition INT_MIN :: int where
  "INT_MIN = - 2147483648"

definition int_ok :: "int \<Rightarrow> bool" where
  "int_ok x \<longleftrightarrow> INT_MIN \<le> x \<and> x \<le> INT_MAX"

definition int_add :: "int \<Rightarrow> int \<Rightarrow> int option" where
  "int_add a b = (if int_ok (a + b) then Some (a + b) else None)"

definition int_sub :: "int \<Rightarrow> int \<Rightarrow> int option" where
  "int_sub a b = (if int_ok (a - b) then Some (a - b) else None)"

definition int_cast :: "int \<Rightarrow> int option" where
  "int_cast x = (if int_ok x then Some x else None)"

subsection \<open>Scene data: meshes, instances, the world\<close>

text \<open>
  \<^verbatim>\<open>Mesh::Face\<close> carries three vertex indices.  A mesh owns its vertices and faces
  (\<^verbatim>\<open>num_vertices\<close>, \<^verbatim>\<open>num_faces\<close> are the lengths) and a transform pair
  \<open>(m, minv)\<close>; an instance refers to a base mesh and has a transform of its own.
  The types \<open>'v\<close> and \<open>'m\<close> stand for \<^verbatim>\<open>float3\<close> and \<^verbatim>\<open>matrix\<close>.
\<close>

record mesh_face =
  idx0 :: int
  idx1 :: int
  idx2 :: int

record ('v, 'm) mesh =
  mesh_id :: int
  mesh_mask :: int
  vertex_data :: "'v list"
  face_data :: "mesh_face list"
  mesh_transform :: "'m \<times> 'm"

record ('v, 'm) instance_shape =
  inst_id :: int
  inst_mask :: int
  base_shape :: "('v, 'm) mesh"
  inst_transform :: "'m \<times> 'm"

datatype ('v, 'm) shape =
    MeshShape "('v, 'm) mesh"
  | InstanceShape "('v, 'm) instance_shape"

fun is_instance :: "('v, 'm) shape \<Rightarrow> bool" where
  "is_instance (MeshShape _) = False"
| "is_instance (InstanceShape _) = True"

definition num_faces :: "('v, 'm) mesh \<Rightarrow> int" where
  "num_faces mesh = int (length (face_data mesh))"

definition num_vertices :: "('v, 'm) mesh \<Rightarrow> int" where
  "num_vertices mesh = int (length (vertex_data mesh))"

text \<open>The two downcasts of a \<^verbatim>\<open>Shape const*\<close>; a cast to the wrong class has no result.\<close>

fun as_mesh :: "('v, 'm) shape \<Rightarrow> ('v, 'm) mesh option" where
  "as_mesh (MeshShape mesh) = Some mesh"
| "as_mesh (InstanceShape _) = None"

fun as_instance :: "('v, 'm) shape \<Rightarrow> ('v, 'm) instance_shape option" where
  "as_instance (InstanceShape inst) = Some inst"
| "as_instance (MeshShape _) = None"

text \<open>The world: its shape sequence \<^verbatim>\<open>shapes_\<close> (here \<open>world_shapes\<close>), the option
  \<^verbatim>\<open>bvh.builder\<close> and the two change indicators.\<close>

datatype state_change = kStateChangeNone | kStateChangeSome

record ('v, 'm) world =
  world_shapes :: "('v, 'm) shape list"
  bvh_builder :: "string option"
  has_changed :: bool
  GetStateChange :: state_change

subsection \<open>Vectors\<close>

text \<open>\<^verbatim>\<open>v[i]\<close> as a read and as a write, with the index an \<^verbatim>\<open>int\<close>.\<close>

definition vec_at :: "'a list \<Rightarrow> int \<Rightarrow> 'a option" where
  "vec_at xs i = (if 0 \<le> i \<and> i < int (length xs) then Some (xs ! nat i) else None)"

definition vec_set :: "'a list \<Rightarrow> int \<Rightarrow> 'a \<Rightarrow> 'a list option" where
  "vec_set xs i x = (if 0 \<le> i \<and> i < int (length xs) then Some (xs[nat i := x]) else None)"

text \<open>
  \<^verbatim>\<open>for (int i = lo; i < hi; ++i) body\<close> over a state \<open>s\<close>; an iteration with no
  result ends the loop with none.  The bound \<open>hi\<close> is an \<^verbatim>\<open>int\<close> wherever the
  loop is used, so \<^verbatim>\<open>++i\<close>, which runs only when \<open>i < hi\<close>, stays in range.
\<close>

function for_loop :: "int \<Rightarrow> int \<Rightarrow> (int \<Rightarrow> 's \<Rightarrow> 's option) \<Rightarrow> 's \<Rightarrow> 's option" where
  "for_loop i hi body s =
     (if i < hi
      then (case body i s of None \<Rightarrow> None | Some s' \<Rightarrow> for_loop (i + 1) hi body s')
      else Some s)"
  by pat_completeness auto
termination
  by (relation "measure (\<lambda>(i, hi, body, s). nat (hi - i))") auto

declare for_loop.simps [simp del]

subsection \<open>std::partition\<close>

text \<open>
  \<^verbatim>\<open>std::partition\<close> on a vector, as the C++ standard library implements it for
  bidirectional iterators: \<open>first\<close> moves right over the elements that satisfy the
  predicate, \<open>lst\<close> (the iterator \<^verbatim>\<open>last\<close>) moves left over those that do not, and the two elements they
  stop at are swapped.  The result is the vector and the position of the first
  element of the second group.
\<close>

function skip_true :: "('a \<Rightarrow> bool) \<Rightarrow> 'a list \<Rightarrow> nat \<Rightarrow> nat \<Rightarrow> nat" where
  "skip_true p xs first lst =
     (if first < lst \<and> p (xs ! first) then skip_true p xs (Suc first) lst else first)"
  by pat_completeness auto
termination
  by (relation "measure (\<lambda>(p, xs, first, lst). lst - first)") auto

declare skip_true.simps [simp del]

function skip_false :: "('a \<Rightarrow> bool) \<Rightarrow> 'a list \<Rightarrow> nat \<Rightarrow> nat \<Rightarrow> nat" where
  "skip_false p xs first lst =
     (if first < lst \<and> \<not> p (xs ! lst) then skip_false p xs first (lst - 1) else lst)"
  by pat_completeness auto
termination
  by (relation "measure (\<lambda>(p, xs, first, lst). lst - first)") auto

declare skip_false.simps [simp del]

definition iter_swap :: "'a list \<Rightarrow> nat \<Rightarrow> nat \<Rightarrow> 'a list" where
  "iter_swap xs i j = xs[i := xs ! j, j := xs ! i]"

lemma skip_true_ge: "first \<le> skip_true p xs first lst"
  by (induction p xs first lst rule: skip_true.induct) (subst skip_true.simps, auto)

lemma skip_true_le: "first \<le> lst \<Longrightarrow> skip_true p xs first lst \<le> lst"
  by (induction p xs first lst rule: skip_true.induct) (subst skip_true.simps, auto)

lemma skip_false_le: "skip_false p xs first lst \<le> lst"
  by (induction p xs first lst rule: skip_false.induct) (subst skip_false.simps, auto)

lemma skip_false_ge: "first \<le> lst \<Longrightarrow> first \<le> skip_false p xs first lst"
  by (induction p xs first lst rule: skip_false.induct) (subst skip_false.simps, auto)

function std_partition_loop :: "('a \<Rightarrow> bool) \<Rightarrow> 'a list \<Rightarrow> nat \<Rightarrow> nat \<Rightarrow> 'a list \<times> nat" where
  "std_partition_loop p xs first lst =
     (let first1 = skip_true p xs first lst in
      if first1 \<ge> lst then (xs, first1)
      else
        let lst1 = skip_false p xs first1 (lst - 1) in
        if first1 \<ge> lst1 then (xs, first1)
        else std_partition_loop p (iter_swap xs first1 lst1) (Suc first1) lst1)"
  by pat_completeness auto
termination
proof (relation "measure (\<lambda>(p, xs, first, lst). lst - first)", goal_cases)
  case 1
  show ?case by simp
next
  case (2 p xs first lst first1 lst1)
  have "first \<le> first1"
    using 2 skip_true_ge [of first p xs lst] by simp
  moreover have "lst1 \<le> lst - 1"
    using 2 skip_false_le [of p xs first1 "lst - 1"] by simp
  ultimately show ?case using 2 by auto
qed

declare std_partition_loop.simps [simp del]

definition std_partition :: "('a \<Rightarrow> bool) \<Rightarrow> 'a list \<Rightarrow> 'a list \<times> nat" where
  "std_partition p xs = std_partition_loop p xs 0 (length xs)"

text \<open>
  \<^verbatim>\<open>std::upper_bound\<close> on a vector, as the C++ standard library implements it: a
  binary search over the \<open>len\<close> elements that start at \<open>first\<close>, which compares the
  value with the middle element and continues in the left or in the right half.
\<close>

function upper_bound_loop :: "int list \<Rightarrow> int \<Rightarrow> nat \<Rightarrow> nat \<Rightarrow> nat" where
  "upper_bound_loop xs v first len =
     (if 0 < len then
        (let half = len div 2; middle = first + half in
         if v < xs ! middle then upper_bound_loop xs v first half
         else upper_bound_loop xs v (Suc middle) (len - half - 1))
      else first)"
  by pat_completeness auto
termination
  by (relation "measure (\<lambda>(xs, v, first, len). len)") auto

declare upper_bound_loop.simps [simp del]

definition upper_bound :: "int list \<Rightarrow> int \<Rightarrow> nat" where
  "upper_bound xs v = upper_bound_loop xs v 0 (length xs)"

subsection \<open>Collaborators of the strategy\<close>

text \<open>
  The strategy calls code that is not part of fatbvhstrategy.cpp: the math helpers
  \<^verbatim>\<open>transform_point\<close> and \<^verbatim>\<open>transform_bbox\<close>, \<^verbatim>\<open>Mesh::GetFaceBounds\<close>, the
  host BVH (\<^verbatim>\<open>Bvh::Build\<close>, \<^verbatim>\<open>height\<close>, \<^verbatim>\<open>GetIndices\<close>), the translator
  (\<^verbatim>\<open>FatNodeBvhTranslator::Process\<close>, whose result is \<^verbatim>\<open>nodes_\<close>) and the sizes
  of the records it uploads.  They are parameters of the model.  \<open>'b\<close> stands for
  \<^verbatim>\<open>bbox\<close>, \<open>'h\<close> for \<^verbatim>\<open>Bvh\<close> and \<open>'n\<close> for \<^verbatim>\<open>FatNodeBvhTranslator::Node\<close>.
  The OpenMP runtime is a collaborator as well: \<open>omp_schedule lo hi\<close> is the
  schedule it chooses for the parallel loop over \<open>lo\<close> to \<open>hi - 1\<close> (see below).
\<close>

record ('v, 'm, 'b, 'h, 'n) externals =
  transform_point :: "'v \<Rightarrow> 'm \<Rightarrow> 'v"
  transform_bbox :: "'b \<Rightarrow> 'm \<Rightarrow> 'b"
  GetFaceBounds :: "('v, 'm) mesh \<Rightarrow> int \<Rightarrow> bool \<Rightarrow> 'b"
  bbox_default :: "'b"
  Build :: "bool \<Rightarrow> 'b list \<Rightarrow> int \<Rightarrow> 'h"
  height :: "'h \<Rightarrow> int"
  GetIndices :: "'h \<Rightarrow> int list"
  Process :: "'h \<Rightarrow> 'n list"
  sizeof_Node :: nat
  sizeof_float3 :: nat
  sizeof_ShapeData :: nat
  omp_schedule :: "int \<Rightarrow> int \<Rightarrow> int list"

subsection \<open>Device records\<close>

text \<open>
  \<^verbatim>\<open>ShapeData\<close>: Preprocess writes the fields \<^verbatim>\<open>id\<close> and \<^verbatim>\<open>mask\<close> only.
  \<^verbatim>\<open>Face\<close> is the record of the face buffer (eight 32-bit words with its padding);
  its field \<^verbatim>\<open>id\<close> is \<open>face_id\<close> here.
\<close>

record shape_data =
  shape_id :: int
  shape_mask :: int

record face =
  idx :: "int \<times> int \<times> int"
  shapeidx :: int
  face_id :: int
  cnt :: int

definition sizeof_Face :: nat where
  "sizeof_Face = 32"

subsection \<open>The compute device\<close>

text \<open>
  Modelled from the spec: the compute layer (\<^verbatim>\<open>Calc::Device\<close>) is not part of the
  source file.  A device has the \<^verbatim>\<open>max_alloc_size\<close> of its \<^verbatim>\<open>DeviceSpec\<close> and a
  store of live buffers.  \<^verbatim>\<open>CreateBuffer(size, kind, init_data?)\<close> yields a pointer
  to a fresh buffer of that size, \<^verbatim>\<open>DeleteBuffer\<close> releases a buffer, and
  \<^verbatim>\<open>Buffer::GetSize\<close> is the size the buffer was created with.  A buffer pointer
  is \<open>None\<close> (\<^verbatim>\<open>nullptr\<close>) or the address of a buffer; mapped memory starts
  with no element written.
\<close>

datatype ('v, 'n) contents =
    NodeData "'n list"
  | VertexData "'v option list"
  | FaceData "face option list"
  | ShapeTable "shape_data list"
  | Unwritten

record ('v, 'n) buffer =
  buf_size :: nat
  buf_data :: "('v, 'n) contents"

record ('v, 'n) device =
  max_alloc_size :: nat
  next_buffer :: nat
  buffers :: "nat \<Rightarrow> ('v, 'n) buffer option"

text \<open>
  Modelled from the spec: \<^verbatim>\<open>Device::CreateBuffer\<close> is not part of the source file.  It
  returns the next free address and makes a buffer of the given size live there.
\<close>

definition CreateBuffer :: "nat \<Rightarrow> ('v, 'n) contents \<Rightarrow> ('v, 'n) device \<Rightarrow> nat option \<times> ('v, 'n) device" where
  "CreateBuffer size_bytes init_data dev =
     (Some (next_buffer dev),
      dev\<lparr>next_buffer := Suc (next_buffer dev),
          buffers := (buffers dev)(next_buffer dev \<mapsto> \<lparr>buf_size = size_bytes, buf_data = init_data\<rparr>)\<rparr>)"

text \<open>
  Modelled from the spec: \<^verbatim>\<open>Device::DeleteBuffer\<close> is not part of the source file.
  Deleting the null pointer does nothing; deleting a buffer that is not live is undefined.
\<close>

definition DeleteBuffer :: "nat option \<Rightarrow> ('v, 'n) device \<Rightarrow> ('v, 'n) device option" where
  "DeleteBuffer ptr dev =
     (case ptr of
        None \<Rightarrow> Some dev
      | Some a \<Rightarrow>
          (case buffers dev a of
             None \<Rightarrow> None
           | Some _ \<Rightarrow> Some (dev\<lparr>buffers := (buffers dev)(a := None)\<rparr>)))"

text \<open>
  Modelled from the spec: \<^verbatim>\<open>Buffer::GetSize\<close> is not part of the source file.  It is
  the size the buffer was created with; the pointer has to refer to a live buffer.
\<close>

definition GetSize :: "nat option \<Rightarrow> ('v, 'n) device \<Rightarrow> nat option" where
  "GetSize ptr dev =
     (case ptr of
        None \<Rightarrow> None
      | Some a \<Rightarrow> map_option buf_size (buffers dev a))"

text \<open>
  Modelled from the spec: \<^verbatim>\<open>Device::MapBuffer\<close> and \<^verbatim>\<open>Device::UnmapBuffer\<close> are not
  part of the source file.  The host fills the mapped array, and with
  \<^verbatim>\<open>UnmapBuffer\<close> the array becomes the contents of the buffer.
\<close>

definition UnmapBuffer :: "nat option \<Rightarrow> ('v, 'n) contents \<Rightarrow> ('v, 'n) device \<Rightarrow> ('v, 'n) device option" where
  "UnmapBuffer ptr mapped dev =
     (case ptr of
        None \<Rightarrow> None
      | Some a \<Rightarrow>
          (case buffers dev a of
             None \<Rightarrow> None
           | Some b \<Rightarrow> Some (dev\<lparr>buffers := (buffers dev)(a \<mapsto> b\<lparr>buf_data := mapped\<rparr>)\<rparr>)))"

subsection \<open>The strategy\<close>

text \<open>
  \<^verbatim>\<open>GpuData\<close> holds the six buffer pointers.  Its constructor sets the five primary
  pointers to \<^verbatim>\<open>nullptr\<close> and leaves \<^verbatim>\<open>stack\<close> uninitialised, which the model
  renders as \<open>None\<close> as well.  The strategy holds the host BVH (\<^verbatim>\<open>m_bvh\<close>, a
  \<^verbatim>\<open>unique_ptr\<close>), the \<^verbatim>\<open>GpuData\<close> and the device.
\<close>

record gpu_data =
  gpu_bvh :: "nat option"
  gpu_vertices :: "nat option"
  gpu_faces :: "nat option"
  gpu_shapes :: "nat option"
  gpu_raycnt :: "nat option"
  gpu_stack :: "nat option"

record ('v, 'h, 'n) strategy =
  m_bvh :: "'h option"
  m_gpudata :: gpu_data
  m_device :: "('v, 'n) device"

definition new_strategy :: "('v, 'n) device \<Rightarrow> ('v, 'h, 'n) strategy" where
  "new_strategy dev =
     \<lparr>m_bvh = None,
      m_gpudata = \<lparr>gpu_bvh = None, gpu_vertices = None, gpu_faces = None,
                   gpu_shapes = None, gpu_raycnt = None, gpu_stack = None\<rparr>,
      m_device = dev\<rparr>"

text \<open>The two \<^verbatim>\<open>ExceptionImpl\<close> errors of Preprocess, and how a call ends.\<close>

datatype error =
    CannotAllocateStackMemory
  | StackOverflowRisk

datatype 's outcome =
    Returned 's
  | Threw error 's

subsection \<open>Preprocess: shape offsets (lines 173 to 228)\<close>

text \<open>
  The working variables of the first stage: the number of shapes, the partitioned
  shape vector, the two counts, the two start-index vectors and the two totals.
\<close>

record ('v, 'm) layout =
  numshapes :: int
  shapes :: "('v, 'm) shape list"
  nummeshes :: int
  numinstances :: int
  mesh_faces_start_idx :: "int list"
  mesh_vertices_start_idx :: "int list"
  numfaces :: int
  numvertices :: int

text \<open>\<^verbatim>\<open>static_cast<Mesh const*>(shapes[i])\<close> and the base mesh of the instance \<^verbatim>\<open>shapes[i]\<close>.\<close>

definition mesh_at :: "('v, 'm) shape list \<Rightarrow> int \<Rightarrow> ('v, 'm) mesh option" where
  "mesh_at shs i = do { sh \<leftarrow> vec_at shs i; as_mesh sh }"

definition instance_at :: "('v, 'm) shape list \<Rightarrow> int \<Rightarrow> ('v, 'm) instance_shape option" where
  "instance_at shs i = do { sh \<leftarrow> vec_at shs i; as_instance sh }"

definition count_step :: "('v, 'm) mesh \<Rightarrow> int \<Rightarrow> ('v, 'm) layout \<Rightarrow> ('v, 'm) layout option" where
  "count_step mesh i L = do {
     fs \<leftarrow> vec_set (mesh_faces_start_idx L) i (numfaces L);
     vs \<leftarrow> vec_set (mesh_vertices_start_idx L) i (numvertices L);
     nf \<leftarrow> int_add (numfaces L) (num_faces mesh);
     nv \<leftarrow> int_add (numvertices L) (num_vertices mesh);
     Some (L\<lparr>mesh_faces_start_idx := fs, mesh_vertices_start_idx := vs,
             numfaces := nf, numvertices := nv\<rparr>)
   }"

definition count_mesh :: "int \<Rightarrow> ('v, 'm) layout \<Rightarrow> ('v, 'm) layout option" where
  "count_mesh i L = do { mesh \<leftarrow> mesh_at (shapes L) i; count_step mesh i L }"

definition count_instance :: "int \<Rightarrow> ('v, 'm) layout \<Rightarrow> ('v, 'm) layout option" where
  "count_instance i L = do {
     inst \<leftarrow> instance_at (shapes L) i;
     count_step (base_shape inst) i L
   }"

text \<open>Lines 193 to 200: the copy of \<^verbatim>\<open>world.shapes_\<close> is partitioned, non-instances first.\<close>

definition partition_shapes :: "('v, 'm) world \<Rightarrow> ('v, 'm) shape list \<times> nat" where
  "partition_shapes w = std_partition (\<lambda>sh. \<not> is_instance sh) (world_shapes w)"

text \<open>
  Lines 173 to 228.  The three counts are conversions to \<^verbatim>\<open>int\<close>: of
  \<^verbatim>\<open>shapes_.size()\<close> and of the two iterator distances.
\<close>

definition scene_layout :: "('v, 'm) world \<Rightarrow> ('v, 'm) layout option" where
  "scene_layout w = do {
     n \<leftarrow> int_cast (int (length (world_shapes w)));
     let (shs, firstinst) = partition_shapes w;
     nm \<leftarrow> int_cast (int firstinst);
     ni \<leftarrow> int_cast (int (length shs) - int firstinst);
     let L0 = \<lparr>numshapes = n,
                shapes = shs,
                nummeshes = nm,
                numinstances = ni,
                mesh_faces_start_idx = replicate (nat n) 0,
                mesh_vertices_start_idx = replicate (nat n) 0,
                numfaces = 0,
                numvertices = 0\<rparr>;
     L1 \<leftarrow> for_loop 0 (nummeshes L0) count_mesh L0;
     hi \<leftarrow> int_add (nummeshes L0) (numinstances L0);
     for_loop (nummeshes L0) hi count_instance L1
   }"

subsection \<open>Preprocess: face bounds and the shape table (lines 231 to 272)\<close>

definition mesh_bounds_step ::
  "('v, 'm, 'b, 'h, 'n) externals \<Rightarrow> ('v, 'm) layout \<Rightarrow> int \<Rightarrow> ('v, 'm) mesh \<Rightarrow> int \<Rightarrow> 'b list \<Rightarrow> 'b list option" where
  "mesh_bounds_step env L i mesh j bounds = do {
     start \<leftarrow> vec_at (mesh_faces_start_idx L) i;
     k \<leftarrow> int_add start j;
     vec_set bounds k (GetFaceBounds env mesh j False)
   }"

definition set_shapedata :: "int \<Rightarrow> int \<Rightarrow> int \<Rightarrow> shape_data list \<Rightarrow> shape_data list option" where
  "set_shapedata i new_id new_mask shapedata = do {
     sd \<leftarrow> vec_at shapedata i;
     shapedata1 \<leftarrow> vec_set shapedata i (sd\<lparr>shape_id := new_id\<rparr>);
     sd1 \<leftarrow> vec_at shapedata1 i;
     vec_set shapedata1 i (sd1\<lparr>shape_mask := new_mask\<rparr>)
   }"

definition mesh_bounds ::
  "('v, 'm, 'b, 'h, 'n) externals \<Rightarrow> ('v, 'm) layout \<Rightarrow> int \<Rightarrow> 'b list \<times> shape_data list \<Rightarrow> ('b list \<times> shape_data list) option" where
  "mesh_bounds env L i st = do {
     mesh \<leftarrow> mesh_at (shapes L) i;
     bounds \<leftarrow> for_loop 0 (num_faces mesh) (mesh_bounds_step env L i mesh) (fst st);
     shapedata \<leftarrow> set_shapedata i (mesh_id mesh) (mesh_mask mesh) (snd st);
     Some (bounds, shapedata)
   }"

definition instance_bounds_step ::
  "('v, 'm, 'b, 'h, 'n) externals \<Rightarrow> ('v, 'm) layout \<Rightarrow> int \<Rightarrow> ('v, 'm) mesh \<Rightarrow> 'm \<Rightarrow> int \<Rightarrow> 'b list \<Rightarrow> 'b list option" where
  "instance_bounds_step env L i mesh m j bounds = do {
     let tmp = GetFaceBounds env mesh j True;
     start \<leftarrow> vec_at (mesh_faces_start_idx L) i;
     k \<leftarrow> int_add start j;
     vec_set bounds k (transform_bbox env tmp m)
   }"

definition instance_bounds ::
  "('v, 'm, 'b, 'h, 'n) externals \<Rightarrow> ('v, 'm) layout \<Rightarrow> int \<Rightarrow> 'b list \<times> shape_data list \<Rightarrow> ('b list \<times> shape_data list) option" where
  "instance_bounds env L i st = do {
     inst \<leftarrow> instance_at (shapes L) i;
     let mesh = base_shape inst;
     let (m, minv) = inst_transform inst;
     bounds \<leftarrow> for_loop 0 (num_faces mesh) (instance_bounds_step env L i mesh m) (fst st);
     shapedata \<leftarrow> set_shapedata i (inst_id inst) (inst_mask inst) (snd st);
     Some (bounds, shapedata)
   }"

definition build_bounds ::
  "('v, 'm, 'b, 'h, 'n) externals \<Rightarrow> ('v, 'm) layout \<Rightarrow> ('b list \<times> shape_data list) option" where
  "build_bounds env L =
     (let bounds0 = replicate (nat (numfaces L)) (bbox_default env);
          shapedata0 = replicate (nat (numshapes L)) \<lparr>shape_id = 0, shape_mask = 0\<rparr>
      in do {
        st \<leftarrow> for_loop 0 (nummeshes L) (mesh_bounds env L) (bounds0, shapedata0);
        hi \<leftarrow> int_add (nummeshes L) (numinstances L);
        for_loop (nummeshes L) hi (instance_bounds env L) st
      })"

subsection \<open>OpenMP loops\<close>

text \<open>
  \<^verbatim>\<open>#pragma omp parallel for\<close> hands the iterations of a loop to threads that run at
  the same time, so an execution interleaves the steps of the iterations.  A schedule
  is a list of iteration numbers: each entry lets that iteration take its next step
  (an entry that names no unfinished iteration of the loop is passed over), and after
  the last entry the unfinished iterations run to their end in the order of their
  numbers.  \<open>left i s\<close> is the number of steps iteration \<open>i\<close> has still to take
  in state \<open>s\<close>.  The empty schedule is the execution in program order, which is
  what one thread, or a build without OpenMP, does.
\<close>

primrec run_steps :: "nat \<Rightarrow> ('s \<Rightarrow> 's option) \<Rightarrow> 's \<Rightarrow> 's option" where
  "run_steps 0 f s = Some s"
| "run_steps (Suc n) f s = (case f s of None \<Rightarrow> None | Some s' \<Rightarrow> run_steps n f s')"

primrec run_schedule ::
  "int \<Rightarrow> int \<Rightarrow> (int \<Rightarrow> 's \<Rightarrow> nat) \<Rightarrow> (int \<Rightarrow> 's \<Rightarrow> 's option) \<Rightarrow> int list \<Rightarrow> 's \<Rightarrow> 's option" where
  "run_schedule lo hi left step [] s = Some s"
| "run_schedule lo hi left step (i # sched) s =
     (if lo \<le> i \<and> i < hi \<and> 0 < left i s
      then (case step i s of None \<Rightarrow> None | Some s' \<Rightarrow> run_schedule lo hi left step sched s')
      else run_schedule lo hi left step sched s)"

definition omp_parallel_for ::
  "int \<Rightarrow> int \<Rightarrow> (int \<Rightarrow> 's \<Rightarrow> nat) \<Rightarrow> (int \<Rightarrow> 's \<Rightarrow> 's option) \<Rightarrow> int list \<Rightarrow> 's \<Rightarrow> 's option" where
  "omp_parallel_for lo hi left step sched s = do {
     s1 \<leftarrow> run_schedule lo hi left step sched s;
     for_loop lo hi (\<lambda>i s2. run_steps (left i s2) (step i) s2) s1
   }"

subsection \<open>Preprocess: the vertex buffer (lines 290 to 348)\<close>

text \<open>
  The state of the two vertex loops: the matrix \<^verbatim>\<open>m\<close> that line 306 declares
  outside the loops, which therefore is one variable for all iterations and threads
  (\<^verbatim>\<open>minv\<close>, declared with it, is never read); the mapped array; and for every
  iteration the number of steps it has taken.  The first step of an iteration is
  \<^verbatim>\<open>GetTransform(m, minv)\<close>, which writes \<^verbatim>\<open>m\<close>; each further step is one round
  of the inner loop, which reads \<^verbatim>\<open>m\<close> and writes one vertex.  \<^verbatim>\<open>m\<close> is read
  only after a \<^verbatim>\<open>GetTransform\<close>, so its initial value does not matter and is
  \<open>None\<close>.  The variables \<^verbatim>\<open>mesh\<close>, \<^verbatim>\<open>instance\<close> and \<^verbatim>\<open>myvertexdata\<close> are
  declared inside the loop body and belong to the iteration.
\<close>

record ('v, 'm) vertex_pass =
  vp_m :: "'m option"
  vp_vertexdata :: "'v option list"
  vp_pc :: "int \<Rightarrow> nat"

text \<open>
  \<^verbatim>\<open>vertexdata[mesh_vertices_start_idx[i] + j] = transform_point(myvertexdata[j], m)\<close>
  (lines 322 and 341).
\<close>

definition vertices_step ::
  "('v, 'm, 'b, 'h, 'n) externals \<Rightarrow> ('v, 'm) layout \<Rightarrow> int \<Rightarrow> ('v, 'm) mesh \<Rightarrow> 'm \<Rightarrow> int \<Rightarrow> 'v option list \<Rightarrow> 'v option list option" where
  "vertices_step env L i mesh m j vertexdata = do {
     start \<leftarrow> vec_at (mesh_vertices_start_idx L) i;
     k \<leftarrow> int_add start j;
     v \<leftarrow> vec_at (vertex_data mesh) j;
     vec_set vertexdata k (Some (transform_point env v m))
   }"

text \<open>
  The next step of iteration \<open>i\<close>, whose shape has the geometry \<open>mesh\<close> and the
  transform pair \<open>tr\<close>: with no step taken yet, \<^verbatim>\<open>GetTransform(m, minv)\<close>; after
  that the round \<open>j\<close> of the inner loop, with the value \<^verbatim>\<open>m\<close> has at that
  moment.
\<close>

definition transform_vertices ::
  "('v, 'm, 'b, 'h, 'n) externals \<Rightarrow> ('v, 'm) layout \<Rightarrow> int \<Rightarrow> ('v, 'm) mesh \<Rightarrow> 'm \<times> 'm \<Rightarrow>
   ('v, 'm) vertex_pass \<Rightarrow> ('v, 'm) vertex_pass option" where
  "transform_vertices env L i mesh tr st =
     (case vp_pc st i of
        0 \<Rightarrow> (let (m, minv) = tr in Some (st\<lparr>vp_m := Some m, vp_pc := (vp_pc st)(i := 1)\<rparr>))
      | Suc j \<Rightarrow> do {
          m \<leftarrow> vp_m st;
          vertexdata \<leftarrow> vertices_step env L i mesh m (int j) (vp_vertexdata st);
          Some (st\<lparr>vp_vertexdata := vertexdata, vp_pc := (vp_pc st)(i := Suc (Suc j))\<rparr>)
        })"

text \<open>
  The number of steps iteration \<open>i\<close> has still to take: \<^verbatim>\<open>GetTransform\<close> and one
  round for each vertex of the mesh, less the steps taken.  An iteration whose shape
  is not of the class it is cast to has its first step to take, which is undefined.
\<close>

definition vertices_left :: "('v, 'm) mesh option \<Rightarrow> int \<Rightarrow> ('v, 'm) vertex_pass \<Rightarrow> nat" where
  "vertices_left mesh i st =
     (case mesh of
        None \<Rightarrow> 1
      | Some mesh \<Rightarrow> Suc (nat (num_vertices mesh)) - vp_pc st i)"

text \<open>The step of iteration \<open>i\<close> of the loop over the meshes (lines 309 to 324).\<close>

definition mesh_vertices ::
  "('v, 'm, 'b, 'h, 'n) externals \<Rightarrow> ('v, 'm) layout \<Rightarrow> int \<Rightarrow> ('v, 'm) vertex_pass \<Rightarrow> ('v, 'm) vertex_pass option" where
  "mesh_vertices env L i st = do {
     mesh \<leftarrow> mesh_at (shapes L) i;
     transform_vertices env L i mesh (mesh_transform mesh) st
   }"

definition mesh_vertices_left :: "('v, 'm) layout \<Rightarrow> int \<Rightarrow> ('v, 'm) vertex_pass \<Rightarrow> nat" where
  "mesh_vertices_left L i st = vertices_left (mesh_at (shapes L) i) i st"

text \<open>The step of iteration \<open>i\<close> of the loop over the instances (lines 327 to 343).\<close>

definition instance_vertices ::
  "('v, 'm, 'b, 'h, 'n) externals \<Rightarrow> ('v, 'm) layout \<Rightarrow> int \<Rightarrow> ('v, 'm) vertex_pass \<Rightarrow> ('v, 'm) vertex_pass option" where
  "instance_vertices env L i st = do {
     inst \<leftarrow> instance_at (shapes L) i;
     transform_vertices env L i (base_shape inst) (inst_transform inst) st
   }"

definition instance_vertices_left :: "('v, 'm) layout \<Rightarrow> int \<Rightarrow> ('v, 'm) vertex_pass \<Rightarrow> nat" where
  "instance_vertices_left L i st = vertices_left (map_option base_shape (instance_at (shapes L) i)) i st"

text \<open>
  The two loops, one after the other (a parallel loop ends with a barrier), each
  under the schedule of the runtime.
\<close>

definition fill_vertices ::
  "('v, 'm, 'b, 'h, 'n) externals \<Rightarrow> ('v, 'm) layout \<Rightarrow> 'v option list option" where
  "fill_vertices env L = do {
     let st0 = \<lparr>vp_m = None, vp_vertexdata = replicate (nat (numvertices L)) None, vp_pc = (\<lambda>i. 0)\<rparr>;
     st1 \<leftarrow> omp_parallel_for 0 (nummeshes L) (mesh_vertices_left L) (mesh_vertices env L)
              (omp_schedule env 0 (nummeshes L)) st0;
     hi \<leftarrow> int_add (nummeshes L) (numinstances L);
     st2 \<leftarrow> omp_parallel_for (nummeshes L) hi (instance_vertices_left L) (instance_vertices env L)
              (omp_schedule env (nummeshes L) hi) st1;
     Some (vp_vertexdata st2)
   }"

subsection \<open>Preprocess: the face buffer (lines 350 to 425)\<close>

definition face_step :: "('v, 'm) layout \<Rightarrow> int list \<Rightarrow> int \<Rightarrow> face option list \<Rightarrow> face option list option" where
  "face_step L reordering i facedata = do {
     indextolook4 \<leftarrow> vec_at reordering i;
     let iter = upper_bound (mesh_faces_start_idx L) indextolook4;
     sidx \<leftarrow> int_cast (int iter - 1);
     mesh \<leftarrow> (if sidx < nummeshes L then mesh_at (shapes L) sidx
              else map_option base_shape (instance_at (shapes L) sidx));
     start \<leftarrow> vec_at (mesh_faces_start_idx L) sidx;
     faceidx \<leftarrow> int_sub indextolook4 start;
     mystartidx \<leftarrow> vec_at (mesh_vertices_start_idx L) sidx;
     myface \<leftarrow> vec_at (face_data mesh) faceidx;
     a \<leftarrow> int_add (idx0 myface) mystartidx;
     b \<leftarrow> int_add (idx1 myface) mystartidx;
     c \<leftarrow> int_add (idx2 myface) mystartidx;
     vec_set facedata i (Some \<lparr>idx = (a, b, c), shapeidx = sidx, face_id = faceidx, cnt = 0\<rparr>)
   }"

definition fill_faces :: "('v, 'm) layout \<Rightarrow> int list \<Rightarrow> face option list option" where
  "fill_faces L reordering =
     for_loop 0 (numfaces L) (face_step L reordering) (replicate (nat (numfaces L)) None)"

subsection \<open>Preprocess (lines 150 to 439)\<close>

definition delete_primary :: "gpu_data \<Rightarrow> ('v, 'n) device \<Rightarrow> ('v, 'n) device option" where
  "delete_primary g dev = do {
     d1 \<leftarrow> DeleteBuffer (gpu_bvh g) dev;
     d2 \<leftarrow> DeleteBuffer (gpu_vertices g) d1;
     d3 \<leftarrow> DeleteBuffer (gpu_faces g) d2;
     d4 \<leftarrow> DeleteBuffer (gpu_shapes g) d3;
     DeleteBuffer (gpu_raycnt g) d4
   }"

definition upload ::
  "('v, 'm, 'b, 'h, 'n) externals \<Rightarrow> ('v, 'm) layout \<Rightarrow> shape_data list \<Rightarrow> 'h \<Rightarrow>
   ('v, 'h, 'n) strategy \<Rightarrow> ('v, 'h, 'n) strategy option" where
  "upload env L shapedata bvh s = do {
     let nodes = Process env bvh;
     let (p_bvh, d1) = CreateBuffer (length nodes * sizeof_Node env) (NodeData nodes) (m_device s);
     let (p_vertices, d2) = CreateBuffer (nat (numvertices L) * sizeof_float3 env) Unwritten d1;
     vertexdata \<leftarrow> fill_vertices env L;
     d3 \<leftarrow> UnmapBuffer p_vertices (VertexData vertexdata) d2;
     let (p_faces, d4) = CreateBuffer (nat (numfaces L) * sizeof_Face) Unwritten d3;
     facedata \<leftarrow> fill_faces L (GetIndices env bvh);
     d5 \<leftarrow> UnmapBuffer p_faces (FaceData facedata) d4;
     let (p_shapes, d6) = CreateBuffer (nat (numshapes L) * sizeof_ShapeData env) (ShapeTable shapedata) d5;
     let (p_raycnt, d7) = CreateBuffer sizeof_int Unwritten d6;
     let (p_stack, d8) = CreateBuffer (nat (kMaxBatchSize * kMaxStackSize)) Unwritten d7;
     Some (s\<lparr>m_gpudata := \<lparr>gpu_bvh = p_bvh, gpu_vertices = p_vertices, gpu_faces = p_faces,
                            gpu_shapes = p_shapes, gpu_raycnt = p_raycnt, gpu_stack = p_stack\<rparr>,
             m_device := d8\<rparr>)
   }"

definition needs_rebuild :: "('v, 'm) world \<Rightarrow> ('v, 'h, 'n) strategy \<Rightarrow> bool" where
  "needs_rebuild w s \<longleftrightarrow>
     m_bvh s = None \<or> has_changed w \<or> GetStateChange w \<noteq> kStateChangeNone"

text \<open>Lines 156 to 163: with a BVH installed, the five primary buffers are deleted.\<close>

definition release_primary :: "('v, 'h, 'n) strategy \<Rightarrow> ('v, 'n) device option" where
  "release_primary s =
     (if m_bvh s \<noteq> None then delete_primary (m_gpudata s) (m_device s) else Some (m_device s))"

text \<open>\<^verbatim>\<open>kMaxBatchSize * kMaxStackSize * sizeof(int)\<close>, the bound of line 168.\<close>

definition alloc_limit :: nat where
  "alloc_limit = nat (kMaxBatchSize * kMaxStackSize) * sizeof_int"

text \<open>
  Preprocess.  A call returns or throws one of the two errors; in both cases it leaves
  a strategy state.  The host BVH is created at line 191 and built at line 274; no
  statement in between can throw, so the model installs the built BVH in one step
  (\<open>Build\<close> takes the \<^verbatim>\<open>enablesah\<close> flag of the constructor).  The events of
  \<^verbatim>\<open>MapBuffer\<close> and \<^verbatim>\<open>UnmapBuffer\<close> and the final \<^verbatim>\<open>Finish\<close> have no effect on
  the state that is modelled.  The addresses \<^verbatim>\<open>&bounds[0]\<close>, \<^verbatim>\<open>&shapedata[0]\<close> and
  \<^verbatim>\<open>&translator.nodes_[0]\<close> are passed on as the vectors themselves.
\<close>

definition Preprocess ::
  "('v, 'm, 'b, 'h, 'n) externals \<Rightarrow> ('v, 'm) world \<Rightarrow> ('v, 'h, 'n) strategy \<Rightarrow>
   ('v, 'h, 'n) strategy outcome option" where
  "Preprocess env w s =
     (if needs_rebuild w s then do {
        dev \<leftarrow> release_primary s;
        let s1 = s\<lparr>m_device := dev\<rparr>;
        if max_alloc_size dev \<le> alloc_limit
        then Some (Threw CannotAllocateStackMemory s1)
        else do {
          let enablesah = (bvh_builder w = Some ''sah'');
          L \<leftarrow> scene_layout w;
          (bounds, shapedata) \<leftarrow> build_bounds env L;
          let bvh = Build env enablesah bounds (numfaces L);
          if height env bvh \<ge> kMaxStackSize
          then Some (Threw StackOverflowRisk (s1\<lparr>m_bvh := None\<rparr>))
          else do {
            s2 \<leftarrow> upload env L shapedata bvh (s1\<lparr>m_bvh := Some bvh\<rparr>);
            Some (Returned s2)
          }
        }
      }
      else Some (Returned s))"

subsection \<open>The four queries (lines 441 to 571)\<close>

text \<open>
  Every query starts with the same lines: the required stack size
  \<^verbatim>\<open>4 * numrays * kMaxStackSize\<close> is computed in \<^verbatim>\<open>std::uint32_t\<close> (the operand
  types are \<^verbatim>\<open>int\<close>, \<^verbatim>\<open>std::uint32_t\<close> and \<^verbatim>\<open>int\<close>) and then widened to
  \<^verbatim>\<open>size_t\<close>; when it exceeds the size of the stack buffer, the buffer is deleted
  and a new one of the required size is created.
\<close>

definition required_stack_size :: "32 word \<Rightarrow> nat" where
  "required_stack_size n = unat (4 * n * word_of_int kMaxStackSize)"

definition relocate_stack :: "32 word \<Rightarrow> ('v, 'h, 'n) strategy \<Rightarrow> ('v, 'h, 'n) strategy option" where
  "relocate_stack n s =
     (let stack_size = required_stack_size n in do {
        cur \<leftarrow> GetSize (gpu_stack (m_gpudata s)) (m_device s);
        if stack_size > cur then do {
          d1 \<leftarrow> DeleteBuffer (gpu_stack (m_gpudata s)) (m_device s);
          let (p, d2) = CreateBuffer stack_size Unwritten d1;
          Some (s\<lparr>m_gpudata := (m_gpudata s)\<lparr>gpu_stack := p\<rparr>, m_device := d2\<rparr>)
        }
        else Some s
      })"

datatype kernel_arg =
    BufferArg "nat option"
  | ValueArg nat "32 word"

record launch =
  launch_function :: string
  launch_args :: "kernel_arg list"
  launch_queue :: "32 word"
  launch_globalsize :: nat
  launch_localsize :: nat

definition global_size :: "32 word \<Rightarrow> nat" where
  "global_size n =
     unat (((n + word_of_int kWorkGroupSize - 1) div word_of_int kWorkGroupSize)
           * word_of_int kWorkGroupSize)"

definition bind_and_execute ::
  "string \<Rightarrow> 32 word \<Rightarrow> nat option \<Rightarrow> kernel_arg \<Rightarrow> 32 word \<Rightarrow> nat option \<Rightarrow>
   ('v, 'h, 'n) strategy \<Rightarrow> launch" where
  "bind_and_execute func queueidx rays raycount n hits s =
     (let g = m_gpudata s in
      \<lparr>launch_function = func,
       launch_args =
         [BufferArg (gpu_bvh g), BufferArg (gpu_vertices g), BufferArg (gpu_faces g),
          BufferArg (gpu_shapes g), BufferArg rays, ValueArg 4 0, raycount, BufferArg hits,
          BufferArg (gpu_stack g)],
       launch_queue = queueidx,
       launch_globalsize = global_size n,
       launch_localsize = nat kWorkGroupSize\<rparr>)"

definition QueryIntersection ::
  "32 word \<Rightarrow> nat option \<Rightarrow> 32 word \<Rightarrow> nat option \<Rightarrow> ('v, 'h, 'n) strategy \<Rightarrow>
   (launch \<times> ('v, 'h, 'n) strategy) option" where
  "QueryIntersection queueidx rays numrays hits s = do {
     s1 \<leftarrow> relocate_stack numrays s;
     Some (bind_and_execute ''IntersectClosest'' queueidx rays (ValueArg 4 numrays) numrays hits s1, s1)
   }"

definition QueryOcclusion ::
  "32 word \<Rightarrow> nat option \<Rightarrow> 32 word \<Rightarrow> nat option \<Rightarrow> ('v, 'h, 'n) strategy \<Rightarrow>
   (launch \<times> ('v, 'h, 'n) strategy) option" where
  "QueryOcclusion queueidx rays numrays hits s = do {
     s1 \<leftarrow> relocate_stack numrays s;
     Some (bind_and_execute ''IntersectAny'' queueidx rays (ValueArg 4 numrays) numrays hits s1, s1)
   }"

definition QueryIntersection_indirect ::
  "32 word \<Rightarrow> nat option \<Rightarrow> nat option \<Rightarrow> 32 word \<Rightarrow> nat option \<Rightarrow> ('v, 'h, 'n) strategy \<Rightarrow>
   (launch \<times> ('v, 'h, 'n) strategy) option" where
  "QueryIntersection_indirect queueidx rays numrays maxrays hits s = do {
     s1 \<leftarrow> relocate_stack maxrays s;
     Some (bind_and_execute ''IntersectClosestRC'' queueidx rays (BufferArg numrays) maxrays hits s1, s1)
   }"

definition QueryOcclusion_indirect ::
  "32 word \<Rightarrow> nat option \<Rightarrow> nat option \<Rightarrow> 32 word \<Rightarrow> nat option \<Rightarrow> ('v, 'h, 'n) strategy \<Rightarrow>
   (launch \<times> ('v, 'h, 'n) strategy) option" where
  "QueryOcclusion_indirect queueidx rays numrays maxrays hits s = do {
     s1 \<leftarrow> relocate_stack maxrays s;
     Some (bind_and_execute ''IntersectAnyRC'' queueidx rays (BufferArg numrays) maxrays hits s1, s1)
   }"

section \<open>Properties\<close>

subsection \<open>Notions used in the statements\<close>

text \<open>
  The mesh whose geometry a shape has (itself, or the base mesh of an instance), and
  the number of faces and of vertices of the shapes before position \<open>k\<close> of a
  shape vector.
\<close>

fun geometry :: "('v, 'm) shape \<Rightarrow> ('v, 'm) mesh" where
  "geometry (MeshShape mesh) = mesh"
| "geometry (InstanceShape inst) = base_shape inst"

definition faces_before :: "('v, 'm) shape list \<Rightarrow> nat \<Rightarrow> int" where
  "faces_before shs k = sum_list (map (\<lambda>sh. num_faces (geometry sh)) (take k shs))"

definition vertices_before :: "('v, 'm) shape list \<Rightarrow> nat \<Rightarrow> int" where
  "vertices_before shs k = sum_list (map (\<lambda>sh. num_vertices (geometry sh)) (take k shs))"

text \<open>
  What \<^verbatim>\<open>std::partition\<close> establishes between positions \<open>first\<close> and \<open>lst\<close>:
  the same elements, those satisfying the predicate before position \<open>k\<close>, the
  others from \<open>k\<close> on, and nothing moved outside the range.
\<close>

definition partitioned_between :: "('a \<Rightarrow> bool) \<Rightarrow> 'a list \<Rightarrow> nat \<Rightarrow> nat \<Rightarrow> 'a list \<Rightarrow> nat \<Rightarrow> bool" where
  "partitioned_between p xs first lst ys k \<longleftrightarrow>
     mset ys = mset xs \<and> length ys = length xs \<and> first \<le> k \<and> k \<le> lst \<and>
     (\<forall>i. first \<le> i \<and> i < k \<longrightarrow> p (ys ! i)) \<and>
     (\<forall>i. k \<le> i \<and> i < lst \<longrightarrow> \<not> p (ys ! i)) \<and>
     (\<forall>i. i < first \<or> lst \<le> i \<longrightarrow> ys ! i = xs ! i)"

text \<open>A stable partition, as the specification words it: both groups in their original order.\<close>

definition stable_partition :: "('a \<Rightarrow> bool) \<Rightarrow> 'a list \<Rightarrow> 'a list" where
  "stable_partition p xs = filter p xs @ filter (\<lambda>x. \<not> p x) xs"

text \<open>
  The numbers of faces and of vertices of a world, and the worlds whose counts are
  values of \<^verbatim>\<open>int\<close>: the number of shapes, of faces and of vertices are at most
  \<^verbatim>\<open>INT_MAX\<close>.
\<close>

definition total_faces :: "('v, 'm) world \<Rightarrow> int" where
  "total_faces w = sum_list (map (\<lambda>sh. num_faces (geometry sh)) (world_shapes w))"

definition total_vertices :: "('v, 'm) world \<Rightarrow> int" where
  "total_vertices w = sum_list (map (\<lambda>sh. num_vertices (geometry sh)) (world_shapes w))"

definition counts_fit :: "('v, 'm) world \<Rightarrow> bool" where
  "counts_fit w \<longleftrightarrow>
     int (length (world_shapes w)) \<le> INT_MAX \<and> total_faces w \<le> INT_MAX \<and> total_vertices w \<le> INT_MAX"

text \<open>
  A layout as the first stage leaves it: the counts add up and are values of
  \<^verbatim>\<open>int\<close>, the instances are exactly the shapes from \<open>nummeshes\<close> on, and the
  start indices and totals are the running sums of the face and vertex counts.
  \<open>counted\<close> is the state of the two counting loops before iteration \<open>i\<close>.
  \<open>indices_fit\<close> says that the vertex indices of the faces are values of
  \<^verbatim>\<open>int\<close>, and so are the sums of lines 412 to 414, a vertex index of a face plus
  the vertex offset of its shape.
\<close>

definition indices_fit :: "('v, 'm) layout \<Rightarrow> bool" where
  "indices_fit L \<longleftrightarrow>
     (\<forall>k < length (shapes L). \<forall>f \<in> set (face_data (geometry (shapes L ! k))).
        int_ok (idx0 f) \<and> int_ok (idx1 f) \<and> int_ok (idx2 f) \<and>
        int_ok (idx0 f + mesh_vertices_start_idx L ! k) \<and>
        int_ok (idx1 f + mesh_vertices_start_idx L ! k) \<and>
        int_ok (idx2 f + mesh_vertices_start_idx L ! k))"

definition layout_ok :: "('v, 'm) layout \<Rightarrow> bool" where
  "layout_ok L \<longleftrightarrow>
     numshapes L = int (length (shapes L)) \<and>
     numshapes L \<le> INT_MAX \<and> numfaces L \<le> INT_MAX \<and> numvertices L \<le> INT_MAX \<and>
     0 \<le> nummeshes L \<and> 0 \<le> numinstances L \<and>
     nummeshes L + numinstances L = int (length (shapes L)) \<and>
     (\<forall>k < length (shapes L). is_instance (shapes L ! k) \<longleftrightarrow> nummeshes L \<le> int k) \<and>
     length (mesh_faces_start_idx L) = length (shapes L) \<and>
     length (mesh_vertices_start_idx L) = length (shapes L) \<and>
     (\<forall>k < length (shapes L).
        mesh_faces_start_idx L ! k = faces_before (shapes L) k \<and>
        mesh_vertices_start_idx L ! k = vertices_before (shapes L) k) \<and>
     numfaces L = faces_before (shapes L) (length (shapes L)) \<and>
     numvertices L = vertices_before (shapes L) (length (shapes L))"

definition counted :: "('v, 'm) layout \<Rightarrow> int \<Rightarrow> ('v, 'm) layout \<Rightarrow> bool" where
  "counted L0 i L \<longleftrightarrow>
     (\<exists>fs vs. L = L0\<lparr>mesh_faces_start_idx := fs, mesh_vertices_start_idx := vs,
                      numfaces := faces_before (shapes L0) (nat i),
                      numvertices := vertices_before (shapes L0) (nat i)\<rparr> \<and>
        length fs = length (shapes L0) \<and> length vs = length (shapes L0) \<and>
        (\<forall>k < nat i. fs ! k = faces_before (shapes L0) k \<and> vs ! k = vertices_before (shapes L0) k))"

subsection \<open>An example scene\<close>

text \<open>
  A scene on which the statements below are evaluated: integers stand for vertices,
  matrices, boxes and nodes, a BVH is its height and index array, the builder
  returns the faces in reverse order, and the parallel loops run in program order.
\<close>

definition ex_env :: "(int, int, int, int \<times> int list, nat) externals" where
  "ex_env = \<lparr>transform_point = (\<lambda>v m. v + m), transform_bbox = (\<lambda>b m. b * m),
     GetFaceBounds = (\<lambda>mesh j obj. if obj then 100 + j else 200 + j + fst (mesh_transform mesh)),
     bbox_default = 0,
     Build = (\<lambda>sah bs n. (2, rev (map int [0..<nat n]))),
     height = fst, GetIndices = snd, Process = (\<lambda>h. [7, 8, 9]),
     sizeof_Node = 64, sizeof_float3 = 16, sizeof_ShapeData = 112,
     omp_schedule = (\<lambda>lo hi. [])\<rparr>"

definition ex_mesh1 :: "(int, int) mesh" where
  "ex_mesh1 = \<lparr>mesh_id = 11, mesh_mask = 1, vertex_data = [1, 2, 3],
     face_data = [\<lparr>idx0 = 0, idx1 = 1, idx2 = 2\<rparr>], mesh_transform = (1000, -1000)\<rparr>"

definition ex_mesh2 :: "(int, int) mesh" where
  "ex_mesh2 = \<lparr>mesh_id = 12, mesh_mask = 1, vertex_data = [4, 5, 6, 7],
     face_data = [\<lparr>idx0 = 0, idx1 = 1, idx2 = 2\<rparr>, \<lparr>idx0 = 1, idx1 = 2, idx2 = 3\<rparr>],
     mesh_transform = (2000, -2000)\<rparr>"

definition ex_instance :: "(int, int) instance_shape" where
  "ex_instance = \<lparr>inst_id = 21, inst_mask = 1, base_shape = ex_mesh1, inst_transform = (5000, -5000)\<rparr>"

definition ex_world :: "(int, int) world" where
  "ex_world = \<lparr>world_shapes = [InstanceShape ex_instance, MeshShape ex_mesh1, MeshShape ex_mesh2],
     bvh_builder = None, has_changed = False, GetStateChange = kStateChangeNone\<rparr>"

definition ex_device :: "(int, nat) device" where
  "ex_device = \<lparr>max_alloc_size = 1000000000, next_buffer = 0, buffers = (\<lambda>_. None)\<rparr>"

text \<open>
  The bound the code writes for face \<open>j\<close> of a shape, the world-space position of
  vertex \<open>j\<close> of a shape under the shape's own forward matrix, and the record the
  code writes for the face with the original index \<open>orig\<close>.
\<close>

fun world_bound :: "('v, 'm, 'b, 'h, 'n) externals \<Rightarrow> ('v, 'm) shape \<Rightarrow> int \<Rightarrow> 'b" where
  "world_bound env (MeshShape mesh) j = GetFaceBounds env mesh j False"
| "world_bound env (InstanceShape inst) j =
     transform_bbox env (GetFaceBounds env (base_shape inst) j True) (fst (inst_transform inst))"

fun world_vertex :: "('v, 'm, 'b, 'h, 'n) externals \<Rightarrow> ('v, 'm) shape \<Rightarrow> int \<Rightarrow> 'v" where
  "world_vertex env (MeshShape mesh) j =
     transform_point env (vertex_data mesh ! nat j) (fst (mesh_transform mesh))"
| "world_vertex env (InstanceShape inst) j =
     transform_point env (vertex_data (base_shape inst) ! nat j) (fst (inst_transform inst))"

definition flat_face :: "('v, 'm) layout \<Rightarrow> int \<Rightarrow> face" where
  "flat_face L orig =
     (let k = int (upper_bound (mesh_faces_start_idx L) orig) - 1;
          f = orig - mesh_faces_start_idx L ! nat k;
          myface = face_data (geometry (shapes L ! nat k)) ! nat f;
          v = mesh_vertices_start_idx L ! nat k
      in \<lparr>idx = (idx0 myface + v, idx1 myface + v, idx2 myface + v),
          shapeidx = k, face_id = f, cnt = 0\<rparr>)"

text \<open>
  The size of the stack buffer that Preprocess creates (line 434), the state that the
  upload stage leaves, the BVH that Preprocess builds for a world, and the contents
  of the vertex and the face buffer of a strategy.
\<close>

definition stack_bytes :: nat where
  "stack_bytes = nat (kMaxBatchSize * kMaxStackSize)"

definition uploaded ::
  "('v, 'm, 'b, 'h, 'n) externals \<Rightarrow> ('v, 'm) layout \<Rightarrow> shape_data list \<Rightarrow> 'h \<Rightarrow>
   'v option list \<Rightarrow> face option list \<Rightarrow> ('v, 'h, 'n) strategy \<Rightarrow> ('v, 'h, 'n) strategy" where
  "uploaded env L shapedata bvh vertexdata facedata s =
     (let a = next_buffer (m_device s) in
      s\<lparr>m_gpudata := \<lparr>gpu_bvh = Some a, gpu_vertices = Some (a + 1), gpu_faces = Some (a + 2),
                       gpu_shapes = Some (a + 3), gpu_raycnt = Some (a + 4), gpu_stack = Some (a + 5)\<rparr>,
        m_device := (m_device s)
          \<lparr>next_buffer := a + 6,
           buffers := (buffers (m_device s))
             (a \<mapsto> \<lparr>buf_size = length (Process env bvh) * sizeof_Node env, buf_data = NodeData (Process env bvh)\<rparr>,
              a + 1 \<mapsto> \<lparr>buf_size = nat (numvertices L) * sizeof_float3 env, buf_data = VertexData vertexdata\<rparr>,
              a + 2 \<mapsto> \<lparr>buf_size = nat (numfaces L) * sizeof_Face, buf_data = FaceData facedata\<rparr>,
              a + 3 \<mapsto> \<lparr>buf_size = nat (numshapes L) * sizeof_ShapeData env, buf_data = ShapeTable shapedata\<rparr>,
              a + 4 \<mapsto> \<lparr>buf_size = sizeof_int, buf_data = Unwritten\<rparr>,
              a + 5 \<mapsto> \<lparr>buf_size = stack_bytes, buf_data = Unwritten\<rparr>)\<rparr>\<rparr>)"

definition built_bvh :: "('v, 'm, 'b, 'h, 'n) externals \<Rightarrow> ('v, 'm) world \<Rightarrow> 'h option" where
  "built_bvh env w = do {
     L \<leftarrow> scene_layout w;
     (bounds, shapedata) \<leftarrow> build_bounds env L;
     Some (Build env (bvh_builder w = Some ''sah'') bounds (numfaces L))
   }"

definition buffer_at :: "nat option \<Rightarrow> ('v, 'n) device \<Rightarrow> ('v, 'n) buffer option" where
  "buffer_at ptr dev = (case ptr of None \<Rightarrow> None | Some a \<Rightarrow> buffers dev a)"

definition vertex_buffer :: "('v, 'h, 'n) strategy \<Rightarrow> 'v option list option" where
  "vertex_buffer s =
     (case buffer_at (gpu_vertices (m_gpudata s)) (m_device s) of
        Some b \<Rightarrow> (case buf_data b of VertexData vertexdata \<Rightarrow> Some vertexdata | _ \<Rightarrow> None)
      | None \<Rightarrow> None)"

definition face_buffer :: "('v, 'h, 'n) strategy \<Rightarrow> face option list option" where
  "face_buffer s =
     (case buffer_at (gpu_faces (m_gpudata s)) (m_device s) of
        Some b \<Rightarrow> (case buf_data b of FaceData facedata \<Rightarrow> Some facedata | _ \<Rightarrow> None)
      | None \<Rightarrow> None)"

definition ex_L :: "(int, int) layout" where
  "ex_L = \<lparr>numshapes = 3, shapes = [MeshShape ex_mesh2, MeshShape ex_mesh1, InstanceShape ex_instance],
           nummeshes = 2, numinstances = 1, mesh_faces_start_idx = [0, 2, 3],
           mesh_vertices_start_idx = [0, 4, 7], numfaces = 4, numvertices = 10\<rparr>"

text \<open>The same collaborators with a builder whose BVH has height 48.\<close>

definition ex_env_deep :: "(int, int, int, int \<times> int list, nat) externals" where
  "ex_env_deep = ex_env\<lparr>Build := (\<lambda>sah bs n. (48, rev (map int [0..<nat n])))\<rparr>"

text \<open>The strategy after the first Preprocess of the example scene.\<close>

definition ex_ready :: "(int, int \<times> int list, nat) strategy" where
  "ex_ready =
     uploaded ex_env ex_L
       [\<lparr>shape_id = 12, shape_mask = 1\<rparr>, \<lparr>shape_id = 11, shape_mask = 1\<rparr>, \<lparr>shape_id = 21, shape_mask = 1\<rparr>]
       (2, [3, 2, 1, 0])
       [Some 2004, Some 2005, Some 2006, Some 2007, Some 1001, Some 1002, Some 1003,
        Some 5001, Some 5002, Some 5003]
       [Some \<lparr>idx = (7, 8, 9), shapeidx = 2, face_id = 0, cnt = 0\<rparr>,
        Some \<lparr>idx = (4, 5, 6), shapeidx = 1, face_id = 0, cnt = 0\<rparr>,
        Some \<lparr>idx = (1, 2, 3), shapeidx = 0, face_id = 1, cnt = 0\<rparr>,
        Some \<lparr>idx = (0, 1, 2), shapeidx = 0, face_id = 0, cnt = 0\<rparr>]
       ((new_strategy ex_device)\<lparr>m_bvh := Some (2, [3, 2, 1, 0])\<rparr>)"

text \<open>The state in which a call of Preprocess ends, the error it throws, and the five
  primary buffer pointers of a strategy.\<close>

fun outcome_state :: "'s outcome \<Rightarrow> 's" where
  "outcome_state (Returned s) = s"
| "outcome_state (Threw e s) = s"

fun thrown :: "'s outcome \<Rightarrow> error option" where
  "thrown (Returned s) = None"
| "thrown (Threw e s) = Some e"

definition primary_pointers :: "('v, 'h, 'n) strategy \<Rightarrow> nat option list" where
  "primary_pointers s =
     [gpu_bvh (m_gpudata s), gpu_vertices (m_gpudata s), gpu_faces (m_gpudata s),
      gpu_shapes (m_gpudata s), gpu_raycnt (m_gpudata s)]"

text \<open>
  The example world after a change, the example strategy on a device that reports a
  small \<^verbatim>\<open>max_alloc_size\<close>, the example device with the five primary buffers
  released, and the strategy after a second, rebuilding Preprocess.
\<close>

definition ex_changed :: "(int, int) world" where
  "ex_changed = ex_world\<lparr>has_changed := True\<rparr>"

definition ex_small :: "(int, int \<times> int list, nat) strategy" where
  "ex_small = ex_ready\<lparr>m_device := (m_device ex_ready)\<lparr>max_alloc_size := 1000\<rparr>\<rparr>"

definition ex_released :: "(int, nat) device" where
  "ex_released = (m_device ex_ready)\<lparr>buffers := (buffers (m_device ex_ready))(0 := None, 1 := None, 2 := None, 3 := None, 4 := None)\<rparr>"

definition ex_rebuilt :: "(int, int \<times> int list, nat) strategy" where
  "ex_rebuilt =
     uploaded ex_env ex_L
       [\<lparr>shape_id = 12, shape_mask = 1\<rparr>, \<lparr>shape_id = 11, shape_mask = 1\<rparr>, \<lparr>shape_id = 21, shape_mask = 1\<rparr>]
       (2, [3, 2, 1, 0])
       [Some 2004, Some 2005, Some 2006, Some 2007, Some 1001, Some 1002, Some 1003,
        Some 5001, Some 5002, Some 5003]
       [Some \<lparr>idx = (7, 8, 9), shapeidx = 2, face_id = 0, cnt = 0\<rparr>,
        Some \<lparr>idx = (4, 5, 6), shapeidx = 1, face_id = 0, cnt = 0\<rparr>,
        Some \<lparr>idx = (1, 2, 3), shapeidx = 0, face_id = 1, cnt = 0\<rparr>,
        Some \<lparr>idx = (0, 1, 2), shapeidx = 0, face_id = 0, cnt = 0\<rparr>]
       (ex_ready\<lparr>m_device := ex_released, m_bvh := Some (2, [3, 2, 1, 0])\<rparr>)"

text \<open>
  The same collaborators with an OpenMP runtime that runs the loop over the meshes on
  two threads: the iterations 0 and 1 both take their first step,
  \<^verbatim>\<open>GetTransform(m, minv)\<close>, before either of them transforms a vertex.
\<close>

definition ex_env_omp :: "(int, int, int, int \<times> int list, nat) externals" where
  "ex_env_omp = ex_env\<lparr>omp_schedule := (\<lambda>lo hi. if lo = 0 then [0, 1] else [])\<rparr>"

subsection \<open>Facts about std::partition\<close>

lemma skip_true_all: "first \<le> i \<Longrightarrow> i < skip_true p xs first lst \<Longrightarrow> p (xs ! i)"
proof (induction p xs first lst rule: skip_true.induct)
  case (1 p xs first lst)
  show ?case
  proof (cases "first < lst \<and> p (xs ! first)")
    case True
    then have eq: "skip_true p xs first lst = skip_true p xs (Suc first) lst"
      by (subst skip_true.simps) simp
    show ?thesis
    proof (cases "i = first")
      case True
      with \<open>first < lst \<and> p (xs ! first)\<close> show ?thesis by simp
    next
      case False
      with 1 True eq show ?thesis by simp
    qed
  next
    case False
    then have "skip_true p xs first lst = first"
      by (subst skip_true.simps) auto
    with 1 show ?thesis by simp
  qed
qed

lemma skip_true_stop: "skip_true p xs first lst < lst \<Longrightarrow> \<not> p (xs ! skip_true p xs first lst)"
proof (induction p xs first lst rule: skip_true.induct)
  case (1 p xs first lst)
  show ?case
  proof (cases "first < lst \<and> p (xs ! first)")
    case True
    then have eq: "skip_true p xs first lst = skip_true p xs (Suc first) lst"
      by (subst skip_true.simps) simp
    with 1 True show ?thesis by simp
  next
    case False
    then have eq: "skip_true p xs first lst = first"
      by (subst skip_true.simps) auto
    with 1 False show ?thesis by simp
  qed
qed

lemma skip_false_all: "skip_false p xs first lst < i \<Longrightarrow> i \<le> lst \<Longrightarrow> \<not> p (xs ! i)"
proof (induction p xs first lst rule: skip_false.induct)
  case (1 p xs first lst)
  show ?case
  proof (cases "first < lst \<and> \<not> p (xs ! lst)")
    case True
    then have eq: "skip_false p xs first lst = skip_false p xs first (lst - 1)"
      by (subst skip_false.simps) simp
    show ?thesis
    proof (cases "i = lst")
      case True
      with \<open>first < lst \<and> \<not> p (xs ! lst)\<close> show ?thesis by simp
    next
      case False
      with 1 True eq show ?thesis by simp
    qed
  next
    case False
    then have "skip_false p xs first lst = lst"
      by (subst skip_false.simps) auto
    with 1 show ?thesis by simp
  qed
qed

lemma skip_false_stop: "first < skip_false p xs first lst \<Longrightarrow> p (xs ! skip_false p xs first lst)"
proof (induction p xs first lst rule: skip_false.induct)
  case (1 p xs first lst)
  show ?case
  proof (cases "first < lst \<and> \<not> p (xs ! lst)")
    case True
    then have eq: "skip_false p xs first lst = skip_false p xs first (lst - 1)"
      by (subst skip_false.simps) simp
    with 1 True show ?thesis by simp
  next
    case False
    then have eq: "skip_false p xs first lst = lst"
      by (subst skip_false.simps) auto
    with 1 False show ?thesis by auto
  qed
qed

lemma std_partition_loop_correct:
  "first \<le> lst \<Longrightarrow> lst \<le> length xs \<Longrightarrow>
   partitioned_between p xs first lst (fst (std_partition_loop p xs first lst)) (snd (std_partition_loop p xs first lst))"
proof (induction p xs first lst rule: std_partition_loop.induct)
  case (1 p xs first lst)
  define first1 where "first1 = skip_true p xs first lst"
  define lst1 where "lst1 = skip_false p xs first1 (lst - 1)"
  have f1: "first \<le> first1" "first1 \<le> lst"
    using 1(2) by (simp_all add: first1_def skip_true_ge skip_true_le)
  have pre: "\<forall>i. first \<le> i \<and> i < first1 \<longrightarrow> p (xs ! i)"
    using skip_true_all [of first _ p xs lst] by (simp add: first1_def)
  show ?case
  proof (cases "lst \<le> first1")
    case True
    then have "std_partition_loop p xs first lst = (xs, first1)"
      by (subst std_partition_loop.simps) (simp add: first1_def)
    with f1 pre True show ?thesis
      by (simp add: partitioned_between_def)
  next
    case False
    then have lt: "first1 < lst" by simp
    have stop1: "\<not> p (xs ! first1)"
      using lt skip_true_stop [of p xs first lst] by (simp add: first1_def)
    have l1: "first1 \<le> lst1" "lst1 \<le> lst - 1"
      using lt by (simp_all add: lst1_def skip_false_ge skip_false_le)
    have post: "\<forall>i. lst1 < i \<and> i < lst \<longrightarrow> \<not> p (xs ! i)"
      using skip_false_all [of p xs first1 "lst - 1"] by (auto simp: lst1_def)
    show ?thesis
    proof (cases "lst1 \<le> first1")
      case True
      then have eq: "lst1 = first1" using l1 by simp
      have "std_partition_loop p xs first lst = (xs, first1)"
        using False True by (subst std_partition_loop.simps) (simp add: first1_def lst1_def Let_def)
      moreover have "\<forall>i. first1 \<le> i \<and> i < lst \<longrightarrow> \<not> p (xs ! i)"
        using post stop1 eq by (metis le_neq_implies_less)
      ultimately show ?thesis using f1 pre
        by (simp add: partitioned_between_def)
    next
      case nle: False
      then have lt2: "first1 < lst1" by simp
      have stop2: "p (xs ! lst1)"
        using lt2 skip_false_stop [of first1 p xs "lst - 1"] by (simp add: lst1_def)
      define ys where "ys = iter_swap xs first1 lst1"
      have rec: "std_partition_loop p xs first lst = std_partition_loop p ys (Suc first1) lst1"
        using False nle by (subst std_partition_loop.simps) (simp add: first1_def lst1_def ys_def Let_def)
      have len: "length ys = length xs" by (simp add: ys_def iter_swap_def)
      have inb: "first1 < length xs" "lst1 < length xs"
        using lt l1 1(3) by simp_all
      have ms: "mset ys = mset xs"
        unfolding ys_def iter_swap_def using inb by (simp add: mset_swap)
      have ysf: "ys ! first1 = xs ! lst1" and ysl: "ys ! lst1 = xs ! first1"
        and yso: "\<And>i. i \<noteq> first1 \<Longrightarrow> i \<noteq> lst1 \<Longrightarrow> ys ! i = xs ! i"
        using inb lt2 by (simp_all add: ys_def iter_swap_def)
      have IH: "partitioned_between p ys (Suc first1) lst1
                 (fst (std_partition_loop p ys (Suc first1) lst1)) (snd (std_partition_loop p ys (Suc first1) lst1))"
        using 1(1) [OF first1_def False lst1_def nle] lt2 l1 1(3) len
        by (simp add: ys_def)
      obtain zs k where zk: "std_partition_loop p ys (Suc first1) lst1 = (zs, k)"
        by (cases "std_partition_loop p ys (Suc first1) lst1")
      from IH zk have A: "mset zs = mset ys" "length zs = length ys" "Suc first1 \<le> k" "k \<le> lst1"
        and B: "\<And>i. Suc first1 \<le> i \<Longrightarrow> i < k \<Longrightarrow> p (zs ! i)"
        and C: "\<And>i. k \<le> i \<Longrightarrow> i < lst1 \<Longrightarrow> \<not> p (zs ! i)"
        and D1: "\<And>i. i < Suc first1 \<Longrightarrow> zs ! i = ys ! i"
        and D2: "\<And>i. lst1 \<le> i \<Longrightarrow> zs ! i = ys ! i"
        by (simp_all add: partitioned_between_def)
      have P1: "\<forall>i. first \<le> i \<and> i < k \<longrightarrow> p (zs ! i)"
      proof (intro allI impI)
        fix i assume i: "first \<le> i \<and> i < k"
        show "p (zs ! i)"
        proof (cases "Suc first1 \<le> i")
          case True with i B show ?thesis by simp
        next
          case False
          then have "zs ! i = ys ! i" using D1 by simp
          moreover have "p (ys ! i)"
          proof (cases "i = first1")
            case True with ysf stop2 show ?thesis by simp
          next
            case ne: False
            with False have "i < first1" by simp
            with i pre lt2 yso [of i] show ?thesis by simp
          qed
          ultimately show ?thesis by simp
        qed
      qed
      have P2: "\<forall>i. k \<le> i \<and> i < lst \<longrightarrow> \<not> p (zs ! i)"
      proof (intro allI impI)
        fix i assume i: "k \<le> i \<and> i < lst"
        show "\<not> p (zs ! i)"
        proof (cases "i < lst1")
          case True with i C show ?thesis by simp
        next
          case False
          then have "zs ! i = ys ! i" using D2 by simp
          moreover have "\<not> p (ys ! i)"
          proof (cases "i = lst1")
            case True with ysl stop1 show ?thesis by simp
          next
            case ne: False
            with False have "lst1 < i" by simp
            with i post lt2 yso [of i] show ?thesis by simp
          qed
          ultimately show ?thesis by simp
        qed
      qed
      have P3: "\<forall>i. i < first \<or> lst \<le> i \<longrightarrow> zs ! i = xs ! i"
      proof (intro allI impI)
        fix i assume i: "i < first \<or> lst \<le> i"
        then have "zs ! i = ys ! i" using D1 [of i] D2 [of i] f1 l1 lt by auto
        moreover have "ys ! i = xs ! i" using i yso [of i] f1 l1 lt lt2 by auto
        ultimately show "zs ! i = xs ! i" by simp
      qed
      show ?thesis
        using rec zk A ms len P1 P2 P3 f1 l1 lt
        by (simp add: partitioned_between_def)
    qed
  qed
qed

subsection \<open>Loops\<close>

lemma for_loop_step: "i < hi \<Longrightarrow> body i s = Some s' \<Longrightarrow> for_loop i hi body s = for_loop (i + 1) hi body s'"
  by (subst for_loop.simps) simp

lemma for_loop_done: "\<not> i < hi \<Longrightarrow> for_loop i hi body s = Some s"
  by (subst for_loop.simps) simp

lemma for_loop_rule_aux:
  "(\<And>i s. lo \<le> i \<Longrightarrow> i < hi \<Longrightarrow> I i s \<Longrightarrow> \<exists>s'. body i s = Some s' \<and> I (i + 1) s') \<Longrightarrow>
   lo \<le> i \<Longrightarrow> i \<le> hi \<Longrightarrow> I i s \<Longrightarrow> \<exists>s'. for_loop i hi body s = Some s' \<and> I hi s'"
proof (induction i hi body s rule: for_loop.induct)
  case (1 i hi body s)
  show ?case
  proof (cases "i < hi")
    case True
    from 1(2) [OF 1(3) True 1(5)] obtain s1 where s1: "body i s = Some s1" "I (i + 1) s1"
      by blast
    have "\<exists>s'. for_loop (i + 1) hi body s1 = Some s' \<and> I hi s'"
      using 1(1) [OF True s1(1) 1(2)] 1(3) True s1(2) by simp
    then show ?thesis
      using for_loop_step [of i hi body s s1] True s1(1) by simp
  next
    case False
    with 1(4) have "i = hi" by simp
    with 1(5) False show ?thesis
      by (simp add: for_loop_done)
  qed
qed

lemma for_loop_rule:
  assumes "lo \<le> hi" and "I lo s"
    and "\<And>i s. lo \<le> i \<Longrightarrow> i < hi \<Longrightarrow> I i s \<Longrightarrow> \<exists>s'. body i s = Some s' \<and> I (i + 1) s'"
  shows "\<exists>s'. for_loop lo hi body s = Some s' \<and> I hi s'"
  using for_loop_rule_aux [of lo hi I body lo s] assms by blast

lemma vec_set_Some: "0 \<le> i \<Longrightarrow> i < int (length xs) \<Longrightarrow> vec_set xs i x = Some (xs[nat i := x])"
  by (simp add: vec_set_def)

lemma vec_at_Some: "0 \<le> i \<Longrightarrow> i < int (length xs) \<Longrightarrow> vec_at xs i = Some (xs ! nat i)"
  by (simp add: vec_at_def)

lemma fill_loop:
  assumes start: "0 \<le> start" and fits: "start + n \<le> int (length xs)"
    and body: "\<And>j ys. 0 \<le> j \<Longrightarrow> j < n \<Longrightarrow> length ys = length xs \<Longrightarrow> body j ys = vec_set ys (start + j) (g j)"
  shows "\<exists>ys. for_loop 0 n body xs = Some ys \<and> length ys = length xs \<and>
           (\<forall>j. 0 \<le> j \<and> j < n \<longrightarrow> ys ! nat (start + j) = g j) \<and>
           (\<forall>p. p < nat start \<or> nat (start + n) \<le> p \<longrightarrow> ys ! p = xs ! p)"
proof (cases "0 \<le> n")
  case False
  then show ?thesis by (auto simp: for_loop_done)
next
  case True
  define I where "I = (\<lambda>j ys. length ys = length xs \<and>
           (\<forall>j'. 0 \<le> j' \<and> j' < j \<longrightarrow> ys ! nat (start + j') = g j') \<and>
           (\<forall>p. p < nat start \<or> nat (start + j) \<le> p \<longrightarrow> ys ! p = xs ! p))"
  have "\<exists>ys. for_loop 0 n body xs = Some ys \<and> I n ys"
  proof (rule for_loop_rule [OF True])
    show "I 0 xs" by (auto simp: I_def)
  next
    fix j ys assume j: "0 \<le> j" "j < n" and inv: "I j ys"
    have len: "length ys = length xs" using inv by (simp add: I_def)
    have rng: "0 \<le> start + j" "start + j < int (length ys)"
      using j start fits len by simp_all
    have b: "body j ys = Some (ys[nat (start + j) := g j])"
      using body [OF j len] vec_set_Some [OF rng] by simp
    have "I (j + 1) (ys[nat (start + j) := g j])"
      unfolding I_def
    proof (intro conjI allI impI)
      show "length (ys[nat (start + j) := g j]) = length xs" using len by simp
    next
      fix j' assume "0 \<le> j' \<and> j' < j + 1"
      then show "ys[nat (start + j) := g j] ! nat (start + j') = g j'"
        using inv rng start j by (cases "j' = j") (auto simp: I_def nth_list_update)
    next
      fix p assume "p < nat start \<or> nat (start + (j + 1)) \<le> p"
      then show "ys[nat (start + j) := g j] ! p = xs ! p"
        using inv rng start j by (auto simp: I_def nth_list_update)
    qed
    with b show "\<exists>s'. body j ys = Some s' \<and> I (j + 1) s'" by simp
  qed
  then show ?thesis by (auto simp: I_def)
qed

subsection \<open>The reordering of the shapes\<close>

lemma partition_shapes_correct:
  "partitioned_between (\<lambda>sh. \<not> is_instance sh) (world_shapes w) 0 (length (world_shapes w))
     (fst (partition_shapes w)) (snd (partition_shapes w))"
  unfolding partition_shapes_def std_partition_def
  by (rule std_partition_loop_correct) simp_all

text \<open>
  Claim C4, as the code has it: the reordering of \<^verbatim>\<open>world.shapes_\<close> in Preprocess
  is a permutation of the shapes in which every non-instance shape comes before
  every instance shape, the first instance standing at the position that
  \<^verbatim>\<open>std::partition\<close> returns.  Nothing is said about the order inside the two
  groups.
\<close>

theorem partition_shapes_groups:
  "mset (fst (partition_shapes w)) = mset (world_shapes w) \<and>
   list_all (\<lambda>sh. \<not> is_instance sh) (take (snd (partition_shapes w)) (fst (partition_shapes w))) \<and>
   list_all is_instance (drop (snd (partition_shapes w)) (fst (partition_shapes w)))"
  using partition_shapes_correct [of w]
  by (auto simp: partitioned_between_def list_all_length)

theorem partition_shapes_groups_witness:
  "mset (fst (partition_shapes ex_world)) = mset (world_shapes ex_world) \<and>
   list_all (\<lambda>sh. \<not> is_instance sh) (take (snd (partition_shapes ex_world)) (fst (partition_shapes ex_world))) \<and>
   list_all is_instance (drop (snd (partition_shapes ex_world)) (fst (partition_shapes ex_world)))"
  by (rule partition_shapes_groups)

lemma ex_partition:
  "partition_shapes ex_world = ([MeshShape ex_mesh2, MeshShape ex_mesh1, InstanceShape ex_instance], 2)"
  by (simp add: partition_shapes_def ex_world_def std_partition_def std_partition_loop.simps
      skip_true.simps skip_false.simps iter_swap_def Let_def)

text \<open>
  Claim C4, as stated: the reordering would keep the relative order inside each
  group, that is, it would be the stable partition of the shapes.  The example scene
  holds an instance followed by two meshes; \<^verbatim>\<open>std::partition\<close> swaps the instance
  with the last mesh, so the two meshes end up in reverse order.
\<close>

theorem partition_not_stable:
  "fst (partition_shapes ex_world) \<noteq> stable_partition (\<lambda>sh. \<not> is_instance sh) (world_shapes ex_world)"
  by (simp add: ex_partition) (simp add: stable_partition_def ex_world_def ex_mesh1_def ex_mesh2_def)

subsection \<open>Arithmetic in int\<close>

lemma int_okI: "0 \<le> x \<Longrightarrow> x \<le> INT_MAX \<Longrightarrow> int_ok x"
  by (simp add: int_ok_def INT_MIN_def)

lemma int_add_Some: "int_ok (a + b) \<Longrightarrow> int_add a b = Some (a + b)"
  by (simp add: int_add_def)

lemma int_sub_Some: "int_ok (a - b) \<Longrightarrow> int_sub a b = Some (a - b)"
  by (simp add: int_sub_def)

lemma int_cast_Some: "int_ok x \<Longrightarrow> int_cast x = Some x"
  by (simp add: int_cast_def)

subsection \<open>The shape offsets\<close>

lemma mesh_at_Some:
  "0 \<le> i \<Longrightarrow> i < int (length shs) \<Longrightarrow> \<not> is_instance (shs ! nat i) \<Longrightarrow>
   mesh_at shs i = Some (geometry (shs ! nat i))"
  by (cases "shs ! nat i") (simp_all add: mesh_at_def vec_at_def)

lemma instance_at_Some:
  "0 \<le> i \<Longrightarrow> i < int (length shs) \<Longrightarrow> is_instance (shs ! nat i) \<Longrightarrow>
   \<exists>inst. instance_at shs i = Some inst \<and> shs ! nat i = InstanceShape inst"
  by (cases "shs ! nat i") (simp_all add: instance_at_def vec_at_def)

lemma faces_before_Suc:
  "k < length shs \<Longrightarrow> faces_before shs (Suc k) = faces_before shs k + num_faces (geometry (shs ! k))"
  by (simp add: faces_before_def take_Suc_conv_app_nth)

lemma vertices_before_Suc:
  "k < length shs \<Longrightarrow> vertices_before shs (Suc k) = vertices_before shs k + num_vertices (geometry (shs ! k))"
  by (simp add: vertices_before_def take_Suc_conv_app_nth)

lemma sum_take_le:
  fixes f :: "'a \<Rightarrow> int"
  assumes "\<And>x. 0 \<le> f x"
  shows "sum_list (map f (take k xs)) \<le> sum_list (map f xs)"
proof -
  have "sum_list (map f xs) = sum_list (map f (take k xs)) + sum_list (map f (drop k xs))"
    by (metis append_take_drop_id map_append sum_list_append)
  moreover have "0 \<le> sum_list (map f (drop k xs))"
    using assms by (intro sum_list_nonneg) auto
  ultimately show ?thesis by simp
qed

lemma faces_before_le: "faces_before shs k \<le> faces_before shs (length shs)"
  unfolding faces_before_def
  using sum_take_le [of "\<lambda>sh. num_faces (geometry sh)" k shs] by (simp add: num_faces_def)

lemma vertices_before_le: "vertices_before shs k \<le> vertices_before shs (length shs)"
  unfolding vertices_before_def
  using sum_take_le [of "\<lambda>sh. num_vertices (geometry sh)" k shs] by (simp add: num_vertices_def)

lemma faces_before_nonneg: "0 \<le> faces_before shs k"
  unfolding faces_before_def by (intro sum_list_nonneg) (auto simp: num_faces_def)

lemma vertices_before_nonneg: "0 \<le> vertices_before shs k"
  unfolding vertices_before_def by (intro sum_list_nonneg) (auto simp: num_vertices_def)

lemma totals_of_permutation:
  assumes "mset shs = mset (world_shapes w)"
  shows "faces_before shs (length shs) = total_faces w"
    and "vertices_before shs (length shs) = total_vertices w"
proof -
  have "\<And>f :: ('a, 'b) shape \<Rightarrow> int. sum_list (map f shs) = sum_list (map f (world_shapes w))"
  proof -
    fix f :: "('a, 'b) shape \<Rightarrow> int"
    have "mset (map f shs) = mset (map f (world_shapes w))" using assms by (metis mset_map)
    then show "sum_list (map f shs) = sum_list (map f (world_shapes w))"
      by (metis sum_mset_sum_list)
  qed
  then show "faces_before shs (length shs) = total_faces w"
    and "vertices_before shs (length shs) = total_vertices w"
    by (simp_all add: faces_before_def vertices_before_def total_faces_def total_vertices_def)
qed

lemma count_step_counted:
  assumes i: "0 \<le> i" "i < int (length (shapes L0))" and c: "counted L0 i L"
    and fit: "faces_before (shapes L0) (length (shapes L0)) \<le> INT_MAX"
      "vertices_before (shapes L0) (length (shapes L0)) \<le> INT_MAX"
  shows "\<exists>L'. count_step (geometry (shapes L0 ! nat i)) i L = Some L' \<and> counted L0 (i + 1) L'"
proof -
  from c obtain fs vs where L: "L = L0\<lparr>mesh_faces_start_idx := fs, mesh_vertices_start_idx := vs,
                      numfaces := faces_before (shapes L0) (nat i),
                      numvertices := vertices_before (shapes L0) (nat i)\<rparr>"
    and len: "length fs = length (shapes L0)" "length vs = length (shapes L0)"
    and pre: "\<forall>k < nat i. fs ! k = faces_before (shapes L0) k \<and> vs ! k = vertices_before (shapes L0) k"
    unfolding counted_def by blast
  have ni: "nat i < length (shapes L0)" "nat (i + 1) = Suc (nat i)" using i by simp_all
  define fs' where "fs' = fs[nat i := faces_before (shapes L0) (nat i)]"
  define vs' where "vs' = vs[nat i := vertices_before (shapes L0) (nat i)]"
  have okf: "int_ok (faces_before (shapes L0) (nat i) + num_faces (geometry (shapes L0 ! nat i)))"
    using faces_before_le [of "shapes L0" "Suc (nat i)"] faces_before_nonneg [of "shapes L0" "Suc (nat i)"]
      fit(1) ni(1) by (intro int_okI) (simp_all add: faces_before_Suc)
  have okv: "int_ok (vertices_before (shapes L0) (nat i) + num_vertices (geometry (shapes L0 ! nat i)))"
    using vertices_before_le [of "shapes L0" "Suc (nat i)"] vertices_before_nonneg [of "shapes L0" "Suc (nat i)"]
      fit(2) ni(1) by (intro int_okI) (simp_all add: vertices_before_Suc)
  have step: "count_step (geometry (shapes L0 ! nat i)) i L =
      Some (L0\<lparr>mesh_faces_start_idx := fs', mesh_vertices_start_idx := vs',
                numfaces := faces_before (shapes L0) (nat (i + 1)),
                numvertices := vertices_before (shapes L0) (nat (i + 1))\<rparr>)"
    using i len ni by (simp add: count_step_def L vec_set_def fs'_def vs'_def
        int_add_Some [OF okf] int_add_Some [OF okv] faces_before_Suc vertices_before_Suc)
  have "\<forall>k < nat (i + 1). fs' ! k = faces_before (shapes L0) k \<and> vs' ! k = vertices_before (shapes L0) k"
    using pre len ni by (auto simp: fs'_def vs'_def nth_list_update less_Suc_eq)
  then have "counted L0 (i + 1) (L0\<lparr>mesh_faces_start_idx := fs', mesh_vertices_start_idx := vs',
                numfaces := faces_before (shapes L0) (nat (i + 1)),
                numvertices := vertices_before (shapes L0) (nat (i + 1))\<rparr>)"
    unfolding counted_def using len by (intro exI [of _ fs'] exI [of _ vs']) (simp add: fs'_def vs'_def)
  with step show ?thesis by simp
qed

lemma counted_shapes: "counted L0 i L \<Longrightarrow> shapes L = shapes L0 \<and> nummeshes L = nummeshes L0 \<and>
   numinstances L = numinstances L0 \<and> numshapes L = numshapes L0"
  by (auto simp: counted_def)

lemma scene_layout_ok:
  assumes fit: "counts_fit w"
  shows "\<exists>L. scene_layout w = Some L \<and> layout_ok L \<and>
    shapes L = fst (partition_shapes w) \<and> nummeshes L = int (snd (partition_shapes w))"
proof -
  obtain shs k where pk: "partition_shapes w = (shs, k)" by (cases "partition_shapes w")
  define n where "n = length (world_shapes w)"
  have part: "partitioned_between (\<lambda>sh. \<not> is_instance sh) (world_shapes w) 0 n shs k"
    using partition_shapes_correct [of w] pk by (simp add: n_def)
  then have len: "length shs = n" and kn: "k \<le> n"
    and meshes: "\<And>i. i < k \<Longrightarrow> \<not> is_instance (shs ! i)"
    and insts: "\<And>i. k \<le> i \<Longrightarrow> i < n \<Longrightarrow> is_instance (shs ! i)"
    and perm: "mset shs = mset (world_shapes w)"
    by (simp_all add: partitioned_between_def n_def)
  have nmax: "int n \<le> INT_MAX" using fit by (simp add: counts_fit_def n_def)
  have tot: "faces_before shs n \<le> INT_MAX" "vertices_before shs n \<le> INT_MAX"
    using totals_of_permutation [OF perm] fit len by (simp_all add: counts_fit_def)
  define L0 where "L0 = \<lparr>numshapes = int n, shapes = shs, nummeshes = int k,
      numinstances = int n - int k,
      mesh_faces_start_idx = replicate n 0, mesh_vertices_start_idx = replicate n 0,
      numfaces = 0, numvertices = 0\<rparr>"
  have casts: "int_cast (int n) = Some (int n)" "int_cast (int k) = Some (int k)"
    "int_cast (int n - int k) = Some (int n - int k)"
    "int_add (int k) (int n - int k) = Some (int n)"
    using nmax kn by (simp_all add: int_cast_def int_add_def int_ok_def INT_MIN_def)
  have sl: "scene_layout w = do {
        L1 \<leftarrow> for_loop 0 (int k) count_mesh L0;
        for_loop (int k) (int n) count_instance L1 }"
    by (simp add: scene_layout_def pk n_def [symmetric] len casts) (simp add: L0_def)
  have c0: "counted L0 0 L0"
    unfolding counted_def
    by (intro exI [of _ "replicate n 0"]) (simp add: L0_def faces_before_def vertices_before_def len)
  have fit0: "faces_before (shapes L0) (length (shapes L0)) \<le> INT_MAX"
      "vertices_before (shapes L0) (length (shapes L0)) \<le> INT_MAX"
    using tot by (simp_all add: L0_def len)
  have "\<exists>L1. for_loop 0 (int k) count_mesh L0 = Some L1 \<and> counted L0 (int k) L1"
  proof (rule for_loop_rule [where I = "counted L0"])
    show "0 \<le> int k" by simp
  next
    show "counted L0 0 L0" by (rule c0)
  next
    fix i L assume i: "0 \<le> i" "i < int k" and c: "counted L0 i L"
    have sh: "shapes L = shs" using counted_shapes [OF c] by (simp add: L0_def)
    have "mesh_at shs i = Some (geometry (shs ! nat i))"
      using i kn len meshes [of "nat i"] by (intro mesh_at_Some) simp_all
    then have "count_mesh i L = count_step (geometry (shapes L0 ! nat i)) i L"
      by (simp add: count_mesh_def sh L0_def)
    moreover have "\<exists>L'. count_step (geometry (shapes L0 ! nat i)) i L = Some L' \<and> counted L0 (i + 1) L'"
      using i kn len c fit0 by (intro count_step_counted) (simp_all add: L0_def)
    ultimately show "\<exists>L'. count_mesh i L = Some L' \<and> counted L0 (i + 1) L'" by simp
  qed
  then obtain L1 where L1: "for_loop 0 (int k) count_mesh L0 = Some L1" "counted L0 (int k) L1"
    by blast
  have "\<exists>L2. for_loop (int k) (int n) count_instance L1 = Some L2 \<and> counted L0 (int n) L2"
  proof (rule for_loop_rule [where I = "counted L0"])
    show "int k \<le> int n" using kn by simp
  next
    show "counted L0 (int k) L1" by (rule L1(2))
  next
    fix i L assume i: "int k \<le> i" "i < int n" and c: "counted L0 i L"
    have sh: "shapes L = shs" using counted_shapes [OF c] by (simp add: L0_def)
    have "\<exists>inst. instance_at shs i = Some inst \<and> shs ! nat i = InstanceShape inst"
      using i kn len insts [of "nat i"] by (intro instance_at_Some) simp_all
    then obtain inst where inst: "instance_at shs i = Some inst" "shs ! nat i = InstanceShape inst"
      by blast
    then have "count_instance i L = count_step (geometry (shapes L0 ! nat i)) i L"
      by (simp add: count_instance_def sh L0_def)
    moreover have "\<exists>L'. count_step (geometry (shapes L0 ! nat i)) i L = Some L' \<and> counted L0 (i + 1) L'"
      using i kn len c fit0 by (intro count_step_counted) (simp_all add: L0_def)
    ultimately show "\<exists>L'. count_instance i L = Some L' \<and> counted L0 (i + 1) L'" by simp
  qed
  then obtain L2 where L2: "for_loop (int k) (int n) count_instance L1 = Some L2"
      "counted L0 (int n) L2"
    by auto
  have res: "scene_layout w = Some L2" using sl L1 L2 by simp
  from L2(2) obtain fs vs where L2eq: "L2 = L0\<lparr>mesh_faces_start_idx := fs, mesh_vertices_start_idx := vs,
                      numfaces := faces_before shs n, numvertices := vertices_before shs n\<rparr>"
    and lens: "length fs = n" "length vs = n"
    and vals: "\<forall>k' < n. fs ! k' = faces_before shs k' \<and> vs ! k' = vertices_before shs k'"
    unfolding counted_def by (auto simp: L0_def len)
  have inst_iff: "\<forall>i < n. is_instance (shs ! i) \<longleftrightarrow> int k \<le> int i"
    using meshes insts by (metis not_le_imp_less of_nat_le_iff)
  have "layout_ok L2"
    unfolding layout_ok_def using lens vals kn len inst_iff nmax tot
    by (simp add: L2eq L0_def)
  moreover have "shapes L2 = shs" "nummeshes L2 = int k" by (simp_all add: L2eq L0_def)
  ultimately show ?thesis using res pk by simp
qed

subsection \<open>The example scene, evaluated\<close>

lemma ex_counts:
  "num_faces ex_mesh1 = 1" "num_vertices ex_mesh1 = 3" "num_faces ex_mesh2 = 2" "num_vertices ex_mesh2 = 4"
  "base_shape ex_instance = ex_mesh1" "length (world_shapes ex_world) = 3"
  by (simp_all add: num_faces_def num_vertices_def ex_mesh1_def ex_mesh2_def ex_instance_def ex_world_def)

lemma int_ops:
  "INT_MIN \<le> a + b \<Longrightarrow> a + b \<le> INT_MAX \<Longrightarrow> int_add a b = Some (a + b)"
  "INT_MIN \<le> a - b \<Longrightarrow> a - b \<le> INT_MAX \<Longrightarrow> int_sub a b = Some (a - b)"
  "INT_MIN \<le> a \<Longrightarrow> a \<le> INT_MAX \<Longrightarrow> int_cast a = Some a"
  by (simp_all add: int_add_def int_sub_def int_cast_def int_ok_def)

lemma ex_layout:
  "scene_layout ex_world =
     Some \<lparr>numshapes = 3, shapes = [MeshShape ex_mesh2, MeshShape ex_mesh1, InstanceShape ex_instance],
           nummeshes = 2, numinstances = 1, mesh_faces_start_idx = [0, 2, 3],
           mesh_vertices_start_idx = [0, 4, 7], numfaces = 4, numvertices = 10\<rparr>"
  by (simp add: scene_layout_def ex_partition ex_counts for_loop.simps count_mesh_def count_instance_def
      count_step_def mesh_at_def instance_at_def vec_at_def vec_set_def numeral_3_eq_3
      int_ops INT_MAX_def INT_MIN_def)

lemma ex_scene_layout: "scene_layout ex_world = Some ex_L"
  by (simp add: ex_layout ex_L_def)

lemma ex_data:
  "face_data ex_mesh1 = [\<lparr>idx0 = 0, idx1 = 1, idx2 = 2\<rparr>]"
  "face_data ex_mesh2 = [\<lparr>idx0 = 0, idx1 = 1, idx2 = 2\<rparr>, \<lparr>idx0 = 1, idx1 = 2, idx2 = 3\<rparr>]"
  "vertex_data ex_mesh1 = [1, 2, 3]" "vertex_data ex_mesh2 = [4, 5, 6, 7]"
  "mesh_transform ex_mesh1 = (1000, -1000)" "mesh_transform ex_mesh2 = (2000, -2000)"
  "inst_transform ex_instance = (5000, -5000)"
  "mesh_id ex_mesh1 = 11" "mesh_id ex_mesh2 = 12" "inst_id ex_instance = 21"
  "mesh_mask ex_mesh1 = 1" "mesh_mask ex_mesh2 = 1" "inst_mask ex_instance = 1"
  by (simp_all add: ex_mesh1_def ex_mesh2_def ex_instance_def)

lemma ex_build_bounds:
  "build_bounds ex_env ex_L =
     Some ([2200, 2201, 1200, 500000],
           [\<lparr>shape_id = 12, shape_mask = 1\<rparr>, \<lparr>shape_id = 11, shape_mask = 1\<rparr>,
            \<lparr>shape_id = 21, shape_mask = 1\<rparr>])"
  by (simp add: build_bounds_def ex_L_def ex_env_def ex_counts ex_data for_loop.simps mesh_bounds_def
      instance_bounds_def mesh_bounds_step_def instance_bounds_step_def set_shapedata_def
      mesh_at_def instance_at_def vec_at_def vec_set_def numeral_3_eq_3 numeral_2_eq_2 eval_nat_numeral
      int_add_def int_ok_def INT_MAX_def INT_MIN_def)

lemma ex_fill_vertices:
  "fill_vertices ex_env ex_L =
     Some [Some 2004, Some 2005, Some 2006, Some 2007, Some 1001, Some 1002, Some 1003,
           Some 5001, Some 5002, Some 5003]"
  by (simp add: fill_vertices_def ex_L_def ex_env_def ex_counts ex_data for_loop.simps mesh_vertices_def
      instance_vertices_def vertices_step_def omp_parallel_for_def transform_vertices_def
      mesh_vertices_left_def instance_vertices_left_def vertices_left_def
      mesh_at_def instance_at_def vec_at_def vec_set_def eval_nat_numeral
      int_add_def int_ok_def INT_MAX_def INT_MIN_def)

lemma ex_fill_vertices_omp:
  "fill_vertices ex_env_omp ex_L =
     Some [Some 1004, Some 1005, Some 1006, Some 1007, Some 1001, Some 1002, Some 1003,
           Some 5001, Some 5002, Some 5003]"
  by (simp add: fill_vertices_def ex_L_def ex_env_omp_def ex_env_def ex_counts ex_data for_loop.simps mesh_vertices_def
      instance_vertices_def vertices_step_def omp_parallel_for_def transform_vertices_def
      mesh_vertices_left_def instance_vertices_left_def vertices_left_def
      mesh_at_def instance_at_def vec_at_def vec_set_def eval_nat_numeral
      int_add_def int_ok_def INT_MAX_def INT_MIN_def)

lemma ex_upper_bound:
  "upper_bound [0, 2, 3] 0 = 1" "upper_bound [0, 2, 3] 1 = 1"
  "upper_bound [0, 2, 3] 2 = 2" "upper_bound [0, 2, 3] 3 = 3"
  by (simp_all add: upper_bound_def upper_bound_loop.simps)

lemma ex_face_step:
  "face_step ex_L [3, 2, 1, 0] 0 fd =
     vec_set fd 0 (Some \<lparr>idx = (7, 8, 9), shapeidx = 2, face_id = 0, cnt = 0\<rparr>)"
  "face_step ex_L [3, 2, 1, 0] 1 fd =
     vec_set fd 1 (Some \<lparr>idx = (4, 5, 6), shapeidx = 1, face_id = 0, cnt = 0\<rparr>)"
  "face_step ex_L [3, 2, 1, 0] 2 fd =
     vec_set fd 2 (Some \<lparr>idx = (1, 2, 3), shapeidx = 0, face_id = 1, cnt = 0\<rparr>)"
  "face_step ex_L [3, 2, 1, 0] 3 fd =
     vec_set fd 3 (Some \<lparr>idx = (0, 1, 2), shapeidx = 0, face_id = 0, cnt = 0\<rparr>)"
  by (simp_all add: ex_L_def ex_counts ex_data face_step_def ex_upper_bound
      mesh_at_def instance_at_def vec_at_def
      int_add_def int_sub_def int_cast_def int_ok_def INT_MAX_def INT_MIN_def)

lemma ex_fill_faces:
  "fill_faces ex_L [3, 2, 1, 0] =
     Some [Some \<lparr>idx = (7, 8, 9), shapeidx = 2, face_id = 0, cnt = 0\<rparr>,
           Some \<lparr>idx = (4, 5, 6), shapeidx = 1, face_id = 0, cnt = 0\<rparr>,
           Some \<lparr>idx = (1, 2, 3), shapeidx = 0, face_id = 1, cnt = 0\<rparr>,
           Some \<lparr>idx = (0, 1, 2), shapeidx = 0, face_id = 0, cnt = 0\<rparr>]"
proof -
  have n: "numfaces ex_L = 4" by (simp add: ex_L_def)
  show ?thesis
    by (simp add: fill_faces_def n for_loop.simps ex_face_step vec_set_def eval_nat_numeral)
qed

subsection \<open>Filling ranges of a vector\<close>

lemma start_mono:
  fixes start sz :: "int \<Rightarrow> int"
  assumes sz: "\<And>i. lo \<le> i \<Longrightarrow> i < hi \<Longrightarrow> 0 \<le> sz i \<and> start (i + 1) = start i + sz i"
    and a: "lo \<le> a" and ab: "a \<le> b"
  shows "b \<le> hi \<Longrightarrow> start a \<le> start b"
  using ab
proof (induction b rule: int_ge_induct)
  case base
  show ?case by simp
next
  case (step i)
  then have "start a \<le> start i" by simp
  moreover have "0 \<le> sz i \<and> start (i + 1) = start i + sz i"
    using sz [of i] a step by simp
  ultimately show ?case by simp
qed

lemma fill_ranges:
  fixes proj :: "'s \<Rightarrow> 'a list" and start sz :: "int \<Rightarrow> int"
  assumes lohi: "lo \<le> hi"
    and sz: "\<And>i. lo \<le> i \<Longrightarrow> i < hi \<Longrightarrow> 0 \<le> sz i \<and> start (i + 1) = start i + sz i"
    and s0: "0 \<le> start lo" and fits: "start hi \<le> int (length (proj t0))"
    and Q0: "Q lo t0"
    and body: "\<And>i t. lo \<le> i \<Longrightarrow> i < hi \<Longrightarrow> Q i t \<Longrightarrow> length (proj t) = length (proj t0) \<Longrightarrow>
        0 \<le> start i \<Longrightarrow> start i + sz i \<le> int (length (proj t0)) \<Longrightarrow>
        \<exists>t'. body i t = Some t' \<and> Q (i + 1) t' \<and> length (proj t') = length (proj t) \<and>
          (\<forall>j. 0 \<le> j \<and> j < sz i \<longrightarrow> proj t' ! nat (start i + j) = G i j) \<and>
          (\<forall>p. p < nat (start i) \<or> nat (start i + sz i) \<le> p \<longrightarrow> proj t' ! p = proj t ! p)"
  shows "\<exists>t. for_loop lo hi body t0 = Some t \<and> Q hi t \<and> length (proj t) = length (proj t0) \<and>
          (\<forall>i j. lo \<le> i \<and> i < hi \<and> 0 \<le> j \<and> j < sz i \<longrightarrow> proj t ! nat (start i + j) = G i j) \<and>
          (\<forall>p. p < nat (start lo) \<or> nat (start hi) \<le> p \<longrightarrow> proj t ! p = proj t0 ! p)"
proof -
  define I where "I = (\<lambda>i t. Q i t \<and> length (proj t) = length (proj t0) \<and>
          (\<forall>k j. lo \<le> k \<and> k < i \<and> 0 \<le> j \<and> j < sz k \<longrightarrow> proj t ! nat (start k + j) = G k j) \<and>
          (\<forall>p. p < nat (start lo) \<or> nat (start i) \<le> p \<longrightarrow> proj t ! p = proj t0 ! p))"
  have "\<exists>t. for_loop lo hi body t0 = Some t \<and> I hi t"
  proof (rule for_loop_rule [where I = I])
    show "lo \<le> hi" by (rule lohi)
  next
    show "I lo t0" using Q0 by (auto simp: I_def)
  next
    fix i t assume i: "lo \<le> i" "i < hi" and inv: "I i t"
    have szi: "0 \<le> sz i" "start (i + 1) = start i + sz i" using sz [OF i] by simp_all
    have m1: "start lo \<le> start i" using start_mono [of lo hi sz start lo i] sz i by simp
    have m2: "start (i + 1) \<le> start hi" using start_mono [of lo hi sz start "i + 1" hi] sz i by simp
    have pos: "0 \<le> start i" using s0 m1 by simp
    have fit: "start i + sz i \<le> int (length (proj t0))" using m2 szi fits by simp
    from inv have Qt: "Q i t" and len: "length (proj t) = length (proj t0)"
      and prev: "\<And>k j. lo \<le> k \<Longrightarrow> k < i \<Longrightarrow> 0 \<le> j \<Longrightarrow> j < sz k \<Longrightarrow> proj t ! nat (start k + j) = G k j"
      and out: "\<And>p. p < nat (start lo) \<or> nat (start i) \<le> p \<Longrightarrow> proj t ! p = proj t0 ! p"
      by (auto simp: I_def)
    from body [OF i Qt len pos fit] obtain t' where t': "body i t = Some t'" "Q (i + 1) t'"
      "length (proj t') = length (proj t)"
      and new: "\<And>j. 0 \<le> j \<Longrightarrow> j < sz i \<Longrightarrow> proj t' ! nat (start i + j) = G i j"
      and same: "\<And>p. p < nat (start i) \<or> nat (start i + sz i) \<le> p \<Longrightarrow> proj t' ! p = proj t ! p"
      by blast
    have "I (i + 1) t'"
      unfolding I_def
    proof (intro conjI allI impI)
      show "Q (i + 1) t'" by (rule t'(2))
      show "length (proj t') = length (proj t0)" using t'(3) len by simp
    next
      fix k j assume kj: "lo \<le> k \<and> k < i + 1 \<and> 0 \<le> j \<and> j < sz k"
      show "proj t' ! nat (start k + j) = G k j"
      proof (cases "k = i")
        case True
        with kj new show ?thesis by simp
      next
        case False
        with kj have k: "lo \<le> k" "k < i" "0 \<le> j" "j < sz k" by simp_all
        have "start (k + 1) \<le> start i"
          using start_mono [of lo hi sz start "k + 1" i] sz k i by simp
        moreover have "start (k + 1) = start k + sz k" using sz [of k] k i by simp
        moreover have "0 \<le> start k" using start_mono [of lo hi sz start lo k] sz k i s0 by simp
        ultimately have "nat (start k + j) < nat (start i)" using k by simp
        then have "proj t' ! nat (start k + j) = proj t ! nat (start k + j)" using same by simp
        with prev [OF k] show ?thesis by simp
      qed
    next
      fix p assume p: "p < nat (start lo) \<or> nat (start (i + 1)) \<le> p"
      then have "p < nat (start i) \<or> nat (start i + sz i) \<le> p" using m1 szi by auto
      then have "proj t' ! p = proj t ! p" using same by simp
      moreover have "p < nat (start lo) \<or> nat (start i) \<le> p" using p szi by auto
      ultimately show "proj t' ! p = proj t0 ! p" using out by simp
    qed
    with t'(1) show "\<exists>s'. body i t = Some s' \<and> I (i + 1) s'" by simp
  qed
  then show ?thesis by (auto simp: I_def)
qed

lemma fill_two_ranges:
  fixes proj :: "'s \<Rightarrow> 'a list" and start sz :: "int \<Rightarrow> int"
  assumes lomid: "lo \<le> mid" and midhi: "mid \<le> hi"
    and sz: "\<And>i. lo \<le> i \<Longrightarrow> i < hi \<Longrightarrow> 0 \<le> sz i \<and> start (i + 1) = start i + sz i"
    and s0: "0 \<le> start lo" and fits: "start hi \<le> int (length (proj t0))"
    and Q0: "Q lo t0"
    and body1: "\<And>i t. lo \<le> i \<Longrightarrow> i < mid \<Longrightarrow> Q i t \<Longrightarrow> length (proj t) = length (proj t0) \<Longrightarrow>
        0 \<le> start i \<Longrightarrow> start i + sz i \<le> int (length (proj t0)) \<Longrightarrow>
        \<exists>t'. body1 i t = Some t' \<and> Q (i + 1) t' \<and> length (proj t') = length (proj t) \<and>
          (\<forall>j. 0 \<le> j \<and> j < sz i \<longrightarrow> proj t' ! nat (start i + j) = G i j) \<and>
          (\<forall>p. p < nat (start i) \<or> nat (start i + sz i) \<le> p \<longrightarrow> proj t' ! p = proj t ! p)"
    and body2: "\<And>i t. mid \<le> i \<Longrightarrow> i < hi \<Longrightarrow> Q i t \<Longrightarrow> length (proj t) = length (proj t0) \<Longrightarrow>
        0 \<le> start i \<Longrightarrow> start i + sz i \<le> int (length (proj t0)) \<Longrightarrow>
        \<exists>t'. body2 i t = Some t' \<and> Q (i + 1) t' \<and> length (proj t') = length (proj t) \<and>
          (\<forall>j. 0 \<le> j \<and> j < sz i \<longrightarrow> proj t' ! nat (start i + j) = G i j) \<and>
          (\<forall>p. p < nat (start i) \<or> nat (start i + sz i) \<le> p \<longrightarrow> proj t' ! p = proj t ! p)"
  shows "\<exists>t1 t. for_loop lo mid body1 t0 = Some t1 \<and> for_loop mid hi body2 t1 = Some t \<and> Q hi t \<and>
          length (proj t) = length (proj t0) \<and>
          (\<forall>i j. lo \<le> i \<and> i < hi \<and> 0 \<le> j \<and> j < sz i \<longrightarrow> proj t ! nat (start i + j) = G i j)"
proof -
  have sz1: "\<And>i. lo \<le> i \<Longrightarrow> i < mid \<Longrightarrow> 0 \<le> sz i \<and> start (i + 1) = start i + sz i"
    using sz midhi by simp
  have sz2: "\<And>i. mid \<le> i \<Longrightarrow> i < hi \<Longrightarrow> 0 \<le> sz i \<and> start (i + 1) = start i + sz i"
    using sz lomid by simp
  have mono1: "start lo \<le> start mid" using start_mono [of lo hi sz start lo mid] sz lomid midhi by simp
  have mono2: "start mid \<le> start hi" using start_mono [of lo hi sz start mid hi] sz lomid midhi by simp
  have "\<exists>t. for_loop lo mid body1 t0 = Some t \<and> Q mid t \<and> length (proj t) = length (proj t0) \<and>
          (\<forall>i j. lo \<le> i \<and> i < mid \<and> 0 \<le> j \<and> j < sz i \<longrightarrow> proj t ! nat (start i + j) = G i j) \<and>
          (\<forall>p. p < nat (start lo) \<or> nat (start mid) \<le> p \<longrightarrow> proj t ! p = proj t0 ! p)"
  proof (rule fill_ranges [where lo = lo and hi = mid and start = start and sz = sz and Q = Q
        and proj = proj and ?t0.0 = t0 and body = body1 and G = G])
    show "lo \<le> mid" by (rule lomid)
    show "0 \<le> start lo" by (rule s0)
    show "start mid \<le> int (length (proj t0))" using mono2 fits by simp
    show "Q lo t0" by (rule Q0)
  next
    fix i assume "lo \<le> i" "i < mid"
    then show "0 \<le> sz i \<and> start (i + 1) = start i + sz i" by (rule sz1)
  next
    fix i t assume "lo \<le> i" "i < mid" "Q i t" "length (proj t) = length (proj t0)"
      "0 \<le> start i" "start i + sz i \<le> int (length (proj t0))"
    then show "\<exists>t'. body1 i t = Some t' \<and> Q (i + 1) t' \<and> length (proj t') = length (proj t) \<and>
          (\<forall>j. 0 \<le> j \<and> j < sz i \<longrightarrow> proj t' ! nat (start i + j) = G i j) \<and>
          (\<forall>p. p < nat (start i) \<or> nat (start i + sz i) \<le> p \<longrightarrow> proj t' ! p = proj t ! p)"
      by (rule body1)
  qed
  then obtain t1 where t1: "for_loop lo mid body1 t0 = Some t1" "Q mid t1" "length (proj t1) = length (proj t0)"
    and first: "\<And>i j. lo \<le> i \<Longrightarrow> i < mid \<Longrightarrow> 0 \<le> j \<Longrightarrow> j < sz i \<Longrightarrow> proj t1 ! nat (start i + j) = G i j"
    by blast
  have "\<exists>t. for_loop mid hi body2 t1 = Some t \<and> Q hi t \<and> length (proj t) = length (proj t1) \<and>
          (\<forall>i j. mid \<le> i \<and> i < hi \<and> 0 \<le> j \<and> j < sz i \<longrightarrow> proj t ! nat (start i + j) = G i j) \<and>
          (\<forall>p. p < nat (start mid) \<or> nat (start hi) \<le> p \<longrightarrow> proj t ! p = proj t1 ! p)"
  proof (rule fill_ranges [where lo = mid and hi = hi and start = start and sz = sz and Q = Q
        and proj = proj and ?t0.0 = t1 and body = body2 and G = G])
    show "mid \<le> hi" by (rule midhi)
    show "0 \<le> start mid" using s0 mono1 by simp
    show "start hi \<le> int (length (proj t1))" using fits t1(3) by simp
    show "Q mid t1" by (rule t1(2))
  next
    fix i assume "mid \<le> i" "i < hi"
    then show "0 \<le> sz i \<and> start (i + 1) = start i + sz i" by (rule sz2)
  next
    fix i t assume "mid \<le> i" "i < hi" "Q i t" "length (proj t) = length (proj t1)"
      "0 \<le> start i" "start i + sz i \<le> int (length (proj t1))"
    then show "\<exists>t'. body2 i t = Some t' \<and> Q (i + 1) t' \<and> length (proj t') = length (proj t) \<and>
          (\<forall>j. 0 \<le> j \<and> j < sz i \<longrightarrow> proj t' ! nat (start i + j) = G i j) \<and>
          (\<forall>p. p < nat (start i) \<or> nat (start i + sz i) \<le> p \<longrightarrow> proj t' ! p = proj t ! p)"
      using body2 [of i t] t1(3) by simp
  qed
  then obtain t where t: "for_loop mid hi body2 t1 = Some t" "Q hi t" "length (proj t) = length (proj t1)"
    and second: "\<And>i j. mid \<le> i \<Longrightarrow> i < hi \<Longrightarrow> 0 \<le> j \<Longrightarrow> j < sz i \<Longrightarrow> proj t ! nat (start i + j) = G i j"
    and kept: "\<And>p. p < nat (start mid) \<Longrightarrow> proj t ! p = proj t1 ! p"
    by blast
  have "\<forall>i j. lo \<le> i \<and> i < hi \<and> 0 \<le> j \<and> j < sz i \<longrightarrow> proj t ! nat (start i + j) = G i j"
  proof (intro allI impI)
    fix i j assume ij: "lo \<le> i \<and> i < hi \<and> 0 \<le> j \<and> j < sz i"
    show "proj t ! nat (start i + j) = G i j"
    proof (cases "i < mid")
      case True
      have "start (i + 1) \<le> start mid"
        using start_mono [of lo hi sz start "i + 1" mid] sz ij True midhi by simp
      moreover have "start (i + 1) = start i + sz i" using sz [of i] ij by simp
      moreover have "0 \<le> start i" using start_mono [of lo hi sz start lo i] sz ij s0 by simp
      ultimately have "nat (start i + j) < nat (start mid)" using ij by simp
      then show ?thesis using kept first [of i j] ij True by simp
    next
      case False
      then show ?thesis using second [of i j] ij by simp
    qed
  qed
  with t1 t show ?thesis by simp
qed

subsection \<open>The face bounds\<close>

lemma set_shapedata_Some:
  "0 \<le> i \<Longrightarrow> i < int (length sd) \<Longrightarrow>
   \<exists>sd'. set_shapedata i a b sd = Some sd' \<and> length sd' = length sd"
  by (simp add: set_shapedata_def vec_at_def vec_set_def)

lemma num_faces_nonneg: "0 \<le> num_faces mesh"
  by (simp add: num_faces_def)

lemma num_vertices_nonneg: "0 \<le> num_vertices mesh"
  by (simp add: num_vertices_def)

lemma layout_faces_step:
  assumes "layout_ok L" "0 \<le> i" "i < int (length (shapes L))"
  shows "0 \<le> num_faces (geometry (shapes L ! nat i)) \<and>
         faces_before (shapes L) (nat (i + 1)) =
           faces_before (shapes L) (nat i) + num_faces (geometry (shapes L ! nat i))"
proof -
  have "nat (i + 1) = Suc (nat i)" "nat i < length (shapes L)" using assms by simp_all
  then show ?thesis by (simp add: faces_before_Suc num_faces_nonneg)
qed

lemma layout_vertices_step:
  assumes "layout_ok L" "0 \<le> i" "i < int (length (shapes L))"
  shows "0 \<le> num_vertices (geometry (shapes L ! nat i)) \<and>
         vertices_before (shapes L) (nat (i + 1)) =
           vertices_before (shapes L) (nat i) + num_vertices (geometry (shapes L ! nat i))"
proof -
  have "nat (i + 1) = Suc (nat i)" "nat i < length (shapes L)" using assms by simp_all
  then show ?thesis by (simp add: vertices_before_Suc num_vertices_nonneg)
qed

lemma layout_starts:
  assumes "layout_ok L" "0 \<le> i" "i < int (length (shapes L))"
  shows "vec_at (mesh_faces_start_idx L) i = Some (faces_before (shapes L) (nat i))"
    and "vec_at (mesh_vertices_start_idx L) i = Some (vertices_before (shapes L) (nat i))"
  using assms by (simp_all add: layout_ok_def vec_at_def)

lemma layout_counts:
  assumes "layout_ok L"
  shows "0 \<le> nummeshes L" "0 \<le> numinstances L" "nummeshes L \<le> int (length (shapes L))"
    "nummeshes L + numinstances L = int (length (shapes L))" "numshapes L = int (length (shapes L))"
  using assms by (auto simp: layout_ok_def)

lemma layout_fits:
  assumes "layout_ok L"
  shows "int (length (shapes L)) \<le> INT_MAX" "numfaces L \<le> INT_MAX" "numvertices L \<le> INT_MAX"
    "int_add (nummeshes L) (numinstances L) = Some (int (length (shapes L)))"
    "numfaces L = faces_before (shapes L) (length (shapes L))"
    "numvertices L = vertices_before (shapes L) (length (shapes L))"
proof -
  show a: "int (length (shapes L)) \<le> INT_MAX" and "numfaces L \<le> INT_MAX" and "numvertices L \<le> INT_MAX"
    and "numfaces L = faces_before (shapes L) (length (shapes L))"
    and "numvertices L = vertices_before (shapes L) (length (shapes L))"
    using assms by (auto simp: layout_ok_def)
  have "int_ok (nummeshes L + numinstances L)"
    using a layout_counts(4) [OF assms] by (intro int_okI) simp_all
  then show "int_add (nummeshes L) (numinstances L) = Some (int (length (shapes L)))"
    using layout_counts(4) [OF assms] by (simp add: int_add_def)
qed

lemma index_add:
  assumes "0 \<le> start" "0 \<le> j" "j < n" "start + n \<le> int len" "int len \<le> INT_MAX"
  shows "int_add start j = Some (start + j)"
  using assms by (intro int_add_Some int_okI) simp_all

lemma layout_mesh:
  assumes "layout_ok L" "0 \<le> i" "i < nummeshes L"
  shows "mesh_at (shapes L) i = Some (geometry (shapes L ! nat i))"
    and "shapes L ! nat i = MeshShape (geometry (shapes L ! nat i))"
proof -
  have r: "i < int (length (shapes L))" "nat i < length (shapes L)"
    using assms layout_counts [of L] by simp_all
  have ni: "\<not> is_instance (shapes L ! nat i)" using assms r by (simp add: layout_ok_def)
  show "mesh_at (shapes L) i = Some (geometry (shapes L ! nat i))"
    using assms(2) r(1) ni by (rule mesh_at_Some)
  show "shapes L ! nat i = MeshShape (geometry (shapes L ! nat i))"
    using ni by (cases "shapes L ! nat i") simp_all
qed

lemma layout_instance:
  assumes "layout_ok L" "nummeshes L \<le> i" "i < nummeshes L + numinstances L"
  shows "\<exists>inst. instance_at (shapes L) i = Some inst \<and> shapes L ! nat i = InstanceShape inst"
proof -
  have r: "0 \<le> i" "i < int (length (shapes L))" "nat i < length (shapes L)"
    using assms layout_counts [of L] by simp_all
  have "is_instance (shapes L ! nat i)" using assms r by (simp add: layout_ok_def)
  with r show ?thesis by (intro instance_at_Some) simp_all
qed

lemma mesh_bounds_ok:
  assumes ok: "layout_ok L" and i: "0 \<le> i" "i < nummeshes L"
    and sd: "length (snd t) = length (shapes L)"
    and pos: "0 \<le> faces_before (shapes L) (nat i)"
    and fit: "faces_before (shapes L) (nat i) + num_faces (geometry (shapes L ! nat i)) \<le> int (length (fst t))"
    and small: "int (length (fst t)) \<le> INT_MAX"
  shows "\<exists>t'. mesh_bounds env L i t = Some t' \<and> length (snd t') = length (shapes L) \<and>
      length (fst t') = length (fst t) \<and>
      (\<forall>j. 0 \<le> j \<and> j < num_faces (geometry (shapes L ! nat i)) \<longrightarrow>
           fst t' ! nat (faces_before (shapes L) (nat i) + j) = world_bound env (shapes L ! nat i) j) \<and>
      (\<forall>p. p < nat (faces_before (shapes L) (nat i)) \<or>
            nat (faces_before (shapes L) (nat i) + num_faces (geometry (shapes L ! nat i))) \<le> p \<longrightarrow>
           fst t' ! p = fst t ! p)"
proof -
  define mesh where "mesh = geometry (shapes L ! nat i)"
  have r: "i < int (length (shapes L))" using layout_counts [OF ok] i by simp
  have m: "mesh_at (shapes L) i = Some mesh" "shapes L ! nat i = MeshShape mesh"
    using layout_mesh [OF ok i] by (simp_all add: mesh_def)
  have st: "vec_at (mesh_faces_start_idx L) i = Some (faces_before (shapes L) (nat i))"
    using layout_starts(1) [OF ok i(1) r] .
  have "\<exists>ys. for_loop 0 (num_faces mesh) (mesh_bounds_step env L i mesh) (fst t) = Some ys \<and>
      length ys = length (fst t) \<and>
      (\<forall>j. 0 \<le> j \<and> j < num_faces mesh \<longrightarrow>
         ys ! nat (faces_before (shapes L) (nat i) + j) = GetFaceBounds env mesh j False) \<and>
      (\<forall>p. p < nat (faces_before (shapes L) (nat i)) \<or>
            nat (faces_before (shapes L) (nat i) + num_faces mesh) \<le> p \<longrightarrow> ys ! p = fst t ! p)"
    using pos fit small
    by (intro fill_loop) (simp_all add: mesh_bounds_step_def st mesh_def index_add [where len = "length (fst t)"])
  then obtain ys where ys: "for_loop 0 (num_faces mesh) (mesh_bounds_step env L i mesh) (fst t) = Some ys"
    "length ys = length (fst t)"
    "\<forall>j. 0 \<le> j \<and> j < num_faces mesh \<longrightarrow>
         ys ! nat (faces_before (shapes L) (nat i) + j) = GetFaceBounds env mesh j False"
    "\<forall>p. p < nat (faces_before (shapes L) (nat i)) \<or>
            nat (faces_before (shapes L) (nat i) + num_faces mesh) \<le> p \<longrightarrow> ys ! p = fst t ! p"
    by blast
  obtain sd' where sd': "set_shapedata i (mesh_id mesh) (mesh_mask mesh) (snd t) = Some sd'"
    "length sd' = length (snd t)"
    using set_shapedata_Some [of i "snd t"] i r sd by auto
  have "mesh_bounds env L i t = Some (ys, sd')"
    by (simp add: mesh_bounds_def m ys(1) sd'(1))
  then show ?thesis
    using ys sd' sd by (simp add: m(2) mesh_def [symmetric])
qed

lemma instance_bounds_ok:
  assumes ok: "layout_ok L" and i: "nummeshes L \<le> i" "i < nummeshes L + numinstances L"
    and sd: "length (snd t) = length (shapes L)"
    and pos: "0 \<le> faces_before (shapes L) (nat i)"
    and fit: "faces_before (shapes L) (nat i) + num_faces (geometry (shapes L ! nat i)) \<le> int (length (fst t))"
    and small: "int (length (fst t)) \<le> INT_MAX"
  shows "\<exists>t'. instance_bounds env L i t = Some t' \<and> length (snd t') = length (shapes L) \<and>
      length (fst t') = length (fst t) \<and>
      (\<forall>j. 0 \<le> j \<and> j < num_faces (geometry (shapes L ! nat i)) \<longrightarrow>
           fst t' ! nat (faces_before (shapes L) (nat i) + j) = world_bound env (shapes L ! nat i) j) \<and>
      (\<forall>p. p < nat (faces_before (shapes L) (nat i)) \<or>
            nat (faces_before (shapes L) (nat i) + num_faces (geometry (shapes L ! nat i))) \<le> p \<longrightarrow>
           fst t' ! p = fst t ! p)"
proof -
  have r: "0 \<le> i" "i < int (length (shapes L))" using layout_counts [OF ok] i by simp_all
  obtain inst where inst: "instance_at (shapes L) i = Some inst" "shapes L ! nat i = InstanceShape inst"
    using layout_instance [OF ok i] by blast
  define mesh where "mesh = base_shape inst"
  obtain m minv where tr: "inst_transform inst = (m, minv)" by (cases "inst_transform inst")
  have geo: "geometry (shapes L ! nat i) = mesh" by (simp add: inst(2) mesh_def)
  have st: "vec_at (mesh_faces_start_idx L) i = Some (faces_before (shapes L) (nat i))"
    using layout_starts(1) [OF ok r] .
  have "\<exists>ys. for_loop 0 (num_faces mesh) (instance_bounds_step env L i mesh m) (fst t) = Some ys \<and>
      length ys = length (fst t) \<and>
      (\<forall>j. 0 \<le> j \<and> j < num_faces mesh \<longrightarrow>
         ys ! nat (faces_before (shapes L) (nat i) + j) = transform_bbox env (GetFaceBounds env mesh j True) m) \<and>
      (\<forall>p. p < nat (faces_before (shapes L) (nat i)) \<or>
            nat (faces_before (shapes L) (nat i) + num_faces mesh) \<le> p \<longrightarrow> ys ! p = fst t ! p)"
    using pos fit small
    by (intro fill_loop) (simp_all add: instance_bounds_step_def st geo index_add [where len = "length (fst t)"])
  then obtain ys where ys: "for_loop 0 (num_faces mesh) (instance_bounds_step env L i mesh m) (fst t) = Some ys"
    "length ys = length (fst t)"
    "\<forall>j. 0 \<le> j \<and> j < num_faces mesh \<longrightarrow>
         ys ! nat (faces_before (shapes L) (nat i) + j) = transform_bbox env (GetFaceBounds env mesh j True) m"
    "\<forall>p. p < nat (faces_before (shapes L) (nat i)) \<or>
            nat (faces_before (shapes L) (nat i) + num_faces mesh) \<le> p \<longrightarrow> ys ! p = fst t ! p"
    by blast
  obtain sd' where sd': "set_shapedata i (inst_id inst) (inst_mask inst) (snd t) = Some sd'"
    "length sd' = length (snd t)"
    using set_shapedata_Some [of i "snd t"] r sd by auto
  have "instance_bounds env L i t = Some (ys, sd')"
    by (simp add: instance_bounds_def inst(1) tr mesh_def [symmetric] ys(1) sd'(1))
  then show ?thesis
    using ys sd' sd by (simp add: inst(2) geo tr mesh_def [symmetric])
qed

lemma build_bounds_ok:
  fixes env :: "('v, 'm, 'b, 'h, 'n) externals"
  assumes ok: "layout_ok L"
  shows "\<exists>bounds shapedata. build_bounds env L = Some (bounds, shapedata) \<and>
      length bounds = nat (numfaces L) \<and> length shapedata = length (shapes L) \<and>
      (\<forall>i j. 0 \<le> i \<and> i < int (length (shapes L)) \<and> 0 \<le> j \<and> j < num_faces (geometry (shapes L ! nat i)) \<longrightarrow>
         bounds ! nat (faces_before (shapes L) (nat i) + j) = world_bound env (shapes L ! nat i) j)"
proof -
  define n where "n = int (length (shapes L))"
  define t0 where "t0 = (replicate (nat (numfaces L)) (bbox_default env),
      replicate (nat (numshapes L)) \<lparr>shape_id = 0, shape_mask = 0\<rparr>)"
  have facts: "0 \<le> nummeshes L" "nummeshes L \<le> n" "nummeshes L + numinstances L = n"
    "numshapes L = n" "numfaces L = faces_before (shapes L) (nat n)"
    using ok layout_counts [OF ok] by (simp_all add: layout_ok_def n_def)
  have small0: "int (length (fst t0)) \<le> INT_MAX"
    using layout_fits(2) [OF ok] by (simp add: t0_def INT_MAX_def)
  have "\<exists>t1 t. for_loop 0 (nummeshes L) (mesh_bounds env L) t0 = Some t1 \<and>
      for_loop (nummeshes L) n (instance_bounds env L) t1 = Some t \<and>
      length (snd t) = length (shapes L) \<and> length (fst t) = length (fst t0) \<and>
      (\<forall>i j. 0 \<le> i \<and> i < n \<and> 0 \<le> j \<and> j < num_faces (geometry (shapes L ! nat i)) \<longrightarrow>
         fst t ! nat (faces_before (shapes L) (nat i) + j) = world_bound env (shapes L ! nat i) j)"
  proof (rule fill_two_ranges [where Q = "\<lambda>i t. length (snd t) = length (shapes L)" and proj = fst
        and start = "\<lambda>i. faces_before (shapes L) (nat i)"
        and sz = "\<lambda>i. num_faces (geometry (shapes L ! nat i))"
        and G = "\<lambda>i j. world_bound env (shapes L ! nat i) j"])
    show "0 \<le> nummeshes L" "nummeshes L \<le> n" using facts by simp_all
    show "0 \<le> faces_before (shapes L) (nat 0)" by (simp add: faces_before_def)
    show "faces_before (shapes L) (nat n) \<le> int (length (fst t0))"
      using facts by (simp add: t0_def)
    show "length (snd t0) = length (shapes L)" using facts by (simp add: t0_def n_def)
  next
    fix i assume "0 \<le> i" "i < n"
    then show "0 \<le> num_faces (geometry (shapes L ! nat i)) \<and>
         faces_before (shapes L) (nat (i + 1)) =
           faces_before (shapes L) (nat i) + num_faces (geometry (shapes L ! nat i))"
      using layout_faces_step [OF ok] by (simp add: n_def)
  next
    fix i and t :: "'b list \<times> shape_data list"
    assume "0 \<le> i" "i < nummeshes L" "length (snd t) = length (shapes L)"
      "length (fst t) = length (fst t0)" "0 \<le> faces_before (shapes L) (nat i)"
      "faces_before (shapes L) (nat i) + num_faces (geometry (shapes L ! nat i)) \<le> int (length (fst t0))"
    then show "\<exists>t'. mesh_bounds env L i t = Some t' \<and> length (snd t') = length (shapes L) \<and>
      length (fst t') = length (fst t) \<and>
      (\<forall>j. 0 \<le> j \<and> j < num_faces (geometry (shapes L ! nat i)) \<longrightarrow>
           fst t' ! nat (faces_before (shapes L) (nat i) + j) = world_bound env (shapes L ! nat i) j) \<and>
      (\<forall>p. p < nat (faces_before (shapes L) (nat i)) \<or>
            nat (faces_before (shapes L) (nat i) + num_faces (geometry (shapes L ! nat i))) \<le> p \<longrightarrow>
           fst t' ! p = fst t ! p)"
      using small0 by (intro mesh_bounds_ok [OF ok]) simp_all
  next
    fix i and t :: "'b list \<times> shape_data list"
    assume "nummeshes L \<le> i" "i < n" "length (snd t) = length (shapes L)"
      "length (fst t) = length (fst t0)" "0 \<le> faces_before (shapes L) (nat i)"
      "faces_before (shapes L) (nat i) + num_faces (geometry (shapes L ! nat i)) \<le> int (length (fst t0))"
    then show "\<exists>t'. instance_bounds env L i t = Some t' \<and> length (snd t') = length (shapes L) \<and>
      length (fst t') = length (fst t) \<and>
      (\<forall>j. 0 \<le> j \<and> j < num_faces (geometry (shapes L ! nat i)) \<longrightarrow>
           fst t' ! nat (faces_before (shapes L) (nat i) + j) = world_bound env (shapes L ! nat i) j) \<and>
      (\<forall>p. p < nat (faces_before (shapes L) (nat i)) \<or>
            nat (faces_before (shapes L) (nat i) + num_faces (geometry (shapes L ! nat i))) \<le> p \<longrightarrow>
           fst t' ! p = fst t ! p)"
      using facts small0 by (intro instance_bounds_ok [OF ok]) simp_all
  qed
  then obtain t1 t where t: "for_loop 0 (nummeshes L) (mesh_bounds env L) t0 = Some t1"
      "for_loop (nummeshes L) n (instance_bounds env L) t1 = Some t"
      "length (snd t) = length (shapes L)" "length (fst t) = length (fst t0)"
      "\<forall>i j. 0 \<le> i \<and> i < n \<and> 0 \<le> j \<and> j < num_faces (geometry (shapes L ! nat i)) \<longrightarrow>
         fst t ! nat (faces_before (shapes L) (nat i) + j) = world_bound env (shapes L ! nat i) j"
    by blast
  have "build_bounds env L = do {
      st \<leftarrow> for_loop 0 (nummeshes L) (mesh_bounds env L) t0;
      for_loop (nummeshes L) n (instance_bounds env L) st }"
    by (simp add: build_bounds_def t0_def Let_def layout_fits(4) [OF ok] n_def)
  then have "build_bounds env L = Some t"
    using t(1,2) by simp
  then show ?thesis
    using t(3,4,5) by (cases t) (simp add: t0_def n_def)
qed

subsection \<open>Parallel loops\<close>

lemma run_steps_rule:
  assumes step: "\<And>s. I s \<Longrightarrow> 0 < left s \<Longrightarrow> \<exists>s'. f s = Some s' \<and> I s' \<and> left s' = left s - 1"
  shows "I s \<Longrightarrow> n \<le> left s \<Longrightarrow> \<exists>s'. run_steps n f s = Some s' \<and> I s' \<and> left s' = left s - n"
proof (induction n arbitrary: s)
  case 0
  then show ?case by simp
next
  case (Suc n)
  from step [of s] Suc.prems obtain s1 where s1: "f s = Some s1" "I s1" "left s1 = left s - 1"
    by auto
  have "\<exists>s'. run_steps n f s1 = Some s' \<and> I s' \<and> left s' = left s1 - n"
    using Suc.prems s1 by (intro Suc.IH) simp_all
  then show ?case using s1 by auto
qed

lemma run_schedule_rule:
  assumes step: "\<And>i s. lo \<le> i \<Longrightarrow> i < hi \<Longrightarrow> I s \<Longrightarrow> 0 < left i s \<Longrightarrow> \<exists>s'. step i s = Some s' \<and> I s'"
  shows "I s \<Longrightarrow> \<exists>s'. run_schedule lo hi left step sched s = Some s' \<and> I s'"
proof (induction sched arbitrary: s)
  case Nil
  then show ?case by simp
next
  case (Cons i sched)
  show ?case
  proof (cases "lo \<le> i \<and> i < hi \<and> 0 < left i s")
    case True
    with step [of i s] Cons.prems obtain s1 where s1: "step i s = Some s1" "I s1" by auto
    from Cons.IH [OF s1(2)] show ?thesis using True s1(1) by simp
  next
    case False
    from Cons.IH [OF Cons.prems] show ?thesis using False by auto
  qed
qed

lemma omp_parallel_for_rule:
  assumes lohi: "lo \<le> hi"
    and step: "\<And>i s. lo \<le> i \<Longrightarrow> i < hi \<Longrightarrow> I s \<Longrightarrow> 0 < left i s \<Longrightarrow>
      \<exists>s'. step i s = Some s' \<and> I s' \<and> left i s' = left i s - 1"
    and I: "I s"
  shows "\<exists>s'. omp_parallel_for lo hi left step sched s = Some s' \<and> I s'"
proof -
  have "\<exists>s1. run_schedule lo hi left step sched s = Some s1 \<and> I s1"
    using step by (intro run_schedule_rule [where I = I] I) blast
  then obtain s1 where s1: "run_schedule lo hi left step sched s = Some s1" "I s1" by blast
  have "\<exists>s'. for_loop lo hi (\<lambda>i s2. run_steps (left i s2) (step i) s2) s1 = Some s' \<and> I s'"
  proof (rule for_loop_rule [where I = "\<lambda>i. I"])
    show "lo \<le> hi" by (rule lohi)
    show "I s1" by (rule s1(2))
  next
    fix i s2 assume i: "lo \<le> i" "i < hi" and inv: "I s2"
    have "\<exists>s'. run_steps (left i s2) (step i) s2 = Some s' \<and> I s' \<and> left i s' = left i s2 - left i s2"
      using step [OF i] inv by (intro run_steps_rule [where I = I and left = "left i"]) simp_all
    then show "\<exists>s'. run_steps (left i s2) (step i) s2 = Some s' \<and> I s'" by blast
  qed
  then show ?thesis using s1(1) by (simp add: omp_parallel_for_def)
qed

subsection \<open>The vertex pass\<close>

lemma vertices_before_fit:
  assumes ok: "layout_ok L" and i: "0 \<le> i" "i < int (length (shapes L))"
  shows "0 \<le> vertices_before (shapes L) (nat i)"
    and "vertices_before (shapes L) (nat i) + num_vertices (geometry (shapes L ! nat i)) \<le> numvertices L"
    and "numvertices L \<le> INT_MAX"
proof -
  show "0 \<le> vertices_before (shapes L) (nat i)" by (rule vertices_before_nonneg)
  have "vertices_before (shapes L) (Suc (nat i)) \<le> numvertices L"
    using vertices_before_le [of "shapes L" "Suc (nat i)"] layout_fits(6) [OF ok] by simp
  then show "vertices_before (shapes L) (nat i) + num_vertices (geometry (shapes L ! nat i)) \<le> numvertices L"
    using i by (simp add: vertices_before_Suc)
  show "numvertices L \<le> INT_MAX" by (rule layout_fits(3) [OF ok])
qed

lemma transform_vertices_step:
  fixes env :: "('v, 'm, 'b, 'h, 'n) externals" and st :: "('v, 'm) vertex_pass"
  assumes ok: "layout_ok L" and i: "0 \<le> i" "i < int (length (shapes L))"
    and mesh: "mesh = geometry (shapes L ! nat i)"
    and len: "length (vp_vertexdata st) = nat (numvertices L)"
    and m: "\<forall>k. 0 < vp_pc st k \<longrightarrow> vp_m st \<noteq> None"
    and left: "0 < vertices_left (Some mesh) i st"
  shows "\<exists>st'. transform_vertices env L i mesh tr st = Some st' \<and>
      length (vp_vertexdata st') = nat (numvertices L) \<and>
      (\<forall>k. 0 < vp_pc st' k \<longrightarrow> vp_m st' \<noteq> None) \<and>
      vertices_left (Some mesh) i st' = vertices_left (Some mesh) i st - 1"
proof (cases "vp_pc st i")
  case 0
  obtain mm minv where tr: "tr = (mm, minv)" by (cases tr)
  show ?thesis
    using 0 len by (simp add: transform_vertices_def tr vertices_left_def)
next
  case (Suc j)
  have j: "int j < num_vertices mesh" using left Suc by (simp add: vertices_left_def)
  obtain mm where mm: "vp_m st = Some mm" using m Suc by (cases "vp_m st") auto
  note fit = vertices_before_fit [OF ok i]
  have st: "vec_at (mesh_vertices_start_idx L) i = Some (vertices_before (shapes L) (nat i))"
    using layout_starts(2) [OF ok i] .
  have add: "int_add (vertices_before (shapes L) (nat i)) (int j) = Some (vertices_before (shapes L) (nat i) + int j)"
    using fit j mesh by (intro int_add_Some int_okI) simp_all
  have v: "vec_at (vertex_data mesh) (int j) = Some (vertex_data mesh ! j)"
    using j by (simp add: vec_at_def num_vertices_def)
  have set: "vec_set (vp_vertexdata st) (vertices_before (shapes L) (nat i) + int j) x =
      Some ((vp_vertexdata st)[nat (vertices_before (shapes L) (nat i) + int j) := x])" for x
    using fit j mesh len by (intro vec_set_Some) simp_all
  have "vertices_step env L i mesh mm (int j) (vp_vertexdata st) =
      Some ((vp_vertexdata st)[nat (vertices_before (shapes L) (nat i) + int j) :=
        Some (transform_point env (vertex_data mesh ! j) mm)])"
    by (simp add: vertices_step_def st add v set)
  then show ?thesis
    using Suc len mm by (simp add: transform_vertices_def vertices_left_def)
qed

lemma fill_vertices_total:
  fixes env :: "('v, 'm, 'b, 'h, 'n) externals"
  assumes ok: "layout_ok L"
  shows "\<exists>vertexdata. fill_vertices env L = Some vertexdata \<and> length vertexdata = nat (numvertices L)"
proof -
  define I :: "('v, 'm) vertex_pass \<Rightarrow> bool" where
    "I = (\<lambda>st. length (vp_vertexdata st) = nat (numvertices L) \<and>
               (\<forall>k. 0 < vp_pc st k \<longrightarrow> vp_m st \<noteq> None))"
  define n where "n = int (length (shapes L))"
  define st0 :: "('v, 'm) vertex_pass" where
    "st0 = \<lparr>vp_m = None, vp_vertexdata = replicate (nat (numvertices L)) None, vp_pc = (\<lambda>i. 0)\<rparr>"
  have facts: "0 \<le> nummeshes L" "nummeshes L \<le> n" "int_add (nummeshes L) (numinstances L) = Some n"
    using layout_counts [OF ok] layout_fits(4) [OF ok] by (simp_all add: n_def)
  have "\<exists>st1. omp_parallel_for 0 (nummeshes L) (mesh_vertices_left L) (mesh_vertices env L)
      (omp_schedule env 0 (nummeshes L)) st0 = Some st1 \<and> I st1"
  proof (rule omp_parallel_for_rule [where I = I])
    show "0 \<le> nummeshes L" by (rule facts(1))
    show "I st0" by (simp add: I_def st0_def)
  next
    fix i and st :: "('v, 'm) vertex_pass"
    assume i: "0 \<le> i" "i < nummeshes L" and inv: "I st" and left: "0 < mesh_vertices_left L i st"
    have r: "i < int (length (shapes L))" using i facts by (simp add: n_def)
    have m: "mesh_at (shapes L) i = Some (geometry (shapes L ! nat i))"
      using layout_mesh(1) [OF ok i] .
    have "\<exists>st'. transform_vertices env L i (geometry (shapes L ! nat i))
        (mesh_transform (geometry (shapes L ! nat i))) st = Some st' \<and>
      length (vp_vertexdata st') = nat (numvertices L) \<and>
      (\<forall>k. 0 < vp_pc st' k \<longrightarrow> vp_m st' \<noteq> None) \<and>
      vertices_left (Some (geometry (shapes L ! nat i))) i st' =
        vertices_left (Some (geometry (shapes L ! nat i))) i st - 1"
      using inv left by (intro transform_vertices_step [OF ok i(1) r]) (simp_all add: I_def mesh_vertices_left_def m)
    then show "\<exists>st'. mesh_vertices env L i st = Some st' \<and> I st' \<and>
        mesh_vertices_left L i st' = mesh_vertices_left L i st - 1"
      by (simp add: mesh_vertices_def mesh_vertices_left_def m I_def)
  qed
  then obtain st1 where st1: "omp_parallel_for 0 (nummeshes L) (mesh_vertices_left L) (mesh_vertices env L)
      (omp_schedule env 0 (nummeshes L)) st0 = Some st1" "I st1" by blast
  have "\<exists>st2. omp_parallel_for (nummeshes L) n (instance_vertices_left L) (instance_vertices env L)
      (omp_schedule env (nummeshes L) n) st1 = Some st2 \<and> I st2"
  proof (rule omp_parallel_for_rule [where I = I])
    show "nummeshes L \<le> n" by (rule facts(2))
    show "I st1" by (rule st1(2))
  next
    fix i and st :: "('v, 'm) vertex_pass"
    assume i: "nummeshes L \<le> i" "i < n" and inv: "I st" and left: "0 < instance_vertices_left L i st"
    have r: "0 \<le> i" "i < int (length (shapes L))" using i facts by (simp_all add: n_def)
    obtain inst where inst: "instance_at (shapes L) i = Some inst" "shapes L ! nat i = InstanceShape inst"
      using layout_instance [OF ok i(1)] i(2) layout_counts(4) [OF ok] by (auto simp: n_def)
    have geo: "base_shape inst = geometry (shapes L ! nat i)" by (simp add: inst(2))
    have "\<exists>st'. transform_vertices env L i (geometry (shapes L ! nat i)) (inst_transform inst) st = Some st' \<and>
      length (vp_vertexdata st') = nat (numvertices L) \<and>
      (\<forall>k. 0 < vp_pc st' k \<longrightarrow> vp_m st' \<noteq> None) \<and>
      vertices_left (Some (geometry (shapes L ! nat i))) i st' =
        vertices_left (Some (geometry (shapes L ! nat i))) i st - 1"
      using inv left by (intro transform_vertices_step [OF ok r]) (simp_all add: I_def instance_vertices_left_def inst(1) geo)
    then show "\<exists>st'. instance_vertices env L i st = Some st' \<and> I st' \<and>
        instance_vertices_left L i st' = instance_vertices_left L i st - 1"
      by (simp add: instance_vertices_def instance_vertices_left_def inst(1) geo I_def)
  qed
  then obtain st2 where st2: "omp_parallel_for (nummeshes L) n (instance_vertices_left L) (instance_vertices env L)
      (omp_schedule env (nummeshes L) n) st1 = Some st2" "I st2" by blast
  have "fill_vertices env L = Some (vp_vertexdata st2)"
    using st1(1) st2(1) facts(3) by (simp add: fill_vertices_def st0_def)
  then show ?thesis using st2(2) by (simp add: I_def)
qed

subsection \<open>The vertex pass in program order\<close>

lemma run_steps_count:
  "(\<And>c s. c < n \<Longrightarrow> K c s \<Longrightarrow> \<exists>s'. f s = Some s' \<and> K (Suc c) s') \<Longrightarrow> K 0 s \<Longrightarrow>
   \<exists>s'. run_steps n f s = Some s' \<and> K n s'"
proof (induction n arbitrary: K s)
  case 0
  then show ?case by simp
next
  case (Suc n)
  from Suc.prems(1) [of 0 s] Suc.prems(2) obtain s1 where s1: "f s = Some s1" "K (Suc 0) s1" by auto
  have "\<exists>s'. run_steps n f s1 = Some s' \<and> K (Suc n) s'"
  proof (rule Suc.IH [where K = "\<lambda>c. K (Suc c)"])
    fix c s2 assume "c < n" "K (Suc c) s2"
    then show "\<exists>s'. f s2 = Some s' \<and> K (Suc (Suc c)) s'" using Suc.prems(1) [of "Suc c" s2] by simp
  next
    show "K (Suc 0) s1" by (rule s1(2))
  qed
  then show ?case using s1(1) by simp
qed

lemma vertices_iteration:
  fixes env :: "('v, 'm, 'b, 'h, 'n) externals" and st :: "('v, 'm) vertex_pass"
  assumes ok: "layout_ok L" and i: "0 \<le> i" "i < int (length (shapes L))"
    and mesh: "mesh = geometry (shapes L ! nat i)"
    and len: "length (vp_vertexdata st) = nat (numvertices L)"
    and pc: "vp_pc st i = 0"
  shows "\<exists>st'. run_steps (vertices_left (Some mesh) i st) (transform_vertices env L i mesh (mm, minv)) st = Some st' \<and>
     vp_pc st' = (vp_pc st)(i := Suc (nat (num_vertices mesh))) \<and>
     length (vp_vertexdata st') = length (vp_vertexdata st) \<and>
     (\<forall>j. 0 \<le> j \<and> j < num_vertices mesh \<longrightarrow>
        vp_vertexdata st' ! nat (vertices_before (shapes L) (nat i) + j) =
          Some (transform_point env (vertex_data mesh ! nat j) mm)) \<and>
     (\<forall>p. p < nat (vertices_before (shapes L) (nat i)) \<or>
           nat (vertices_before (shapes L) (nat i) + num_vertices mesh) \<le> p \<longrightarrow>
        vp_vertexdata st' ! p = vp_vertexdata st ! p)"
proof -
  define start where "start = nat (vertices_before (shapes L) (nat i))"
  define nv where "nv = length (vertex_data mesh)"
  define f where "f = transform_vertices env L i mesh (mm, minv)"
  define st1 where "st1 = st\<lparr>vp_m := Some mm, vp_pc := (vp_pc st)(i := 1)\<rparr>"
  define K where "K = (\<lambda>c (s :: ('v, 'm) vertex_pass). vp_pc s = (vp_pc st)(i := Suc c) \<and> vp_m s = Some mm \<and>
      length (vp_vertexdata s) = length (vp_vertexdata st) \<and>
      (\<forall>j < c. vp_vertexdata s ! (start + j) = Some (transform_point env (vertex_data mesh ! j) mm)) \<and>
      (\<forall>p. p < start \<or> start + c \<le> p \<longrightarrow> vp_vertexdata s ! p = vp_vertexdata st ! p))"
  note fit = vertices_before_fit [OF ok i]
  have nvs: "num_vertices mesh = int nv" by (simp add: num_vertices_def nv_def)
  have sv: "vertices_before (shapes L) (nat i) = int start" using fit(1) by (simp add: start_def)
  have room: "start + nv \<le> length (vp_vertexdata st)" "int start + int nv \<le> INT_MAX"
    using fit len mesh nvs sv by simp_all
  have stv: "vec_at (mesh_vertices_start_idx L) i = Some (int start)"
    using layout_starts(2) [OF ok i] sv by simp
  have first: "f st = Some st1"
    using pc by (simp add: f_def transform_vertices_def st1_def)
  have K0: "K 0 st1"
    by (simp add: K_def st1_def)
  have step: "\<exists>s'. f s = Some s' \<and> K (Suc c) s'" if c: "c < nv" and k: "K c s" for c s
  proof -
    from k have pcs: "vp_pc s = (vp_pc st)(i := Suc c)" and ms: "vp_m s = Some mm"
      and ls: "length (vp_vertexdata s) = length (vp_vertexdata st)"
      and prev: "\<And>j. j < c \<Longrightarrow> vp_vertexdata s ! (start + j) = Some (transform_point env (vertex_data mesh ! j) mm)"
      and out: "\<And>p. p < start \<or> start + c \<le> p \<Longrightarrow> vp_vertexdata s ! p = vp_vertexdata st ! p"
      by (auto simp: K_def)
    have add: "int_add (int start) (int c) = Some (int start + int c)"
      using c room(2) by (intro int_add_Some int_okI) simp_all
    have v: "vec_at (vertex_data mesh) (int c) = Some (vertex_data mesh ! c)"
      using c by (simp add: vec_at_def nv_def)
    have set: "vec_set (vp_vertexdata s) (int start + int c) x = Some ((vp_vertexdata s)[start + c := x])" for x
      using c room(1) ls by (simp add: vec_set_def nat_add_distrib)
    define s' where "s' = s\<lparr>vp_vertexdata := (vp_vertexdata s)[start + c := Some (transform_point env (vertex_data mesh ! c) mm)],
        vp_pc := (vp_pc s)(i := Suc (Suc c))\<rparr>"
    have r: "f s = Some s'"
      using pcs ms by (simp add: f_def transform_vertices_def vertices_step_def stv add v set s'_def)
    have "K (Suc c) s'"
      unfolding K_def
    proof (intro conjI allI impI)
      show "vp_pc s' = (vp_pc st)(i := Suc (Suc c))" by (simp add: s'_def pcs)
      show "vp_m s' = Some mm" by (simp add: s'_def ms)
      show "length (vp_vertexdata s') = length (vp_vertexdata st)" by (simp add: s'_def ls)
    next
      fix j assume "j < Suc c"
      then show "vp_vertexdata s' ! (start + j) = Some (transform_point env (vertex_data mesh ! j) mm)"
        using prev [of j] c room(1) ls by (cases "j = c") (simp_all add: s'_def)
    next
      fix p assume "p < start \<or> start + Suc c \<le> p"
      then show "vp_vertexdata s' ! p = vp_vertexdata st ! p"
        using out [of p] by (auto simp: s'_def)
    qed
    with r show ?thesis by blast
  qed
  have "\<exists>s'. run_steps nv f st1 = Some s' \<and> K nv s'"
    using step K0 by (rule run_steps_count)
  then obtain st' where st': "run_steps nv f st1 = Some st'" "K nv st'" by blast
  have left: "vertices_left (Some mesh) i st = Suc nv"
    using pc by (simp add: vertices_left_def nvs)
  have run: "run_steps (vertices_left (Some mesh) i st) (transform_vertices env L i mesh (mm, minv)) st = Some st'"
    using first st'(1) by (simp add: left f_def [symmetric])
  have a: "vp_pc st' = (vp_pc st)(i := Suc (nat (num_vertices mesh)))"
    and b: "length (vp_vertexdata st') = length (vp_vertexdata st)"
    using st'(2) by (simp_all add: K_def nvs)
  have c: "\<forall>j. 0 \<le> j \<and> j < num_vertices mesh \<longrightarrow>
        vp_vertexdata st' ! nat (vertices_before (shapes L) (nat i) + j) =
          Some (transform_point env (vertex_data mesh ! nat j) mm)"
  proof (intro allI impI)
    fix j :: int assume j: "0 \<le> j \<and> j < num_vertices mesh"
    then have "nat j < nv" unfolding nvs by linarith
    then have "vp_vertexdata st' ! (start + nat j) = Some (transform_point env (vertex_data mesh ! nat j) mm)"
      using st'(2) by (simp add: K_def)
    moreover have "nat (vertices_before (shapes L) (nat i) + j) = start + nat j"
      using j sv by (simp add: nat_add_distrib)
    ultimately show "vp_vertexdata st' ! nat (vertices_before (shapes L) (nat i) + j) =
          Some (transform_point env (vertex_data mesh ! nat j) mm)" by simp
  qed
  have d: "\<forall>p. p < nat (vertices_before (shapes L) (nat i)) \<or>
           nat (vertices_before (shapes L) (nat i) + num_vertices mesh) \<le> p \<longrightarrow>
        vp_vertexdata st' ! p = vp_vertexdata st ! p"
    using st'(2) by (simp add: K_def sv nvs nat_add_distrib)
  from run a b c d show ?thesis by blast
qed

lemma fill_vertices_in_order:
  fixes env :: "('v, 'm, 'b, 'h, 'n) externals"
  assumes ok: "layout_ok L"
    and seq: "omp_schedule env 0 (nummeshes L) = []"
      "omp_schedule env (nummeshes L) (int (length (shapes L))) = []"
  shows "\<exists>vertexdata. fill_vertices env L = Some vertexdata \<and>
      length vertexdata = nat (numvertices L) \<and>
      (\<forall>i j. 0 \<le> i \<and> i < int (length (shapes L)) \<and> 0 \<le> j \<and> j < num_vertices (geometry (shapes L ! nat i)) \<longrightarrow>
         vertexdata ! nat (vertices_before (shapes L) (nat i) + j) = Some (world_vertex env (shapes L ! nat i) j))"
proof -
  define n where "n = int (length (shapes L))"
  define t0 :: "('v, 'm) vertex_pass" where
    "t0 = \<lparr>vp_m = None, vp_vertexdata = replicate (nat (numvertices L)) None, vp_pc = (\<lambda>i. 0)\<rparr>"
  define body1 where "body1 = (\<lambda>i (s2 :: ('v, 'm) vertex_pass). run_steps (mesh_vertices_left L i s2) (mesh_vertices env L i) s2)"
  define body2 where "body2 = (\<lambda>i (s2 :: ('v, 'm) vertex_pass). run_steps (instance_vertices_left L i s2) (instance_vertices env L i) s2)"
  have facts: "0 \<le> nummeshes L" "nummeshes L \<le> n" "int_add (nummeshes L) (numinstances L) = Some n"
    "numvertices L = vertices_before (shapes L) (nat n)" "nummeshes L + numinstances L = n"
    using layout_counts [OF ok] layout_fits(4,6) [OF ok] by (simp_all add: n_def)
  have "\<exists>t1 t. for_loop 0 (nummeshes L) body1 t0 = Some t1 \<and>
      for_loop (nummeshes L) n body2 t1 = Some t \<and>
      (\<forall>k \<ge> n. vp_pc t k = 0) \<and> length (vp_vertexdata t) = length (vp_vertexdata t0) \<and>
      (\<forall>i j. 0 \<le> i \<and> i < n \<and> 0 \<le> j \<and> j < num_vertices (geometry (shapes L ! nat i)) \<longrightarrow>
         vp_vertexdata t ! nat (vertices_before (shapes L) (nat i) + j) = Some (world_vertex env (shapes L ! nat i) j))"
  proof (rule fill_two_ranges [where Q = "\<lambda>i t. \<forall>k \<ge> i. vp_pc t k = 0" and proj = vp_vertexdata
        and start = "\<lambda>i. vertices_before (shapes L) (nat i)"
        and sz = "\<lambda>i. num_vertices (geometry (shapes L ! nat i))"
        and G = "\<lambda>i j. Some (world_vertex env (shapes L ! nat i) j)"])
    show "0 \<le> nummeshes L" "nummeshes L \<le> n" using facts by simp_all
    show "0 \<le> vertices_before (shapes L) (nat 0)" by (simp add: vertices_before_def)
    show "vertices_before (shapes L) (nat n) \<le> int (length (vp_vertexdata t0))"
      using facts by (simp add: t0_def)
    show "\<forall>k\<ge>0. vp_pc t0 k = 0" by (simp add: t0_def)
  next
    fix i assume "0 \<le> i" "i < n"
    then show "0 \<le> num_vertices (geometry (shapes L ! nat i)) \<and>
         vertices_before (shapes L) (nat (i + 1)) =
           vertices_before (shapes L) (nat i) + num_vertices (geometry (shapes L ! nat i))"
      using layout_vertices_step [OF ok] by (simp add: n_def)
  next
    fix i and t :: "('v, 'm) vertex_pass"
    assume i: "0 \<le> i" "i < nummeshes L" and q: "\<forall>k\<ge>i. vp_pc t k = 0"
      and len: "length (vp_vertexdata t) = length (vp_vertexdata t0)"
    define mesh where "mesh = geometry (shapes L ! nat i)"
    have r: "i < int (length (shapes L))" using i facts by (simp add: n_def)
    have m: "mesh_at (shapes L) i = Some mesh" "shapes L ! nat i = MeshShape mesh"
      using layout_mesh [OF ok i] by (simp_all add: mesh_def)
    obtain mm minv where tr: "mesh_transform mesh = (mm, minv)" by (cases "mesh_transform mesh")
    have f: "mesh_vertices env L i = transform_vertices env L i mesh (mm, minv)"
      by (simp add: fun_eq_iff mesh_vertices_def m(1) tr)
    have "\<exists>st'. run_steps (vertices_left (Some mesh) i t) (transform_vertices env L i mesh (mm, minv)) t = Some st' \<and>
     vp_pc st' = (vp_pc t)(i := Suc (nat (num_vertices mesh))) \<and>
     length (vp_vertexdata st') = length (vp_vertexdata t) \<and>
     (\<forall>j. 0 \<le> j \<and> j < num_vertices mesh \<longrightarrow>
        vp_vertexdata st' ! nat (vertices_before (shapes L) (nat i) + j) =
          Some (transform_point env (vertex_data mesh ! nat j) mm)) \<and>
     (\<forall>p. p < nat (vertices_before (shapes L) (nat i)) \<or>
           nat (vertices_before (shapes L) (nat i) + num_vertices mesh) \<le> p \<longrightarrow>
        vp_vertexdata st' ! p = vp_vertexdata t ! p)"
      using q len by (intro vertices_iteration [OF ok i(1) r]) (simp_all add: mesh_def t0_def)
    then show "\<exists>t'. body1 i t = Some t' \<and> (\<forall>k\<ge>i + 1. vp_pc t' k = 0) \<and>
      length (vp_vertexdata t') = length (vp_vertexdata t) \<and>
      (\<forall>j. 0 \<le> j \<and> j < num_vertices (geometry (shapes L ! nat i)) \<longrightarrow>
           vp_vertexdata t' ! nat (vertices_before (shapes L) (nat i) + j) = Some (world_vertex env (shapes L ! nat i) j)) \<and>
      (\<forall>p. p < nat (vertices_before (shapes L) (nat i)) \<or>
            nat (vertices_before (shapes L) (nat i) + num_vertices (geometry (shapes L ! nat i))) \<le> p \<longrightarrow>
           vp_vertexdata t' ! p = vp_vertexdata t ! p)"
      using q by (auto simp: body1_def mesh_vertices_left_def f m tr mesh_def [symmetric])
  next
    fix i and t :: "('v, 'm) vertex_pass"
    assume i: "nummeshes L \<le> i" "i < n" and q: "\<forall>k\<ge>i. vp_pc t k = 0"
      and len: "length (vp_vertexdata t) = length (vp_vertexdata t0)"
    have r: "0 \<le> i" "i < int (length (shapes L))" using i facts by (simp_all add: n_def)
    obtain inst where inst: "instance_at (shapes L) i = Some inst" "shapes L ! nat i = InstanceShape inst"
      using layout_instance [OF ok i(1)] i(2) facts(5) by auto
    define mesh where "mesh = geometry (shapes L ! nat i)"
    have geo: "base_shape inst = mesh" by (simp add: inst(2) mesh_def)
    obtain mm minv where tr: "inst_transform inst = (mm, minv)" by (cases "inst_transform inst")
    have f: "instance_vertices env L i = transform_vertices env L i mesh (mm, minv)"
      by (simp add: fun_eq_iff instance_vertices_def inst(1) tr geo)
    have "\<exists>st'. run_steps (vertices_left (Some mesh) i t) (transform_vertices env L i mesh (mm, minv)) t = Some st' \<and>
     vp_pc st' = (vp_pc t)(i := Suc (nat (num_vertices mesh))) \<and>
     length (vp_vertexdata st') = length (vp_vertexdata t) \<and>
     (\<forall>j. 0 \<le> j \<and> j < num_vertices mesh \<longrightarrow>
        vp_vertexdata st' ! nat (vertices_before (shapes L) (nat i) + j) =
          Some (transform_point env (vertex_data mesh ! nat j) mm)) \<and>
     (\<forall>p. p < nat (vertices_before (shapes L) (nat i)) \<or>
           nat (vertices_before (shapes L) (nat i) + num_vertices mesh) \<le> p \<longrightarrow>
        vp_vertexdata st' ! p = vp_vertexdata t ! p)"
      using q len by (intro vertices_iteration [OF ok r]) (simp_all add: mesh_def t0_def)
    then show "\<exists>t'. body2 i t = Some t' \<and> (\<forall>k\<ge>i + 1. vp_pc t' k = 0) \<and>
      length (vp_vertexdata t') = length (vp_vertexdata t) \<and>
      (\<forall>j. 0 \<le> j \<and> j < num_vertices (geometry (shapes L ! nat i)) \<longrightarrow>
           vp_vertexdata t' ! nat (vertices_before (shapes L) (nat i) + j) = Some (world_vertex env (shapes L ! nat i) j)) \<and>
      (\<forall>p. p < nat (vertices_before (shapes L) (nat i)) \<or>
            nat (vertices_before (shapes L) (nat i) + num_vertices (geometry (shapes L ! nat i))) \<le> p \<longrightarrow>
           vp_vertexdata t' ! p = vp_vertexdata t ! p)"
      using q by (auto simp: body2_def instance_vertices_left_def f inst geo tr mesh_def [symmetric])
  qed
  then obtain t1 t where t: "for_loop 0 (nummeshes L) body1 t0 = Some t1"
      "for_loop (nummeshes L) n body2 t1 = Some t"
      "length (vp_vertexdata t) = length (vp_vertexdata t0)"
      "\<forall>i j. 0 \<le> i \<and> i < n \<and> 0 \<le> j \<and> j < num_vertices (geometry (shapes L ! nat i)) \<longrightarrow>
         vp_vertexdata t ! nat (vertices_before (shapes L) (nat i) + j) = Some (world_vertex env (shapes L ! nat i) j)"
    by blast
  have "fill_vertices env L = Some (vp_vertexdata t)"
    using t(1,2) facts(3) seq
    by (simp add: fill_vertices_def t0_def [symmetric] omp_parallel_for_def body1_def body2_def n_def)
  then show ?thesis
    using t(3,4) by (simp add: t0_def n_def)
qed

subsection \<open>The face pass\<close>

lemma faces_before_mono:
  assumes "a \<le> b" "b \<le> length shs"
  shows "faces_before shs a \<le> faces_before shs b"
proof -
  have "int a \<le> int b \<Longrightarrow> int b \<le> int (length shs) \<Longrightarrow>
      faces_before shs (nat (int a)) \<le> faces_before shs (nat (int b))"
    by (rule start_mono [where lo = 0 and hi = "int (length shs)"
          and sz = "\<lambda>i. num_faces (geometry (shs ! nat i))"
          and start = "\<lambda>i. faces_before shs (nat i)"])
       (simp_all add: num_faces_nonneg nat_add_distrib faces_before_Suc)
  with assms show ?thesis by simp
qed

text \<open>
  On a sorted vector the binary search returns the position of the first element
  that is greater than the value, and the end of the range when there is none.
\<close>

lemma upper_bound_loop_correct:
  "sorted xs \<Longrightarrow> first + len \<le> length xs \<Longrightarrow>
   first \<le> upper_bound_loop xs v first len \<and> upper_bound_loop xs v first len \<le> first + len \<and>
   (\<forall>k. first \<le> k \<and> k < upper_bound_loop xs v first len \<longrightarrow> xs ! k \<le> v) \<and>
   (\<forall>k. upper_bound_loop xs v first len \<le> k \<and> k < first + len \<longrightarrow> v < xs ! k)"
proof (induction xs v first len rule: upper_bound_loop.induct)
  case (1 xs v first len)
  show ?case
  proof (cases "0 < len")
    case False
    then show ?thesis by (subst (1 2 3 4) upper_bound_loop.simps) simp
  next
    case pos: True
    define half where "half = len div 2"
    define middle where "middle = first + half"
    have hl: "half < len" using pos by (simp add: half_def)
    have mid: "middle < length xs" using hl "1.prems"(2) by (simp add: middle_def)
    show ?thesis
    proof (cases "v < xs ! middle")
      case True
      have eq: "upper_bound_loop xs v first len = upper_bound_loop xs v first half"
        using pos True by (subst upper_bound_loop.simps) (simp add: half_def middle_def Let_def)
      have IH: "first \<le> upper_bound_loop xs v first half \<and> upper_bound_loop xs v first half \<le> first + half \<and>
         (\<forall>k. first \<le> k \<and> k < upper_bound_loop xs v first half \<longrightarrow> xs ! k \<le> v) \<and>
         (\<forall>k. upper_bound_loop xs v first half \<le> k \<and> k < first + half \<longrightarrow> v < xs ! k)"
        using "1.IH"(1) [OF pos half_def middle_def True "1.prems"(1)] hl "1.prems"(2) by simp
      have up: "\<And>k. middle \<le> k \<Longrightarrow> k < first + len \<Longrightarrow> v < xs ! k"
      proof -
        fix k assume k: "middle \<le> k" "k < first + len"
        then have "xs ! middle \<le> xs ! k"
          using "1.prems" by (simp add: sorted_iff_nth_mono)
        with True show "v < xs ! k" by simp
      qed
      show ?thesis unfolding eq using IH hl up
        by (auto simp: middle_def not_less) (metis not_less)
    next
      case False
      have eq: "upper_bound_loop xs v first len = upper_bound_loop xs v (Suc middle) (len - half - 1)"
        using pos False by (subst upper_bound_loop.simps) (simp add: half_def middle_def Let_def)
      have IH: "Suc middle \<le> upper_bound_loop xs v (Suc middle) (len - half - 1) \<and>
         upper_bound_loop xs v (Suc middle) (len - half - 1) \<le> Suc middle + (len - half - 1) \<and>
         (\<forall>k. Suc middle \<le> k \<and> k < upper_bound_loop xs v (Suc middle) (len - half - 1) \<longrightarrow> xs ! k \<le> v) \<and>
         (\<forall>k. upper_bound_loop xs v (Suc middle) (len - half - 1) \<le> k \<and> k < Suc middle + (len - half - 1) \<longrightarrow> v < xs ! k)"
        using "1.IH"(2) [OF pos half_def middle_def False "1.prems"(1)] hl "1.prems"(2)
        by (simp add: middle_def)
      have sum: "Suc middle + (len - half - 1) = first + len" using hl by (simp add: middle_def)
      have low: "\<And>k. k \<le> middle \<Longrightarrow> xs ! k \<le> v"
      proof -
        fix k assume k: "k \<le> middle"
        then have "xs ! k \<le> xs ! middle"
          using "1.prems"(1) mid by (simp add: sorted_iff_nth_mono)
        with False show "xs ! k \<le> v" by simp
      qed
      define r where "r = upper_bound_loop xs v (Suc middle) (len - half - 1)"
      have r1: "Suc middle \<le> r" and r2: "r \<le> first + len"
        and r3: "\<And>k. Suc middle \<le> k \<Longrightarrow> k < r \<Longrightarrow> xs ! k \<le> v"
        and r4: "\<And>k. r \<le> k \<Longrightarrow> k < first + len \<Longrightarrow> v < xs ! k"
        using IH unfolding sum r_def by auto
      have fr: "first \<le> r" using r1 by (simp add: middle_def)
      have below: "\<And>k. first \<le> k \<Longrightarrow> k < r \<Longrightarrow> xs ! k \<le> v"
      proof -
        fix k assume "first \<le> k" "k < r"
        then show "xs ! k \<le> v" using low [of k] r3 [of k] by (cases "k \<le> middle") auto
      qed
      show ?thesis unfolding eq r_def [symmetric] using fr r2 below r4 by blast
    qed
  qed
qed

lemma upper_bound_correct:
  assumes "sorted xs"
  shows "upper_bound xs v \<le> length xs"
    and "\<And>k. k < upper_bound xs v \<Longrightarrow> xs ! k \<le> v"
    and "\<And>k. upper_bound xs v \<le> k \<Longrightarrow> k < length xs \<Longrightarrow> v < xs ! k"
  using upper_bound_loop_correct [OF assms, of 0 "length xs" v] by (simp_all add: upper_bound_def)

lemma upper_bound_shape:
  assumes ok: "layout_ok L" and x: "0 \<le> x" "x < numfaces L"
  shows "\<exists>k. int (upper_bound (mesh_faces_start_idx L) x) - 1 = int k \<and> k < length (shapes L) \<and>
           faces_before (shapes L) k \<le> x \<and> x < faces_before (shapes L) (Suc k)"
proof -
  define fs where "fs = mesh_faces_start_idx L"
  define n where "n = length (shapes L)"
  define u where "u = upper_bound fs x"
  have len: "length fs = n" and val: "\<And>k. k < n \<Longrightarrow> fs ! k = faces_before (shapes L) k"
    and tot: "numfaces L = faces_before (shapes L) n"
    using ok by (simp_all add: layout_ok_def fs_def n_def)
  have srt: "sorted fs"
  proof (subst sorted_iff_nth_mono, intro allI impI)
    fix i j assume ij: "i \<le> j" "j < length fs"
    then have "faces_before (shapes L) i \<le> faces_before (shapes L) j"
      using len by (intro faces_before_mono) (simp_all add: n_def)
    then show "fs ! i \<le> fs ! j" using ij len val [of i] val [of j] by simp
  qed
  have un: "u \<le> n" using upper_bound_correct(1) [OF srt, of x] len by (simp add: u_def)
  have before: "\<And>k. k < u \<Longrightarrow> fs ! k \<le> x"
    using upper_bound_correct(2) [OF srt, of _ x] by (simp add: u_def)
  have at: "u < n \<Longrightarrow> x < fs ! u"
    using upper_bound_correct(3) [OF srt, of x u] len by (simp add: u_def)
  have npos: "0 < n"
  proof (rule ccontr)
    assume "\<not> 0 < n"
    then have "faces_before (shapes L) n = 0" by (simp add: faces_before_def)
    with x tot show False by simp
  qed
  have upos: "0 < u"
  proof (rule ccontr)
    assume "\<not> 0 < u"
    then have "u = 0" by simp
    with at npos have "x < fs ! 0" by simp
    moreover have "fs ! 0 = 0" using val [OF npos] by (simp add: faces_before_def)
    ultimately show False using x by simp
  qed
  define k where "k = u - 1"
  have ku: "u = Suc k" using upos by (simp add: k_def)
  have kn: "k < n" using un ku by simp
  have lo: "faces_before (shapes L) k \<le> x" using before [of k] ku val [OF kn] by simp
  have hi: "x < faces_before (shapes L) (Suc k)"
  proof (cases "u < n")
    case True
    with at val [of u] ku show ?thesis by simp
  next
    case False
    with un have "u = n" by simp
    with x tot ku show ?thesis by simp
  qed
  have "int (upper_bound (mesh_faces_start_idx L) x) - 1 = int k"
    using ku by (simp add: u_def fs_def)
  with kn lo hi show ?thesis by (auto simp: n_def)
qed

lemma face_step_ok:
  assumes ok: "layout_ok L" and i: "0 \<le> i" "i < int (length reordering)"
    and x: "0 \<le> reordering ! nat i" "reordering ! nat i < numfaces L"
    and fit: "indices_fit L"
  shows "face_step L reordering i facedata = vec_set facedata i (Some (flat_face L (reordering ! nat i)))"
proof -
  define x where "x = reordering ! nat i"
  obtain k where k: "int (upper_bound (mesh_faces_start_idx L) x) - 1 = int k" "k < length (shapes L)"
    "faces_before (shapes L) k \<le> x" "x < faces_before (shapes L) (Suc k)"
    using upper_bound_shape [OF ok, of x] assms(4,5) by (auto simp: x_def)
  define mesh where "mesh = geometry (shapes L ! k)"
  have rd: "vec_at reordering i = Some x" using i by (simp add: vec_at_def x_def)
  have kr: "0 \<le> int k" "int k < int (length (shapes L))" using k(2) by simp_all
  have mesh1: "int k < nummeshes L \<Longrightarrow> mesh_at (shapes L) (int k) = Some mesh"
    using layout_mesh(1) [OF ok kr(1)] by (simp add: mesh_def)
  have mesh2: "\<not> int k < nummeshes L \<Longrightarrow>
      map_option base_shape (instance_at (shapes L) (int k)) = Some mesh"
  proof -
    assume "\<not> int k < nummeshes L"
    then obtain inst where "instance_at (shapes L) (int k) = Some inst"
        "shapes L ! nat (int k) = InstanceShape inst"
      using layout_instance [OF ok, of "int k"] kr layout_counts [OF ok] by auto
    then show ?thesis by (simp add: mesh_def)
  qed
  have st: "vec_at (mesh_faces_start_idx L) (int k) = Some (faces_before (shapes L) k)"
    "vec_at (mesh_vertices_start_idx L) (int k) = Some (vertices_before (shapes L) k)"
    using layout_starts [OF ok kr] by simp_all
  have fsk: "mesh_faces_start_idx L ! k = faces_before (shapes L) k"
    "mesh_vertices_start_idx L ! k = vertices_before (shapes L) k"
    using ok k(2) by (simp_all add: layout_ok_def)
  have fr: "0 \<le> x - faces_before (shapes L) k" "x - faces_before (shapes L) k < int (length (face_data mesh))"
    using k(3,4) k(2) by (simp_all add: faces_before_Suc mesh_def num_faces_def)
  have fa: "vec_at (face_data mesh) (x - faces_before (shapes L) k) =
      Some (face_data mesh ! nat (x - faces_before (shapes L) k))"
    using fr by (rule vec_at_Some)
  define myface where "myface = face_data mesh ! nat (x - faces_before (shapes L) k)"
  have "myface \<in> set (face_data mesh)" using fr by (simp add: myface_def)
  then have sums: "int_ok (idx0 myface + vertices_before (shapes L) k)"
    "int_ok (idx1 myface + vertices_before (shapes L) k)"
    "int_ok (idx2 myface + vertices_before (shapes L) k)"
    using fit k(2) fsk(2) by (auto simp: indices_fit_def mesh_def)
  have cast: "int_cast (int k) = Some (int k)"
    using k(2) layout_fits(1) [OF ok] by (intro int_cast_Some int_okI) simp_all
  have sub: "int_sub x (faces_before (shapes L) k) = Some (x - faces_before (shapes L) k)"
    using fr(1) faces_before_nonneg [of "shapes L" k] assms(5) layout_fits(2) [OF ok]
    by (intro int_sub_Some int_okI) (simp_all add: x_def)
  show ?thesis
    unfolding face_step_def flat_face_def x_def [symmetric]
    by (simp add: rd k(1) Let_def cast sub mesh1 mesh2 st fa fsk mesh_def [symmetric]
        myface_def [symmetric] int_add_Some [OF sums(1)] int_add_Some [OF sums(2)] int_add_Some [OF sums(3)])
qed

lemma flat_face_props:
  assumes ok: "layout_ok L" and x: "0 \<le> x" "x < numfaces L"
  shows "0 \<le> shapeidx (flat_face L x) \<and> shapeidx (flat_face L x) < numshapes L \<and>
     0 \<le> face_id (flat_face L x) \<and>
     face_id (flat_face L x) < num_faces (geometry (shapes L ! nat (shapeidx (flat_face L x)))) \<and>
     mesh_faces_start_idx L ! nat (shapeidx (flat_face L x)) + face_id (flat_face L x) = x \<and>
     cnt (flat_face L x) = 0"
proof -
  obtain k where k: "int (upper_bound (mesh_faces_start_idx L) x) - 1 = int k" "k < length (shapes L)"
    "faces_before (shapes L) k \<le> x" "x < faces_before (shapes L) (Suc k)"
    using upper_bound_shape [OF ok x] by auto
  have fsk: "mesh_faces_start_idx L ! k = faces_before (shapes L) k"
    using ok k(2) by (simp add: layout_ok_def)
  show ?thesis
    using k(2,3,4) layout_counts(5) [OF ok]
    by (simp add: flat_face_def Let_def k(1) fsk faces_before_Suc)
qed

lemma flat_face_idx:
  "idx (flat_face L x) =
     (let f = flat_face L x;
          myface = face_data (geometry (shapes L ! nat (shapeidx f))) ! nat (face_id f);
          v = mesh_vertices_start_idx L ! nat (shapeidx f)
      in (idx0 myface + v, idx1 myface + v, idx2 myface + v))"
  by (simp add: flat_face_def Let_def)

lemma fill_faces_ok:
  assumes ok: "layout_ok L" and len: "numfaces L \<le> int (length reordering)"
    and rng: "\<forall>i. 0 \<le> i \<and> i < numfaces L \<longrightarrow> 0 \<le> reordering ! nat i \<and> reordering ! nat i < numfaces L"
    and fit: "indices_fit L"
  shows "\<exists>facedata. fill_faces L reordering = Some facedata \<and> length facedata = nat (numfaces L) \<and>
      (\<forall>i. 0 \<le> i \<and> i < numfaces L \<longrightarrow> facedata ! nat i = Some (flat_face L (reordering ! nat i)))"
proof -
  have "\<exists>ys. for_loop 0 (numfaces L) (face_step L reordering) (replicate (nat (numfaces L)) None) = Some ys \<and>
      length ys = length (replicate (nat (numfaces L)) (None :: face option)) \<and>
      (\<forall>j. 0 \<le> j \<and> j < numfaces L \<longrightarrow> ys ! nat (0 + j) = Some (flat_face L (reordering ! nat j))) \<and>
      (\<forall>p. p < nat 0 \<or> nat (0 + numfaces L) \<le> p \<longrightarrow> ys ! p = replicate (nat (numfaces L)) None ! p)"
  proof (rule fill_loop)
    show "(0::int) \<le> 0" by simp
    show "0 + numfaces L \<le> int (length (replicate (nat (numfaces L)) (None :: face option)))" by simp
  next
    fix j and ys :: "face option list"
    assume "0 \<le> j" "j < numfaces L"
    then show "face_step L reordering j ys = vec_set ys (0 + j) (Some (flat_face L (reordering ! nat j)))"
      using face_step_ok [OF ok, of j reordering ys] len rng fit by simp
  qed
  then show ?thesis by (auto simp: fill_faces_def)
qed

subsection \<open>The upload\<close>

lemma stack_bytes_eq: "stack_bytes = 50331648"
  by (simp add: stack_bytes_def kMaxBatchSize_def kMaxStackSize_def)

lemma upload_eq:
  fixes env :: "('v, 'm, 'b, 'h, 'n) externals"
  assumes "fill_vertices env L = Some vertexdata" and "fill_faces L (GetIndices env bvh) = Some facedata"
  shows "upload env L shapedata bvh s = Some (uploaded env L shapedata bvh vertexdata facedata s)"
  using assms
  by (simp add: upload_def uploaded_def CreateBuffer_def UnmapBuffer_def Let_def stack_bytes_def eval_nat_numeral)

subsection \<open>Slots of the flattened arrays\<close>

lemma faces_before_0: "faces_before shs 0 = 0"
  by (simp add: faces_before_def)

lemma vertices_before_mono:
  assumes "a \<le> b" "b \<le> length shs"
  shows "vertices_before shs a \<le> vertices_before shs b"
proof -
  have "int a \<le> int b \<Longrightarrow> int b \<le> int (length shs) \<Longrightarrow>
      vertices_before shs (nat (int a)) \<le> vertices_before shs (nat (int b))"
    by (rule start_mono [where lo = 0 and hi = "int (length shs)"
          and sz = "\<lambda>i. num_vertices (geometry (shs ! nat i))"
          and start = "\<lambda>i. vertices_before shs (nat i)"])
       (simp_all add: num_vertices_nonneg nat_add_distrib vertices_before_Suc)
  with assms show ?thesis by simp
qed

lemma face_slot:
  assumes ok: "layout_ok L" and i: "0 \<le> i" "i < numshapes L"
    and j: "0 \<le> j" "j < num_faces (geometry (shapes L ! nat i))"
  shows "mesh_faces_start_idx L ! nat i = faces_before (shapes L) (nat i)"
    and "0 \<le> mesh_faces_start_idx L ! nat i + j"
    and "mesh_faces_start_idx L ! nat i + j < numfaces L"
proof -
  have r: "nat i < length (shapes L)" using layout_counts(5) [OF ok] i by simp
  show eq: "mesh_faces_start_idx L ! nat i = faces_before (shapes L) (nat i)"
    using ok r by (simp add: layout_ok_def)
  have "faces_before (shapes L) 0 \<le> faces_before (shapes L) (nat i)"
    using r by (intro faces_before_mono) simp_all
  then show "0 \<le> mesh_faces_start_idx L ! nat i + j"
    using eq j by (simp add: faces_before_0)
  have "faces_before (shapes L) (Suc (nat i)) \<le> faces_before (shapes L) (length (shapes L))"
    using r by (intro faces_before_mono) simp_all
  moreover have "numfaces L = faces_before (shapes L) (length (shapes L))"
    using ok by (simp add: layout_ok_def)
  ultimately show "mesh_faces_start_idx L ! nat i + j < numfaces L"
    using eq j r by (simp add: faces_before_Suc)
qed

lemma vertex_slot:
  assumes ok: "layout_ok L" and i: "0 \<le> i" "i < numshapes L"
    and j: "0 \<le> j" "j < num_vertices (geometry (shapes L ! nat i))"
  shows "mesh_vertices_start_idx L ! nat i = vertices_before (shapes L) (nat i)"
    and "0 \<le> mesh_vertices_start_idx L ! nat i + j"
    and "mesh_vertices_start_idx L ! nat i + j < numvertices L"
proof -
  have r: "nat i < length (shapes L)" using layout_counts(5) [OF ok] i by simp
  show eq: "mesh_vertices_start_idx L ! nat i = vertices_before (shapes L) (nat i)"
    using ok r by (simp add: layout_ok_def)
  have "vertices_before (shapes L) 0 \<le> vertices_before (shapes L) (nat i)"
    using r by (intro vertices_before_mono) simp_all
  then show "0 \<le> mesh_vertices_start_idx L ! nat i + j"
    using eq j by (simp add: vertices_before_def)
  have "vertices_before (shapes L) (Suc (nat i)) \<le> vertices_before (shapes L) (length (shapes L))"
    using r by (intro vertices_before_mono) simp_all
  moreover have "numvertices L = vertices_before (shapes L) (length (shapes L))"
    using ok by (simp add: layout_ok_def)
  ultimately show "mesh_vertices_start_idx L ! nat i + j < numvertices L"
    using eq j r by (simp add: vertices_before_Suc)
qed

lemma world_bound_case:
  "world_bound env sh j =
     (case sh of
        MeshShape mesh \<Rightarrow> GetFaceBounds env mesh j False
      | InstanceShape inst \<Rightarrow>
          transform_bbox env (GetFaceBounds env (base_shape inst) j True) (fst (inst_transform inst)))"
  by (cases sh) simp_all

lemma world_vertex_case:
  "world_vertex env sh j =
     (case sh of
        MeshShape mesh \<Rightarrow> transform_point env (vertex_data mesh ! nat j) (fst (mesh_transform mesh))
      | InstanceShape inst \<Rightarrow>
          transform_point env (vertex_data (base_shape inst) ! nat j) (fst (inst_transform inst)))"
  by (cases sh) simp_all

subsection \<open>Claim C3: the face bounds\<close>

lemma ex_counts_fit: "counts_fit ex_world"
  by (simp add: counts_fit_def total_faces_def total_vertices_def ex_world_def ex_counts INT_MAX_def
      ex_instance_def)

text \<open>
  Claim C3, for a world whose numbers of shapes, faces and vertices are values of
  \<^verbatim>\<open>int\<close> (so that the counters of lines 173 to 228 do not overflow): the offset
  stage and the bounds stage succeed, and during bounds building the bound of face
  \<open>j\<close> of shape \<open>k\<close> is written to index \<open>mesh_faces_start_idx[k] + j\<close>; for a
  mesh shape it is the bound the mesh gives in world space
  (\<^verbatim>\<open>GetFaceBounds(j, false)\<close>), for an instance shape it is \<^verbatim>\<open>transform_bbox\<close> of
  the base mesh's object-space bound with the instance's forward matrix.
\<close>

theorem bounds_written:
  fixes env :: "('v, 'm, 'b, 'h, 'n) externals"
  assumes "counts_fit w"
  shows "\<exists>L bounds shapedata.
     scene_layout w = Some L \<and> build_bounds env L = Some (bounds, shapedata) \<and>
     (\<forall>k j. 0 \<le> k \<and> k < numshapes L \<and> 0 \<le> j \<and> j < num_faces (geometry (shapes L ! nat k)) \<longrightarrow>
        vec_at bounds (mesh_faces_start_idx L ! nat k + j) =
          Some (case shapes L ! nat k of
                  MeshShape mesh \<Rightarrow> GetFaceBounds env mesh j False
                | InstanceShape inst \<Rightarrow>
                    transform_bbox env (GetFaceBounds env (base_shape inst) j True)
                      (fst (inst_transform inst))))"
proof -
  obtain L where L: "scene_layout w = Some L" "layout_ok L"
    using scene_layout_ok [OF assms] by blast
  obtain bounds shapedata where b: "build_bounds env L = Some (bounds, shapedata)"
    "length bounds = nat (numfaces L)"
    and vals: "\<And>i j. 0 \<le> i \<Longrightarrow> i < int (length (shapes L)) \<Longrightarrow> 0 \<le> j \<Longrightarrow>
        j < num_faces (geometry (shapes L ! nat i)) \<Longrightarrow>
        bounds ! nat (faces_before (shapes L) (nat i) + j) = world_bound env (shapes L ! nat i) j"
    using build_bounds_ok [OF L(2), of env] by blast
  have "\<forall>k j. 0 \<le> k \<and> k < numshapes L \<and> 0 \<le> j \<and> j < num_faces (geometry (shapes L ! nat k)) \<longrightarrow>
        vec_at bounds (mesh_faces_start_idx L ! nat k + j) = Some (world_bound env (shapes L ! nat k) j)"
  proof (intro allI impI)
    fix k j assume kj: "0 \<le> k \<and> k < numshapes L \<and> 0 \<le> j \<and> j < num_faces (geometry (shapes L ! nat k))"
    then have s: "mesh_faces_start_idx L ! nat k = faces_before (shapes L) (nat k)"
      "0 \<le> mesh_faces_start_idx L ! nat k + j" "mesh_faces_start_idx L ! nat k + j < numfaces L"
      using face_slot [OF L(2), of k j] by simp_all
    have "vec_at bounds (mesh_faces_start_idx L ! nat k + j) = Some (bounds ! nat (mesh_faces_start_idx L ! nat k + j))"
      using s(2,3) b(2) by (intro vec_at_Some) simp_all
    moreover have "bounds ! nat (faces_before (shapes L) (nat k) + j) = world_bound env (shapes L ! nat k) j"
      using kj layout_counts(5) [OF L(2)] by (intro vals) simp_all
    ultimately show "vec_at bounds (mesh_faces_start_idx L ! nat k + j) = Some (world_bound env (shapes L ! nat k) j)"
      using s(1) by simp
  qed
  then show ?thesis
    using L(1) b(1) by (simp add: world_bound_case)
qed

theorem bounds_written_witness:
  "counts_fit ex_world \<and>
   (\<exists>L bounds shapedata.
     scene_layout ex_world = Some L \<and> build_bounds ex_env L = Some (bounds, shapedata) \<and>
     shapes L ! 2 = InstanceShape ex_instance \<and> mesh_faces_start_idx L ! 2 = 3 \<and>
     vec_at bounds 3 = Some (transform_bbox ex_env (GetFaceBounds ex_env ex_mesh1 0 True) 5000) \<and>
     shapes L ! 0 = MeshShape ex_mesh2 \<and> mesh_faces_start_idx L ! 0 = 0 \<and>
     vec_at bounds 1 = Some (GetFaceBounds ex_env ex_mesh2 1 False))"
proof -
  obtain L bounds shapedata where r: "scene_layout ex_world = Some L"
    "build_bounds ex_env L = Some (bounds, shapedata)"
    and all: "\<forall>k j. 0 \<le> k \<and> k < numshapes L \<and> 0 \<le> j \<and> j < num_faces (geometry (shapes L ! nat k)) \<longrightarrow>
        vec_at bounds (mesh_faces_start_idx L ! nat k + j) =
          Some (case shapes L ! nat k of
                  MeshShape mesh \<Rightarrow> GetFaceBounds ex_env mesh j False
                | InstanceShape inst \<Rightarrow>
                    transform_bbox ex_env (GetFaceBounds ex_env (base_shape inst) j True)
                      (fst (inst_transform inst)))"
    using bounds_written [OF ex_counts_fit, of ex_env] by blast
  have L: "L = ex_L" using r(1) by (simp add: ex_scene_layout)
  have "vec_at bounds 3 = Some (transform_bbox ex_env (GetFaceBounds ex_env ex_mesh1 0 True) 5000)"
    using all [rule_format, of 2 0] by (simp add: L ex_L_def ex_counts ex_data)
  moreover have "vec_at bounds 1 = Some (GetFaceBounds ex_env ex_mesh2 1 False)"
    using all [rule_format, of 0 1] by (simp add: L ex_L_def ex_counts ex_data)
  ultimately show ?thesis
    using r ex_counts_fit by (simp add: L ex_L_def)
qed

subsection \<open>The control flow of Preprocess\<close>

lemma alloc_limit_eq: "alloc_limit = 201326592"
  by (simp add: alloc_limit_def kMaxBatchSize_def kMaxStackSize_def sizeof_int_def)

lemma built_bvh_Some:
  assumes "built_bvh env w = Some bvh"
  shows "\<exists>L bounds shapedata. scene_layout w = Some L \<and> build_bounds env L = Some (bounds, shapedata) \<and>
     bvh = Build env (bvh_builder w = Some ''sah'') bounds (numfaces L)"
  using assms by (auto simp: built_bvh_def split: Option.bind_splits)

lemma built_bvh_total:
  fixes env :: "('v, 'm, 'b, 'h, 'n) externals"
  assumes "counts_fit w"
  shows "\<exists>L bounds shapedata. scene_layout w = Some L \<and> layout_ok L \<and>
     build_bounds env L = Some (bounds, shapedata) \<and>
     built_bvh env w = Some (Build env (bvh_builder w = Some ''sah'') bounds (numfaces L))"
proof -
  obtain L where L: "scene_layout w = Some L" "layout_ok L"
    using scene_layout_ok [OF assms] by blast
  obtain bounds shapedata where b: "build_bounds env L = Some (bounds, shapedata)"
    using build_bounds_ok [OF L(2), of env] by blast
  show ?thesis using L b by (simp add: built_bvh_def)
qed

lemma Preprocess_rebuild:
  assumes "needs_rebuild w s" and "release_primary s = Some dev"
    and "scene_layout w = Some L" and "build_bounds env L = Some (bounds, shapedata)"
    and "built_bvh env w = Some bvh"
  shows "Preprocess env w s =
     (if max_alloc_size dev \<le> alloc_limit
      then Some (Threw CannotAllocateStackMemory (s\<lparr>m_device := dev\<rparr>))
      else if kMaxStackSize \<le> height env bvh
      then Some (Threw StackOverflowRisk (s\<lparr>m_device := dev, m_bvh := None\<rparr>))
      else map_option Returned (upload env L shapedata bvh (s\<lparr>m_device := dev, m_bvh := Some bvh\<rparr>)))"
proof -
  have bvh: "bvh = Build env (bvh_builder w = Some ''sah'') bounds (numfaces L)"
    using assms(3,4,5) by (simp add: built_bvh_def)
  show ?thesis
    using assms(1,2,3,4)
    by (cases "upload env L shapedata bvh (s\<lparr>m_device := dev, m_bvh := Some bvh\<rparr>)")
       (simp_all add: Preprocess_def Let_def bvh)
qed

lemma Preprocess_no_rebuild: "\<not> needs_rebuild w s \<Longrightarrow> Preprocess env w s = Some (Returned s)"
  by (simp add: Preprocess_def)

subsection \<open>Claim C5: the height check\<close>

text \<open>
  Claim C5: once Preprocess has passed the allocation check and built the BVH, it
  throws the stack-overflow error exactly when \<^verbatim>\<open>height()\<close> of that BVH is at
  least \<^verbatim>\<open>kMaxStackSize\<close> = 48; the strategy then holds no BVH.  With a lower
  BVH it goes on to the translation and the upload, whose result it returns.
\<close>

theorem height_check:
  assumes "needs_rebuild w s" and "release_primary s = Some dev"
    and "alloc_limit < max_alloc_size dev" and "built_bvh env w = Some bvh"
  shows "kMaxStackSize = 48 \<and>
     ((\<exists>s'. Preprocess env w s = Some (Threw StackOverflowRisk s')) \<longleftrightarrow> kMaxStackSize \<le> height env bvh) \<and>
     (if kMaxStackSize \<le> height env bvh
      then Preprocess env w s = Some (Threw StackOverflowRisk (s\<lparr>m_device := dev, m_bvh := None\<rparr>)) \<and>
           m_bvh (s\<lparr>m_device := dev, m_bvh := None\<rparr>) = None
      else \<exists>L bounds shapedata. scene_layout w = Some L \<and> build_bounds env L = Some (bounds, shapedata) \<and>
           Preprocess env w s =
             map_option Returned (upload env L shapedata bvh (s\<lparr>m_device := dev, m_bvh := Some bvh\<rparr>)))"
proof -
  obtain L bounds shapedata where L: "scene_layout w = Some L" "build_bounds env L = Some (bounds, shapedata)"
    using built_bvh_Some [OF assms(4)] by blast
  note P = Preprocess_rebuild [OF assms(1,2) L assms(4)]
  show ?thesis
  proof (cases "kMaxStackSize \<le> height env bvh")
    case True
    with P assms(3) show ?thesis by (simp add: kMaxStackSize_def)
  next
    case False
    with P assms(3) L show ?thesis
      by (cases "upload env L shapedata bvh (s\<lparr>m_device := dev, m_bvh := Some bvh\<rparr>)")
         (simp_all add: kMaxStackSize_def)
  qed
qed

lemma ex_fresh:
  "needs_rebuild w (new_strategy dev)"
  "release_primary (new_strategy dev) = Some dev"
  by (simp_all add: needs_rebuild_def release_primary_def new_strategy_def)

lemma ex_build_bounds_deep:
  "build_bounds ex_env_deep ex_L =
     Some ([2200, 2201, 1200, 500000],
           [\<lparr>shape_id = 12, shape_mask = 1\<rparr>, \<lparr>shape_id = 11, shape_mask = 1\<rparr>,
            \<lparr>shape_id = 21, shape_mask = 1\<rparr>])"
  by (simp add: build_bounds_def ex_L_def ex_env_deep_def ex_env_def ex_counts ex_data for_loop.simps
      mesh_bounds_def instance_bounds_def mesh_bounds_step_def instance_bounds_step_def set_shapedata_def
      mesh_at_def instance_at_def vec_at_def vec_set_def numeral_3_eq_3 numeral_2_eq_2 eval_nat_numeral
      int_add_def int_ok_def INT_MAX_def INT_MIN_def)

lemma ex_built_bvh:
  "built_bvh ex_env ex_world = Some (2, [3, 2, 1, 0])"
  "built_bvh ex_env_deep ex_world = Some (48, [3, 2, 1, 0])"
  by (simp_all add: built_bvh_def ex_scene_layout ex_build_bounds_deep ex_build_bounds)
     (simp_all add: ex_env_def ex_env_deep_def ex_L_def upt_rec)

lemma ex_alloc: "alloc_limit < max_alloc_size ex_device"
  by (simp add: alloc_limit_eq ex_device_def)

theorem height_check_witness:
  "Preprocess ex_env_deep ex_world (new_strategy ex_device) =
     Some (Threw StackOverflowRisk (new_strategy ex_device)) \<and>
   Preprocess ex_env ex_world (new_strategy ex_device) =
     map_option Returned
       (upload ex_env ex_L
          [\<lparr>shape_id = 12, shape_mask = 1\<rparr>, \<lparr>shape_id = 11, shape_mask = 1\<rparr>, \<lparr>shape_id = 21, shape_mask = 1\<rparr>]
          (2, [3, 2, 1, 0])
          ((new_strategy ex_device)\<lparr>m_bvh := Some (2, [3, 2, 1, 0])\<rparr>))"
proof -
  have deep: "height ex_env_deep (48, [3, 2, 1, 0]) = 48" and flat: "height ex_env (2, [3, 2, 1, 0]) = 2"
    by (simp_all add: ex_env_deep_def ex_env_def)
  have "Preprocess ex_env_deep ex_world (new_strategy ex_device) =
     Some (Threw StackOverflowRisk (new_strategy ex_device))"
    using height_check [OF ex_fresh ex_alloc ex_built_bvh(2)]
    by (simp add: deep kMaxStackSize_def new_strategy_def)
  moreover have "Preprocess ex_env ex_world (new_strategy ex_device) =
     map_option Returned
       (upload ex_env ex_L
          [\<lparr>shape_id = 12, shape_mask = 1\<rparr>, \<lparr>shape_id = 11, shape_mask = 1\<rparr>, \<lparr>shape_id = 21, shape_mask = 1\<rparr>]
          (2, [3, 2, 1, 0])
          ((new_strategy ex_device)\<lparr>m_bvh := Some (2, [3, 2, 1, 0])\<rparr>))"
    using height_check [OF ex_fresh ex_alloc ex_built_bvh(1)]
    by (simp add: flat kMaxStackSize_def new_strategy_def ex_scene_layout ex_build_bounds)
  ultimately show ?thesis by simp
qed

subsection \<open>Claim C6: the allocation check\<close>

lemma delete_max_alloc: "DeleteBuffer p dev = Some dev' \<Longrightarrow> max_alloc_size dev' = max_alloc_size dev"
  by (auto simp: DeleteBuffer_def split: option.splits)

lemma delete_next_buffer: "DeleteBuffer p dev = Some dev' \<Longrightarrow> next_buffer dev' = next_buffer dev"
  by (auto simp: DeleteBuffer_def split: option.splits)

lemma delete_primary_max_alloc:
  "delete_primary g dev = Some dev' \<Longrightarrow> max_alloc_size dev' = max_alloc_size dev"
  by (auto simp: delete_primary_def split: Option.bind_splits dest!: delete_max_alloc)

lemma release_max_alloc:
  "release_primary s = Some dev \<Longrightarrow> max_alloc_size dev = max_alloc_size (m_device s)"
  by (auto simp: release_primary_def delete_primary_max_alloc split: if_splits)

text \<open>
  Claim C6, as the code has it: a Preprocess that rebuilds throws the
  insufficient-stack-memory error exactly when \<^verbatim>\<open>max_alloc_size\<close> of the device is
  less than or equal to \<^verbatim>\<open>kMaxBatchSize * kMaxStackSize * sizeof(int)\<close> =
  1,048,576 * 48 * 4 bytes (the comparison of line 168 is \<^verbatim>\<open><=\<close>); with a larger
  \<^verbatim>\<open>max_alloc_size\<close> the check passes.
\<close>

theorem alloc_check:
  assumes "needs_rebuild w s" and "release_primary s = Some dev"
  shows "alloc_limit = 1048576 * 48 * 4 \<and>
     ((\<exists>s'. Preprocess env w s = Some (Threw CannotAllocateStackMemory s')) \<longleftrightarrow>
      max_alloc_size (m_device s) \<le> alloc_limit)"
proof -
  have m: "max_alloc_size dev = max_alloc_size (m_device s)" using assms(2) by (rule release_max_alloc)
  have "(\<exists>s'. Preprocess env w s = Some (Threw CannotAllocateStackMemory s')) \<longleftrightarrow>
      max_alloc_size dev \<le> alloc_limit"
  proof (cases "max_alloc_size dev \<le> alloc_limit")
    case True
    then have "Preprocess env w s = Some (Threw CannotAllocateStackMemory (s\<lparr>m_device := dev\<rparr>))"
      using assms by (simp add: Preprocess_def)
    with True show ?thesis by simp
  next
    case False
    have "Preprocess env w s \<noteq> Some (Threw CannotAllocateStackMemory s')" for s'
      using assms False
      by (auto simp: Preprocess_def Let_def split: Option.bind_splits if_splits prod.splits)
    with False show ?thesis by simp
  qed
  then show ?thesis using m by (simp add: alloc_limit_eq)
qed

theorem alloc_check_witness:
  "alloc_limit = 1048576 * 48 * 4 \<and>
   (\<exists>s'. Preprocess ex_env ex_world (new_strategy (ex_device\<lparr>max_alloc_size := 1000\<rparr>)) =
       Some (Threw CannotAllocateStackMemory s')) \<and>
   \<not> (\<exists>s'. Preprocess ex_env ex_world (new_strategy ex_device) =
       Some (Threw CannotAllocateStackMemory s'))"
  using alloc_check [OF ex_fresh, where w = ex_world and dev = "ex_device\<lparr>max_alloc_size := 1000\<rparr>" and env = ex_env]
    alloc_check [OF ex_fresh, where w = ex_world and dev = ex_device and env = ex_env]
  by (simp add: alloc_limit_eq new_strategy_def ex_device_def)

text \<open>
  Claim C6, as stated: Preprocess would throw only when \<^verbatim>\<open>max_alloc_size\<close> is less
  than the bound.  A device whose \<^verbatim>\<open>max_alloc_size\<close> is exactly the bound is not
  below it, and Preprocess still throws.
\<close>

theorem alloc_check_at_the_bound:
  "\<not> max_alloc_size (ex_device\<lparr>max_alloc_size := 1048576 * 48 * 4\<rparr>) < 1048576 * 48 * 4 \<and>
   Preprocess ex_env ex_world (new_strategy (ex_device\<lparr>max_alloc_size := 1048576 * 48 * 4\<rparr>)) =
     Some (Threw CannotAllocateStackMemory (new_strategy (ex_device\<lparr>max_alloc_size := 1048576 * 48 * 4\<rparr>)))"
  by (simp add: Preprocess_def needs_rebuild_def release_primary_def alloc_limit_eq new_strategy_def)

subsection \<open>Claim C1: the face buffer\<close>

lemma uploaded_buffers:
  "vertex_buffer (uploaded env L shapedata bvh vertexdata facedata s) = Some vertexdata"
  "face_buffer (uploaded env L shapedata bvh vertexdata facedata s) = Some facedata"
  "m_bvh (uploaded env L shapedata bvh vertexdata facedata s) = m_bvh s"
  by (simp_all add: uploaded_def vertex_buffer_def face_buffer_def buffer_at_def Let_def)

lemma Preprocess_returns:
  fixes env :: "('v, 'm, 'b, 'h, 'n) externals"
  assumes rb: "needs_rebuild w s" and rel: "release_primary s = Some dev"
    and alloc: "alloc_limit < max_alloc_size dev"
    and cf: "counts_fit w" and L: "scene_layout w = Some L" and fit: "indices_fit L"
    and bvh: "built_bvh env w = Some bvh"
    and h: "height env bvh < kMaxStackSize"
    and len: "numfaces L \<le> int (length (GetIndices env bvh))"
    and rng: "\<forall>i. 0 \<le> i \<and> i < numfaces L \<longrightarrow>
        0 \<le> GetIndices env bvh ! nat i \<and> GetIndices env bvh ! nat i < numfaces L"
  shows "\<exists>shapedata vertexdata facedata.
      fill_vertices env L = Some vertexdata \<and> fill_faces L (GetIndices env bvh) = Some facedata \<and>
      Preprocess env w s =
        Some (Returned (uploaded env L shapedata bvh vertexdata facedata (s\<lparr>m_device := dev, m_bvh := Some bvh\<rparr>)))"
proof -
  have ok: "layout_ok L" using scene_layout_ok [OF cf] L by simp
  obtain bounds shapedata where b: "build_bounds env L = Some (bounds, shapedata)"
    using build_bounds_ok [OF ok, of env] by blast
  obtain vertexdata where v: "fill_vertices env L = Some vertexdata"
    using fill_vertices_total [OF ok, of env] by blast
  obtain facedata where f: "fill_faces L (GetIndices env bvh) = Some facedata"
    using fill_faces_ok [OF ok len rng fit] by blast
  have "Preprocess env w s =
      map_option Returned (upload env L shapedata bvh (s\<lparr>m_device := dev, m_bvh := Some bvh\<rparr>))"
    using Preprocess_rebuild [OF rb rel L b bvh] alloc h by simp
  then have "Preprocess env w s =
      Some (Returned (uploaded env L shapedata bvh vertexdata facedata (s\<lparr>m_device := dev, m_bvh := Some bvh\<rparr>)))"
    using v f by (simp add: upload_eq)
  with v f show ?thesis by blast
qed

text \<open>
  Claim C1, for a world whose counts are values of \<^verbatim>\<open>int\<close> and whose face
  indices and index sums of lines 412 to 414 are values of \<^verbatim>\<open>int\<close> (no
  \<^verbatim>\<open>int\<close> operation of Preprocess overflows): after a Preprocess that rebuilds, with the index array of
  the built BVH a valid face order, and under every schedule of the parallel loops,
  the face buffer holds at every position \<open>i\<close> below \<open>numfaces\<close> a record
  \<open>f\<close> with \<open>mesh_faces_start_idx[shapeidx] + id = GetIndices()[i]\<close>, whose
  three vertex indices are those of face \<open>id\<close> of the (base) mesh of shape
  \<open>shapeidx\<close> plus \<open>mesh_vertices_start_idx[shapeidx]\<close>, and whose \<open>cnt\<close> is 0.
\<close>

theorem faces_written:
  fixes env :: "('v, 'm, 'b, 'h, 'n) externals"
  assumes "needs_rebuild w s" and "release_primary s = Some dev"
    and "alloc_limit < max_alloc_size dev"
    and "counts_fit w" and "scene_layout w = Some L" and "indices_fit L"
    and "built_bvh env w = Some bvh"
    and "height env bvh < kMaxStackSize"
    and "numfaces L \<le> int (length (GetIndices env bvh))"
    and "\<forall>i. 0 \<le> i \<and> i < numfaces L \<longrightarrow>
        0 \<le> GetIndices env bvh ! nat i \<and> GetIndices env bvh ! nat i < numfaces L"
  shows "\<exists>s' facedata.
      Preprocess env w s = Some (Returned s') \<and> face_buffer s' = Some facedata \<and>
      length facedata = nat (numfaces L) \<and>
      (\<forall>i. 0 \<le> i \<and> i < numfaces L \<longrightarrow>
        (\<exists>f. facedata ! nat i = Some f \<and>
           0 \<le> shapeidx f \<and> shapeidx f < numshapes L \<and>
           0 \<le> face_id f \<and> face_id f < num_faces (geometry (shapes L ! nat (shapeidx f))) \<and>
           mesh_faces_start_idx L ! nat (shapeidx f) + face_id f = GetIndices env bvh ! nat i \<and>
           idx f =
             (let myface = face_data (geometry (shapes L ! nat (shapeidx f))) ! nat (face_id f);
                  mystartidx = mesh_vertices_start_idx L ! nat (shapeidx f)
              in (idx0 myface + mystartidx, idx1 myface + mystartidx, idx2 myface + mystartidx)) \<and>
           cnt f = 0))"
proof -
  have ok: "layout_ok L" using scene_layout_ok [OF assms(4)] assms(5) by simp
  obtain shapedata vertexdata facedata where
    f: "fill_faces L (GetIndices env bvh) = Some facedata"
    and P: "Preprocess env w s =
        Some (Returned (uploaded env L shapedata bvh vertexdata facedata (s\<lparr>m_device := dev, m_bvh := Some bvh\<rparr>)))"
    using Preprocess_returns [OF assms] by blast
  obtain fd where fd: "fill_faces L (GetIndices env bvh) = Some fd" "length fd = nat (numfaces L)"
    and vals: "\<And>i. 0 \<le> i \<Longrightarrow> i < numfaces L \<Longrightarrow> fd ! nat i = Some (flat_face L (GetIndices env bvh ! nat i))"
    using fill_faces_ok [OF ok assms(9,10,6)] by blast
  have eq: "fd = facedata" using f fd(1) by simp
  have "\<forall>i. 0 \<le> i \<and> i < numfaces L \<longrightarrow>
        (\<exists>f. facedata ! nat i = Some f \<and>
           0 \<le> shapeidx f \<and> shapeidx f < numshapes L \<and>
           0 \<le> face_id f \<and> face_id f < num_faces (geometry (shapes L ! nat (shapeidx f))) \<and>
           mesh_faces_start_idx L ! nat (shapeidx f) + face_id f = GetIndices env bvh ! nat i \<and>
           idx f =
             (let myface = face_data (geometry (shapes L ! nat (shapeidx f))) ! nat (face_id f);
                  mystartidx = mesh_vertices_start_idx L ! nat (shapeidx f)
              in (idx0 myface + mystartidx, idx1 myface + mystartidx, idx2 myface + mystartidx)) \<and>
           cnt f = 0)"
  proof (intro allI impI)
    fix i assume i: "0 \<le> i \<and> i < numfaces L"
    define x where "x = GetIndices env bvh ! nat i"
    have x: "0 \<le> x" "x < numfaces L" using assms(10) i by (simp_all add: x_def)
    have "facedata ! nat i = Some (flat_face L x)" using vals [of i] i eq by (simp add: x_def)
    moreover note flat_face_props [OF ok x] flat_face_idx [of L x]
    ultimately show "\<exists>f. facedata ! nat i = Some f \<and>
           0 \<le> shapeidx f \<and> shapeidx f < numshapes L \<and>
           0 \<le> face_id f \<and> face_id f < num_faces (geometry (shapes L ! nat (shapeidx f))) \<and>
           mesh_faces_start_idx L ! nat (shapeidx f) + face_id f = GetIndices env bvh ! nat i \<and>
           idx f =
             (let myface = face_data (geometry (shapes L ! nat (shapeidx f))) ! nat (face_id f);
                  mystartidx = mesh_vertices_start_idx L ! nat (shapeidx f)
              in (idx0 myface + mystartidx, idx1 myface + mystartidx, idx2 myface + mystartidx)) \<and>
           cnt f = 0"
      unfolding x_def [symmetric] by (intro exI [of _ "flat_face L x"]) (simp add: Let_def)
  qed
  then show ?thesis
    using P fd(2) eq by (simp add: uploaded_buffers)
qed

lemma ex_indices_fit: "indices_fit ex_L"
  unfolding indices_fit_def
proof (intro allI impI ballI)
  fix k f assume k: "k < length (shapes ex_L)"
    and f: "f \<in> set (face_data (geometry (shapes ex_L ! k)))"
  from k have "k = 0 \<or> k = 1 \<or> k = 2" by (simp add: ex_L_def) arith
  then show "int_ok (idx0 f) \<and> int_ok (idx1 f) \<and> int_ok (idx2 f) \<and>
        int_ok (idx0 f + mesh_vertices_start_idx ex_L ! k) \<and>
        int_ok (idx1 f + mesh_vertices_start_idx ex_L ! k) \<and>
        int_ok (idx2 f + mesh_vertices_start_idx ex_L ! k)"
    using f by (auto simp: ex_L_def ex_data ex_counts int_ok_def INT_MAX_def INT_MIN_def)
qed

lemma ex_indices:
  "height ex_env (2, [3, 2, 1, 0]) < kMaxStackSize"
  "numfaces ex_L \<le> int (length (GetIndices ex_env (2, [3, 2, 1, 0])))"
  "\<forall>i. 0 \<le> i \<and> i < numfaces ex_L \<longrightarrow>
     0 \<le> GetIndices ex_env (2, [3, 2, 1, 0]) ! nat i \<and> GetIndices ex_env (2, [3, 2, 1, 0]) ! nat i < numfaces ex_L"
proof -
  show "height ex_env (2, [3, 2, 1, 0]) < kMaxStackSize"
    by (simp add: ex_env_def kMaxStackSize_def)
  show "numfaces ex_L \<le> int (length (GetIndices ex_env (2, [3, 2, 1, 0])))"
    by (simp add: ex_env_def ex_L_def)
  show "\<forall>i. 0 \<le> i \<and> i < numfaces ex_L \<longrightarrow>
     0 \<le> GetIndices ex_env (2, [3, 2, 1, 0]) ! nat i \<and> GetIndices ex_env (2, [3, 2, 1, 0]) ! nat i < numfaces ex_L"
  proof (intro allI impI)
    fix i :: int assume "0 \<le> i \<and> i < numfaces ex_L"
    then have "i = 0 \<or> i = 1 \<or> i = 2 \<or> i = 3" by (simp add: ex_L_def) arith
    then show "0 \<le> GetIndices ex_env (2, [3, 2, 1, 0]) ! nat i \<and>
        GetIndices ex_env (2, [3, 2, 1, 0]) ! nat i < numfaces ex_L"
      by (auto simp: ex_env_def ex_L_def)
  qed
qed

theorem faces_written_witness:
  "counts_fit ex_world \<and> indices_fit ex_L \<and>
   (\<exists>s' facedata.
      Preprocess ex_env ex_world (new_strategy ex_device) = Some (Returned s') \<and>
      face_buffer s' = Some facedata \<and> length facedata = 4 \<and>
      (\<exists>f. facedata ! 1 = Some f \<and>
           0 \<le> shapeidx f \<and> shapeidx f < 3 \<and>
           0 \<le> face_id f \<and> face_id f < num_faces (geometry (shapes ex_L ! nat (shapeidx f))) \<and>
           mesh_faces_start_idx ex_L ! nat (shapeidx f) + face_id f = 2 \<and>
           idx f =
             (let myface = face_data (geometry (shapes ex_L ! nat (shapeidx f))) ! nat (face_id f);
                  mystartidx = mesh_vertices_start_idx ex_L ! nat (shapeidx f)
              in (idx0 myface + mystartidx, idx1 myface + mystartidx, idx2 myface + mystartidx)) \<and>
           cnt f = 0))"
proof -
  obtain s' facedata where r: "Preprocess ex_env ex_world (new_strategy ex_device) = Some (Returned s')"
    "face_buffer s' = Some facedata" "length facedata = nat (numfaces ex_L)"
    and all: "\<forall>i. 0 \<le> i \<and> i < numfaces ex_L \<longrightarrow>
        (\<exists>f. facedata ! nat i = Some f \<and>
           0 \<le> shapeidx f \<and> shapeidx f < numshapes ex_L \<and>
           0 \<le> face_id f \<and> face_id f < num_faces (geometry (shapes ex_L ! nat (shapeidx f))) \<and>
           mesh_faces_start_idx ex_L ! nat (shapeidx f) + face_id f = GetIndices ex_env (2, [3, 2, 1, 0]) ! nat i \<and>
           idx f =
             (let myface = face_data (geometry (shapes ex_L ! nat (shapeidx f))) ! nat (face_id f);
                  mystartidx = mesh_vertices_start_idx ex_L ! nat (shapeidx f)
              in (idx0 myface + mystartidx, idx1 myface + mystartidx, idx2 myface + mystartidx)) \<and>
           cnt f = 0)"
    using faces_written [OF ex_fresh ex_alloc ex_counts_fit ex_scene_layout ex_indices_fit ex_built_bvh(1) ex_indices]
    by blast
  have n: "numfaces ex_L = 4" "numshapes ex_L = 3" "GetIndices ex_env (2, [3, 2, 1, 0]) ! nat 1 = 2"
    by (simp_all add: ex_L_def ex_env_def)
  from all [rule_format, of 1] obtain f where "facedata ! 1 = Some f \<and>
           0 \<le> shapeidx f \<and> shapeidx f < 3 \<and>
           0 \<le> face_id f \<and> face_id f < num_faces (geometry (shapes ex_L ! nat (shapeidx f))) \<and>
           mesh_faces_start_idx ex_L ! nat (shapeidx f) + face_id f = 2 \<and>
           idx f =
             (let myface = face_data (geometry (shapes ex_L ! nat (shapeidx f))) ! nat (face_id f);
                  mystartidx = mesh_vertices_start_idx ex_L ! nat (shapeidx f)
              in (idx0 myface + mystartidx, idx1 myface + mystartidx, idx2 myface + mystartidx)) \<and>
           cnt f = 0"
    using n by auto
  then show ?thesis using r n ex_counts_fit ex_indices_fit by auto
qed

subsection \<open>The example scene, preprocessed\<close>

lemma ex_GetIndices: "GetIndices ex_env (2, [3, 2, 1, 0]) = [3, 2, 1, 0]"
  by (simp add: ex_env_def)

lemma ex_preprocess: "Preprocess ex_env ex_world (new_strategy ex_device) = Some (Returned ex_ready)"
proof -
  have "Preprocess ex_env ex_world (new_strategy ex_device) =
     map_option Returned
       (upload ex_env ex_L
          [\<lparr>shape_id = 12, shape_mask = 1\<rparr>, \<lparr>shape_id = 11, shape_mask = 1\<rparr>, \<lparr>shape_id = 21, shape_mask = 1\<rparr>]
          (2, [3, 2, 1, 0])
          ((new_strategy ex_device)\<lparr>m_bvh := Some (2, [3, 2, 1, 0])\<rparr>))"
    using Preprocess_rebuild [OF ex_fresh ex_scene_layout ex_build_bounds ex_built_bvh(1)] ex_alloc ex_indices(1)
    by (simp add: new_strategy_def)
  then show ?thesis
    using upload_eq [OF ex_fill_vertices, of "(2, [3, 2, 1, 0])"] ex_fill_faces
    by (simp add: ex_GetIndices ex_ready_def)
qed

lemma ex_ready_stack:
  "gpu_stack (m_gpudata ex_ready) = Some 5"
  "GetSize (gpu_stack (m_gpudata ex_ready)) (m_device ex_ready) = Some 50331648"
  by (simp_all add: ex_ready_def uploaded_def Let_def new_strategy_def ex_device_def GetSize_def stack_bytes_eq)

lemma required_wraps: "required_stack_size 22369622 = 128"
  by (simp add: required_stack_size_def kMaxStackSize_def)

lemma relocate_stack_keep:
  assumes "GetSize (gpu_stack (m_gpudata s)) (m_device s) = Some cur" and "required_stack_size n \<le> cur"
  shows "relocate_stack n s = Some s"
  using assms by (simp add: relocate_stack_def Let_def)

subsection \<open>Outcomes of a rebuild, and the stack buffer in the queries\<close>

lemma Preprocess_outcomes:
  fixes env :: "('v, 'm, 'b, 'h, 'n) externals"
  assumes rb: "needs_rebuild w s" and P: "Preprocess env w s = Some out"
  shows "\<exists>dev. release_primary s = Some dev \<and>
     (out = Threw CannotAllocateStackMemory (s\<lparr>m_device := dev\<rparr>) \<or>
      out = Threw StackOverflowRisk (s\<lparr>m_device := dev, m_bvh := None\<rparr>) \<or>
      (\<exists>L shapedata bvh vertexdata facedata.
         out = Returned (uploaded env L shapedata bvh vertexdata facedata (s\<lparr>m_device := dev, m_bvh := Some bvh\<rparr>))))"
proof -
  obtain dev where dev: "release_primary s = Some dev"
    using rb P by (cases "release_primary s") (simp_all add: Preprocess_def)
  show ?thesis
  proof (cases "max_alloc_size dev \<le> alloc_limit")
    case True
    then have "Preprocess env w s = Some (Threw CannotAllocateStackMemory (s\<lparr>m_device := dev\<rparr>))"
      using rb dev by (simp add: Preprocess_def)
    with P dev show ?thesis by simp
  next
    case a: False
    obtain L where L1: "scene_layout w = Some L"
      using rb dev a P by (cases "scene_layout w") (simp_all add: Preprocess_def)
    obtain bounds shapedata where L2: "build_bounds env L = Some (bounds, shapedata)"
      using rb dev a P L1 by (cases "build_bounds env L") (auto simp: Preprocess_def)
    define bvh where "bvh = Build env (bvh_builder w = Some ''sah'') bounds (numfaces L)"
    have L3: "built_bvh env w = Some bvh" using L1 L2 by (simp add: built_bvh_def bvh_def)
    note R = Preprocess_rebuild [OF rb dev L1 L2 L3]
    show ?thesis
    proof (cases "kMaxStackSize \<le> height env bvh")
      case True
      with a R P dev show ?thesis by simp
    next
      case False
      with a R P have u: "map_option Returned (upload env L shapedata bvh (s\<lparr>m_device := dev, m_bvh := Some bvh\<rparr>)) = Some out"
        by simp
      then obtain s2 where s2: "upload env L shapedata bvh (s\<lparr>m_device := dev, m_bvh := Some bvh\<rparr>) = Some s2"
        "out = Returned s2" by auto
      obtain vertexdata where v: "fill_vertices env L = Some vertexdata"
        using s2(1) by (cases "fill_vertices env L") (simp_all add: upload_def CreateBuffer_def Let_def)
      obtain facedata where f: "fill_faces L (GetIndices env bvh) = Some facedata"
        using s2(1) v by (cases "fill_faces L (GetIndices env bvh)")
          (simp_all add: upload_def CreateBuffer_def UnmapBuffer_def Let_def)
      have "s2 = uploaded env L shapedata bvh vertexdata facedata (s\<lparr>m_device := dev, m_bvh := Some bvh\<rparr>)"
        using upload_eq [OF v f, of shapedata "s\<lparr>m_device := dev, m_bvh := Some bvh\<rparr>"] s2(1) by simp
      with s2(2) dev show ?thesis by blast
    qed
  qed
qed

lemma uploaded_stack:
  "gpu_stack (m_gpudata (uploaded env L shapedata bvh vertexdata facedata s)) = Some (next_buffer (m_device s) + 5)"
  "buffer_at (gpu_stack (m_gpudata (uploaded env L shapedata bvh vertexdata facedata s)))
     (m_device (uploaded env L shapedata bvh vertexdata facedata s)) =
   Some \<lparr>buf_size = stack_bytes, buf_data = Unwritten\<rparr>"
  by (simp_all add: uploaded_def Let_def buffer_at_def)

lemma GetSize_buffer_at: "GetSize p dev = map_option buf_size (buffer_at p dev)"
  by (simp add: GetSize_def buffer_at_def split: option.splits)

lemma rebuild_creates_stack:
  assumes "needs_rebuild w s" and "Preprocess env w s = Some (Returned s')"
  shows "GetSize (gpu_stack (m_gpudata s')) (m_device s') = Some (1048576 * 48)"
  using Preprocess_outcomes [OF assms]
  by (auto simp: GetSize_buffer_at uploaded_stack(2) stack_bytes_eq)

lemma required_no_wrap:
  assumes "4 * unat n * 48 < 2 ^ 32"
  shows "required_stack_size n = 4 * unat n * 48"
proof -
  have "unat (4 * n * 48) = (4 * unat n * 48) mod 2 ^ 32"
    by (simp add: unat_word_ariths mod_mult_left_eq mod_mult_right_eq)
  then show ?thesis using assms by (simp add: required_stack_size_def kMaxStackSize_def)
qed

lemma relocate_stack_grow:
  assumes "GetSize (gpu_stack (m_gpudata s)) (m_device s) = Some cur" and "cur < required_stack_size n"
  shows "\<exists>a. gpu_stack (m_gpudata s) = Some a \<and>
     relocate_stack n s =
       Some (s\<lparr>m_gpudata := (m_gpudata s)\<lparr>gpu_stack := Some (next_buffer (m_device s))\<rparr>,
               m_device := (m_device s)
                 \<lparr>buffers := (buffers (m_device s))(a := None),
                  next_buffer := Suc (next_buffer (m_device s)),
                  buffers := ((buffers (m_device s))(a := None))
                     (next_buffer (m_device s) \<mapsto> \<lparr>buf_size = required_stack_size n, buf_data = Unwritten\<rparr>)\<rparr>\<rparr>)"
  using assms
  by (auto simp: relocate_stack_def Let_def GetSize_def DeleteBuffer_def CreateBuffer_def
      split: option.splits)

text \<open>
  What the queries do to the stack while the 32-bit product does not wrap
  (\<open>4 * N * 48 < 2^32\<close>, that is \<open>N \<le> 22369621\<close>): the stack buffer ends with at
  least \<open>4 * N * 48\<close> bytes, and it is replaced exactly when it was smaller.
\<close>

lemma relocate_stack_no_wrap:
  assumes sz: "GetSize (gpu_stack (m_gpudata s)) (m_device s) = Some cur"
    and nw: "4 * unat n * 48 < 2 ^ 32"
  shows "\<exists>s'. relocate_stack n s = Some s' \<and>
     GetSize (gpu_stack (m_gpudata s')) (m_device s') = Some (max cur (4 * unat n * 48)) \<and>
     (s' \<noteq> s \<longleftrightarrow> cur < 4 * unat n * 48)"
proof (cases "cur < required_stack_size n")
  case True
  from relocate_stack_grow [OF sz True] obtain a where a: "gpu_stack (m_gpudata s) = Some a"
    "relocate_stack n s =
       Some (s\<lparr>m_gpudata := (m_gpudata s)\<lparr>gpu_stack := Some (next_buffer (m_device s))\<rparr>,
               m_device := (m_device s)
                 \<lparr>buffers := (buffers (m_device s))(a := None),
                  next_buffer := Suc (next_buffer (m_device s)),
                  buffers := ((buffers (m_device s))(a := None))
                     (next_buffer (m_device s) \<mapsto> \<lparr>buf_size = required_stack_size n, buf_data = Unwritten\<rparr>)\<rparr>\<rparr>)"
    by blast
  have ne: "s\<lparr>m_gpudata := (m_gpudata s)\<lparr>gpu_stack := Some (next_buffer (m_device s))\<rparr>,
               m_device := (m_device s)
                 \<lparr>buffers := (buffers (m_device s))(a := None),
                  next_buffer := Suc (next_buffer (m_device s)),
                  buffers := ((buffers (m_device s))(a := None))
                     (next_buffer (m_device s) \<mapsto> \<lparr>buf_size = required_stack_size n, buf_data = Unwritten\<rparr>)\<rparr>\<rparr> \<noteq> s"
  proof
    assume "s\<lparr>m_gpudata := (m_gpudata s)\<lparr>gpu_stack := Some (next_buffer (m_device s))\<rparr>,
               m_device := (m_device s)
                 \<lparr>buffers := (buffers (m_device s))(a := None),
                  next_buffer := Suc (next_buffer (m_device s)),
                  buffers := ((buffers (m_device s))(a := None))
                     (next_buffer (m_device s) \<mapsto> \<lparr>buf_size = required_stack_size n, buf_data = Unwritten\<rparr>)\<rparr>\<rparr> = s"
    then have "next_buffer (m_device (s\<lparr>m_gpudata := (m_gpudata s)\<lparr>gpu_stack := Some (next_buffer (m_device s))\<rparr>,
               m_device := (m_device s)
                 \<lparr>buffers := (buffers (m_device s))(a := None),
                  next_buffer := Suc (next_buffer (m_device s)),
                  buffers := ((buffers (m_device s))(a := None))
                     (next_buffer (m_device s) \<mapsto> \<lparr>buf_size = required_stack_size n, buf_data = Unwritten\<rparr>)\<rparr>\<rparr>)) =
        next_buffer (m_device s)" by simp
    then show False by simp
  qed
  show ?thesis
    using a(2) ne True required_no_wrap [OF nw]
    by (simp add: GetSize_def max_def)
next
  case False
  then have "relocate_stack n s = Some s"
    using relocate_stack_keep [OF sz] by simp
  then show ?thesis
    using False sz required_no_wrap [OF nw] by (simp add: max_def)
qed

subsection \<open>Claims C8 and C10: the stack buffer on large batches\<close>

lemma ex_relocate_wrapped: "relocate_stack 22369622 ex_ready = Some ex_ready"
  using relocate_stack_keep [OF ex_ready_stack(2), of 22369622]
  by (simp add: required_wraps)

text \<open>
  Claim C8 on the code, at \<open>N = 22369622\<close> rays after the Preprocess of the example
  scene: \<^verbatim>\<open>4 * N * kMaxStackSize\<close> is 4294967424, which the 32-bit product of
  lines 443, 476, 509 and 542 wraps to 128.  Each of the four queries therefore leaves
  the strategy as it was, with its stack buffer of 50331648 bytes, which is less than
  \<open>4 * N * 48\<close> and was neither destroyed nor reallocated.
\<close>

theorem query_stack_wraps:
  "Preprocess ex_env ex_world (new_strategy ex_device) = Some (Returned ex_ready) \<and>
   GetSize (gpu_stack (m_gpudata ex_ready)) (m_device ex_ready) = Some 50331648 \<and>
   (50331648 :: nat) < 4 * unat (22369622 :: 32 word) * 48 \<and>
   required_stack_size 22369622 = 128 \<and>
   map_option snd (QueryIntersection 0 (Some 100) 22369622 (Some 101) ex_ready) = Some ex_ready \<and>
   map_option snd (QueryOcclusion 0 (Some 100) 22369622 (Some 101) ex_ready) = Some ex_ready \<and>
   map_option snd (QueryIntersection_indirect 0 (Some 100) (Some 102) 22369622 (Some 101) ex_ready) = Some ex_ready \<and>
   map_option snd (QueryOcclusion_indirect 0 (Some 100) (Some 102) 22369622 (Some 101) ex_ready) = Some ex_ready"
  by (simp add: ex_preprocess ex_ready_stack(2) required_wraps QueryIntersection_def QueryOcclusion_def
      QueryIntersection_indirect_def QueryOcclusion_indirect_def ex_relocate_wrapped)

text \<open>
  Claim C10 on the code: the Preprocess of the example scene creates the stack buffer
  with 1,048,576 * 48 bytes, and the first query after it, with 22369622 rays (more
  than \<^verbatim>\<open>kMaxBatchSize / 4\<close> = 262144), keeps that very buffer: the stack pointer is
  the same, the buffer is live with its size unchanged, and the device has created
  no buffer.
\<close>

theorem first_query_keeps_stack:
  "Preprocess ex_env ex_world (new_strategy ex_device) = Some (Returned ex_ready) \<and>
   buffer_at (gpu_stack (m_gpudata ex_ready)) (m_device ex_ready) =
     Some \<lparr>buf_size = 1048576 * 48, buf_data = Unwritten\<rparr> \<and>
   kMaxBatchSize div 4 < uint (22369622 :: 32 word) \<and>
   map_option (\<lambda>(l, s'). (gpu_stack (m_gpudata s'),
                           buffer_at (gpu_stack (m_gpudata ex_ready)) (m_device s'),
                           next_buffer (m_device s')))
     (QueryIntersection 0 (Some 100) 22369622 (Some 101) ex_ready) =
   Some (gpu_stack (m_gpudata ex_ready),
         Some \<lparr>buf_size = 1048576 * 48, buf_data = Unwritten\<rparr>,
         next_buffer (m_device ex_ready))"
proof -
  have b: "buffer_at (gpu_stack (m_gpudata ex_ready)) (m_device ex_ready) =
     Some \<lparr>buf_size = 1048576 * 48, buf_data = Unwritten\<rparr>"
    by (simp add: ex_ready_def uploaded_stack(2) stack_bytes_eq)
  show ?thesis
    by (simp add: ex_preprocess b kMaxBatchSize_def QueryIntersection_def ex_relocate_wrapped)
qed

subsection \<open>Releasing the primary buffers\<close>

lemma DeleteBuffer_Some:
  assumes "DeleteBuffer p dev = Some dev'"
  shows "buffers dev' = (\<lambda>a. if p = Some a then None else buffers dev a)"
    and "next_buffer dev' = next_buffer dev" and "max_alloc_size dev' = max_alloc_size dev"
    and "\<And>a. p = Some a \<Longrightarrow> buffers dev a \<noteq> None"
  using assms by (auto simp: DeleteBuffer_def fun_eq_iff split: option.splits)

lemma delete_primary_Some:
  assumes "delete_primary g dev = Some dev'"
  shows "buffers dev' =
      (\<lambda>a. if Some a \<in> {gpu_bvh g, gpu_vertices g, gpu_faces g, gpu_shapes g, gpu_raycnt g}
            then None else buffers dev a)"
    and "next_buffer dev' = next_buffer dev"
proof -
  from assms obtain d1 d2 d3 d4 where d:
    "DeleteBuffer (gpu_bvh g) dev = Some d1" "DeleteBuffer (gpu_vertices g) d1 = Some d2"
    "DeleteBuffer (gpu_faces g) d2 = Some d3" "DeleteBuffer (gpu_shapes g) d3 = Some d4"
    "DeleteBuffer (gpu_raycnt g) d4 = Some dev'"
    by (auto simp: delete_primary_def split: Option.bind_splits)
  show "buffers dev' =
      (\<lambda>a. if Some a \<in> {gpu_bvh g, gpu_vertices g, gpu_faces g, gpu_shapes g, gpu_raycnt g}
            then None else buffers dev a)"
    using DeleteBuffer_Some(1) [OF d(1)] DeleteBuffer_Some(1) [OF d(2)] DeleteBuffer_Some(1) [OF d(3)]
      DeleteBuffer_Some(1) [OF d(4)] DeleteBuffer_Some(1) [OF d(5)]
    by (auto simp: fun_eq_iff)
  show "next_buffer dev' = next_buffer dev"
    using DeleteBuffer_Some(2) [OF d(1)] DeleteBuffer_Some(2) [OF d(2)] DeleteBuffer_Some(2) [OF d(3)]
      DeleteBuffer_Some(2) [OF d(4)] DeleteBuffer_Some(2) [OF d(5)]
    by simp
qed

lemma scene_layout_changed [simp]: "scene_layout (w\<lparr>has_changed := b\<rparr>) = scene_layout w"
  by (simp add: scene_layout_def partition_shapes_def)

lemma built_bvh_changed [simp]: "built_bvh env (w\<lparr>has_changed := b\<rparr>) = built_bvh env w"
  by (simp add: built_bvh_def)

lemma ex_release:
  "release_primary ex_ready =
     Some ((m_device ex_ready)\<lparr>buffers := (buffers (m_device ex_ready))(0 := None, 1 := None, 2 := None, 3 := None, 4 := None)\<rparr>)"
  by (simp add: release_primary_def delete_primary_def DeleteBuffer_def ex_ready_def uploaded_def
      Let_def new_strategy_def ex_device_def fun_eq_iff)

lemma ex_ready_fields:
  "m_bvh ex_ready = Some (2, [3, 2, 1, 0])"
  "m_gpudata ex_ready = \<lparr>gpu_bvh = Some 0, gpu_vertices = Some 1, gpu_faces = Some 2,
       gpu_shapes = Some 3, gpu_raycnt = Some 4, gpu_stack = Some 5\<rparr>"
  "next_buffer (m_device ex_ready) = 6"
  "max_alloc_size (m_device ex_ready) = 1000000000"
  by (simp_all add: ex_ready_def uploaded_def Let_def new_strategy_def ex_device_def)

lemma ex_rebuild:
  "needs_rebuild ex_changed ex_ready" "needs_rebuild ex_changed ex_small"
  "release_primary ex_ready = Some ex_released"
  "release_primary ex_small = Some (ex_released\<lparr>max_alloc_size := 1000\<rparr>)"
  "scene_layout ex_changed = Some ex_L"
  "built_bvh ex_env ex_changed = Some (2, [3, 2, 1, 0])"
  "built_bvh ex_env_deep ex_changed = Some (48, [3, 2, 1, 0])"
proof -
  show "needs_rebuild ex_changed ex_ready" "needs_rebuild ex_changed ex_small"
    by (simp_all add: needs_rebuild_def ex_changed_def)
  show r: "release_primary ex_ready = Some ex_released"
    by (simp add: ex_release ex_released_def)
  show "release_primary ex_small = Some (ex_released\<lparr>max_alloc_size := 1000\<rparr>)"
    by (simp add: release_primary_def delete_primary_def DeleteBuffer_def ex_small_def ex_released_def
        ex_ready_def uploaded_def Let_def new_strategy_def ex_device_def fun_eq_iff)
  show "scene_layout ex_changed = Some ex_L" "built_bvh ex_env ex_changed = Some (2, [3, 2, 1, 0])"
    "built_bvh ex_env_deep ex_changed = Some (48, [3, 2, 1, 0])"
    by (simp_all add: ex_changed_def ex_scene_layout ex_built_bvh)
qed

subsection \<open>Claim C7: the state after a failed Preprocess\<close>

lemma ex_failed_rebuilds:
  "Preprocess ex_env_deep ex_changed ex_ready =
     Some (Threw StackOverflowRisk (ex_ready\<lparr>m_device := ex_released, m_bvh := None\<rparr>))"
  "Preprocess ex_env ex_changed ex_small =
     Some (Threw CannotAllocateStackMemory (ex_small\<lparr>m_device := ex_released\<lparr>max_alloc_size := 1000\<rparr>\<rparr>))"
proof -
  have h: "kMaxStackSize \<le> height ex_env_deep (48, [3, 2, 1, 0])"
    by (simp add: ex_env_deep_def ex_env_def kMaxStackSize_def)
  have a: "\<not> max_alloc_size ex_released \<le> alloc_limit"
    by (simp add: ex_released_def ex_ready_fields alloc_limit_eq)
  show "Preprocess ex_env_deep ex_changed ex_ready =
     Some (Threw StackOverflowRisk (ex_ready\<lparr>m_device := ex_released, m_bvh := None\<rparr>))"
    using Preprocess_rebuild [OF ex_rebuild(1,3,5) ex_build_bounds_deep ex_rebuild(7)] h a by simp
  show "Preprocess ex_env ex_changed ex_small =
     Some (Threw CannotAllocateStackMemory (ex_small\<lparr>m_device := ex_released\<lparr>max_alloc_size := 1000\<rparr>\<rparr>))"
    using Preprocess_rebuild [OF ex_rebuild(2,4,5) ex_build_bounds ex_rebuild(6)]
    by (simp add: alloc_limit_eq)
qed

text \<open>
  Claim C7 on the code.  The example strategy has a BVH and its buffers installed.
  A rebuild for a scene whose BVH has height 48 throws the stack-overflow error:
  afterwards \<^verbatim>\<open>m_bvh\<close> is null, but the five primary pointers of \<^verbatim>\<open>GpuData\<close> still
  hold the addresses 0 to 4 of the buffers that the call has deleted.  A rebuild on a
  device that reports a \<^verbatim>\<open>max_alloc_size\<close> of 1000 throws the allocation error:
  afterwards the strategy still holds the old BVH, and its primary pointers dangle
  in the same way.
\<close>

theorem failed_rebuild_state:
  "Preprocess ex_env ex_world (new_strategy ex_device) = Some (Returned ex_ready) \<and>
   map_option thrown (Preprocess ex_env_deep ex_changed ex_ready) = Some (Some StackOverflowRisk) \<and>
   map_option (\<lambda>out. m_bvh (outcome_state out)) (Preprocess ex_env_deep ex_changed ex_ready) = Some None \<and>
   map_option (\<lambda>out. primary_pointers (outcome_state out)) (Preprocess ex_env_deep ex_changed ex_ready) =
     Some [Some 0, Some 1, Some 2, Some 3, Some 4] \<and>
   map_option (\<lambda>out. map (\<lambda>p. buffer_at p (m_device (outcome_state out))) (primary_pointers (outcome_state out)))
       (Preprocess ex_env_deep ex_changed ex_ready) =
     Some [None, None, None, None, None] \<and>
   map_option thrown (Preprocess ex_env ex_changed ex_small) = Some (Some CannotAllocateStackMemory) \<and>
   map_option (\<lambda>out. m_bvh (outcome_state out)) (Preprocess ex_env ex_changed ex_small) =
     Some (Some (2, [3, 2, 1, 0])) \<and>
   map_option (\<lambda>out. primary_pointers (outcome_state out)) (Preprocess ex_env ex_changed ex_small) =
     Some [Some 0, Some 1, Some 2, Some 3, Some 4]"
  by (simp add: ex_preprocess ex_failed_rebuilds)
     (simp add: primary_pointers_def ex_ready_fields ex_small_def buffer_at_def ex_released_def)

subsection \<open>Claim C2: the vertex buffer\<close>

text \<open>
  In program order, that is under the empty schedule, the vertex pass does what the
  claim says: the vertex buffer holds at offset \<open>mesh_vertices_start_idx[k] + j\<close>
  the object-space vertex \<open>j\<close> of the (base) mesh of shape \<open>k\<close>, transformed by
  \<^verbatim>\<open>transform_point\<close> with the forward matrix of the mesh for a mesh shape and with
  the forward matrix of the instance for an instance shape.
\<close>

lemma vertices_written_in_order:
  fixes env :: "('v, 'm, 'b, 'h, 'n) externals"
  assumes "needs_rebuild w s" and "release_primary s = Some dev"
    and "alloc_limit < max_alloc_size dev"
    and "counts_fit w" and "scene_layout w = Some L" and "indices_fit L"
    and "built_bvh env w = Some bvh"
    and "height env bvh < kMaxStackSize"
    and "numfaces L \<le> int (length (GetIndices env bvh))"
    and "\<forall>i. 0 \<le> i \<and> i < numfaces L \<longrightarrow>
        0 \<le> GetIndices env bvh ! nat i \<and> GetIndices env bvh ! nat i < numfaces L"
    and seq: "omp_schedule env 0 (nummeshes L) = []" "omp_schedule env (nummeshes L) (numshapes L) = []"
  shows "\<exists>s' vertexdata.
      Preprocess env w s = Some (Returned s') \<and> vertex_buffer s' = Some vertexdata \<and>
      length vertexdata = nat (numvertices L) \<and>
      (\<forall>k j. 0 \<le> k \<and> k < numshapes L \<and> 0 \<le> j \<and> j < num_vertices (geometry (shapes L ! nat k)) \<longrightarrow>
         vec_at vertexdata (mesh_vertices_start_idx L ! nat k + j) =
           Some (Some (case shapes L ! nat k of
                   MeshShape mesh \<Rightarrow>
                     transform_point env (vertex_data mesh ! nat j) (fst (mesh_transform mesh))
                 | InstanceShape inst \<Rightarrow>
                     transform_point env (vertex_data (base_shape inst) ! nat j) (fst (inst_transform inst)))))"
proof -
  have ok: "layout_ok L" using scene_layout_ok [OF assms(4)] assms(5) by simp
  obtain shapedata vertexdata facedata where
    v: "fill_vertices env L = Some vertexdata"
    and P: "Preprocess env w s =
        Some (Returned (uploaded env L shapedata bvh vertexdata facedata (s\<lparr>m_device := dev, m_bvh := Some bvh\<rparr>)))"
    using Preprocess_returns [OF assms(1-10)] by blast
  obtain vd where vd: "fill_vertices env L = Some vd" "length vd = nat (numvertices L)"
    and vals: "\<And>i j. 0 \<le> i \<Longrightarrow> i < int (length (shapes L)) \<Longrightarrow> 0 \<le> j \<Longrightarrow>
        j < num_vertices (geometry (shapes L ! nat i)) \<Longrightarrow>
        vd ! nat (vertices_before (shapes L) (nat i) + j) = Some (world_vertex env (shapes L ! nat i) j)"
    using fill_vertices_in_order [OF ok, of env] seq layout_counts(5) [OF ok] by auto
  have eq: "vd = vertexdata" using v vd(1) by simp
  have "\<forall>k j. 0 \<le> k \<and> k < numshapes L \<and> 0 \<le> j \<and> j < num_vertices (geometry (shapes L ! nat k)) \<longrightarrow>
        vec_at vertexdata (mesh_vertices_start_idx L ! nat k + j) = Some (Some (world_vertex env (shapes L ! nat k) j))"
  proof (intro allI impI)
    fix k j assume kj: "0 \<le> k \<and> k < numshapes L \<and> 0 \<le> j \<and> j < num_vertices (geometry (shapes L ! nat k))"
    then have s: "mesh_vertices_start_idx L ! nat k = vertices_before (shapes L) (nat k)"
      "0 \<le> mesh_vertices_start_idx L ! nat k + j" "mesh_vertices_start_idx L ! nat k + j < numvertices L"
      using vertex_slot [OF ok, of k j] by simp_all
    have "vec_at vertexdata (mesh_vertices_start_idx L ! nat k + j) =
        Some (vertexdata ! nat (mesh_vertices_start_idx L ! nat k + j))"
      using s(2,3) vd(2) eq by (intro vec_at_Some) simp_all
    moreover have "vd ! nat (vertices_before (shapes L) (nat k) + j) = Some (world_vertex env (shapes L ! nat k) j)"
      using kj layout_counts(5) [OF ok] by (intro vals) simp_all
    ultimately show "vec_at vertexdata (mesh_vertices_start_idx L ! nat k + j) =
        Some (Some (world_vertex env (shapes L ! nat k) j))"
      using s(1) eq by simp
  qed
  then show ?thesis
    using P vd(2) eq by (simp add: uploaded_buffers world_vertex_case)
qed


lemma ex_build_bounds_omp:
  "build_bounds ex_env_omp ex_L =
     Some ([2200, 2201, 1200, 500000],
           [\<lparr>shape_id = 12, shape_mask = 1\<rparr>, \<lparr>shape_id = 11, shape_mask = 1\<rparr>,
            \<lparr>shape_id = 21, shape_mask = 1\<rparr>])"
  by (simp add: build_bounds_def ex_L_def ex_env_omp_def ex_env_def ex_counts ex_data for_loop.simps
      mesh_bounds_def instance_bounds_def mesh_bounds_step_def instance_bounds_step_def set_shapedata_def
      mesh_at_def instance_at_def vec_at_def vec_set_def numeral_3_eq_3 numeral_2_eq_2 eval_nat_numeral
      int_add_def int_ok_def INT_MAX_def INT_MIN_def)

lemma ex_built_bvh_omp: "built_bvh ex_env_omp ex_world = Some (2, [3, 2, 1, 0])"
  by (simp add: built_bvh_def ex_scene_layout ex_build_bounds_omp)
     (simp add: ex_env_omp_def ex_env_def ex_L_def upt_rec)

lemma ex_preprocess_omp:
  "Preprocess ex_env_omp ex_world (new_strategy ex_device) =
     Some (Returned (uploaded ex_env_omp ex_L
       [\<lparr>shape_id = 12, shape_mask = 1\<rparr>, \<lparr>shape_id = 11, shape_mask = 1\<rparr>, \<lparr>shape_id = 21, shape_mask = 1\<rparr>]
       (2, [3, 2, 1, 0])
       [Some 1004, Some 1005, Some 1006, Some 1007, Some 1001, Some 1002, Some 1003,
        Some 5001, Some 5002, Some 5003]
       [Some \<lparr>idx = (7, 8, 9), shapeidx = 2, face_id = 0, cnt = 0\<rparr>,
        Some \<lparr>idx = (4, 5, 6), shapeidx = 1, face_id = 0, cnt = 0\<rparr>,
        Some \<lparr>idx = (1, 2, 3), shapeidx = 0, face_id = 1, cnt = 0\<rparr>,
        Some \<lparr>idx = (0, 1, 2), shapeidx = 0, face_id = 0, cnt = 0\<rparr>]
       ((new_strategy ex_device)\<lparr>m_bvh := Some (2, [3, 2, 1, 0])\<rparr>)))"
proof -
  have h: "\<not> kMaxStackSize \<le> height ex_env_omp (2, [3, 2, 1, 0])"
    and g: "GetIndices ex_env_omp (2, [3, 2, 1, 0]) = [3, 2, 1, 0]"
    by (simp_all add: ex_env_omp_def ex_env_def kMaxStackSize_def)
  have "Preprocess ex_env_omp ex_world (new_strategy ex_device) =
     map_option Returned
       (upload ex_env_omp ex_L
          [\<lparr>shape_id = 12, shape_mask = 1\<rparr>, \<lparr>shape_id = 11, shape_mask = 1\<rparr>, \<lparr>shape_id = 21, shape_mask = 1\<rparr>]
          (2, [3, 2, 1, 0])
          ((new_strategy ex_device)\<lparr>m_bvh := Some (2, [3, 2, 1, 0])\<rparr>))"
    using Preprocess_rebuild [OF ex_fresh ex_scene_layout ex_build_bounds_omp ex_built_bvh_omp] ex_alloc h
    by (simp add: new_strategy_def)
  then show ?thesis
    using upload_eq [OF ex_fill_vertices_omp, of "(2, [3, 2, 1, 0])"] ex_fill_faces
    by (simp add: g)
qed

text \<open>
  Claim C2 on the code.  In the example scene the first shape of the partitioned
  vector is the mesh \<open>ex_mesh2\<close> with the forward matrix 2000, placed at vertex
  offset 0, so the claim wants its first vertex, 4, to become 2004 at offset 0; that
  is what Preprocess writes in program order.  With two OpenMP threads, iteration 1
  of the loop over the meshes calls \<^verbatim>\<open>GetTransform(m, minv)\<close> between the
  \<^verbatim>\<open>GetTransform\<close> of iteration 0 and its vertices; \<^verbatim>\<open>m\<close>, declared at line 306
  outside the loop, is one variable for both, and the four vertices of \<open>ex_mesh2\<close>
  are written with the matrix 1000 of the other mesh.
\<close>

theorem vertices_race:
  "scene_layout ex_world = Some ex_L \<and>
   shapes ex_L ! 0 = MeshShape ex_mesh2 \<and> mesh_vertices_start_idx ex_L ! 0 = 0 \<and>
   transform_point ex_env_omp (vertex_data ex_mesh2 ! 0) (fst (mesh_transform ex_mesh2)) = 2004 \<and>
   omp_schedule ex_env 0 (nummeshes ex_L) = [] \<and>
   map_option (\<lambda>out. vertex_buffer (outcome_state out)) (Preprocess ex_env ex_world (new_strategy ex_device)) =
     Some (Some [Some 2004, Some 2005, Some 2006, Some 2007, Some 1001, Some 1002, Some 1003,
                 Some 5001, Some 5002, Some 5003]) \<and>
   omp_schedule ex_env_omp 0 (nummeshes ex_L) = [0, 1] \<and>
   map_option (\<lambda>out. vertex_buffer (outcome_state out)) (Preprocess ex_env_omp ex_world (new_strategy ex_device)) =
     Some (Some [Some 1004, Some 1005, Some 1006, Some 1007, Some 1001, Some 1002, Some 1003,
                 Some 5001, Some 5002, Some 5003])"
  by (simp add: ex_scene_layout ex_preprocess ex_preprocess_omp uploaded_buffers(1))
     (simp add: ex_ready_def uploaded_buffers(1) ex_L_def ex_env_omp_def ex_env_def ex_data)

subsection \<open>Claim C9: the buffers across a rebuild\<close>

lemma ex_rebuild_ok: "Preprocess ex_env ex_changed ex_ready = Some (Returned ex_rebuilt)"
proof -
  have a: "\<not> max_alloc_size ex_released \<le> alloc_limit"
    by (simp add: ex_released_def ex_ready_fields alloc_limit_eq)
  have "Preprocess ex_env ex_changed ex_ready =
     map_option Returned
       (upload ex_env ex_L
          [\<lparr>shape_id = 12, shape_mask = 1\<rparr>, \<lparr>shape_id = 11, shape_mask = 1\<rparr>, \<lparr>shape_id = 21, shape_mask = 1\<rparr>]
          (2, [3, 2, 1, 0])
          (ex_ready\<lparr>m_device := ex_released, m_bvh := Some (2, [3, 2, 1, 0])\<rparr>))"
    using Preprocess_rebuild [OF ex_rebuild(1,3,5) ex_build_bounds ex_rebuild(6)] a ex_indices(1)
    by simp
  then show ?thesis
    using upload_eq [OF ex_fill_vertices, of "(2, [3, 2, 1, 0])"] ex_fill_faces
    by (simp add: ex_GetIndices ex_rebuilt_def)
qed

lemma ex_rebuilt_fields:
  "primary_pointers ex_rebuilt = [Some 6, Some 7, Some 8, Some 9, Some 10]"
  "gpu_stack (m_gpudata ex_rebuilt) = Some 11"
  "next_buffer (m_device ex_rebuilt) = 12"
  by (simp_all add: ex_rebuilt_def uploaded_def Let_def primary_pointers_def ex_released_def ex_ready_fields)

text \<open>
  Claim C9 on the code.  The example strategy, with its BVH installed, its primary
  buffers at the addresses 0 to 4 and its stack buffer at address 5, is rebuilt for a
  changed world.  The call returns.  It has released the five primary buffers and
  created six buffers, at the addresses 6 to 11: line 434 creates a stack buffer in
  every rebuild and stores it in the stack pointer, without
  \<^verbatim>\<open>DeleteBuffer\<close> of the buffer the pointer held.  The old stack buffer at
  address 5 is still live with its 50331648 bytes, and no pointer of the strategy
  refers to it any more.
\<close>

theorem rebuild_leaks_stack:
  "m_bvh ex_ready = Some (2, [3, 2, 1, 0]) \<and> has_changed ex_changed \<and>
   primary_pointers ex_ready = [Some 0, Some 1, Some 2, Some 3, Some 4] \<and>
   gpu_stack (m_gpudata ex_ready) = Some 5 \<and> next_buffer (m_device ex_ready) = 6 \<and>
   Preprocess ex_env ex_changed ex_ready = Some (Returned ex_rebuilt) \<and>
   primary_pointers ex_rebuilt = [Some 6, Some 7, Some 8, Some 9, Some 10] \<and>
   gpu_stack (m_gpudata ex_rebuilt) = Some 11 \<and> next_buffer (m_device ex_rebuilt) = 12 \<and>
   map (\<lambda>a. buffer_at (Some a) (m_device ex_rebuilt) = None) [0, 1, 2, 3, 4, 5] =
     [True, True, True, True, True, False] \<and>
   buffer_at (Some 5) (m_device ex_rebuilt) = Some \<lparr>buf_size = 50331648, buf_data = Unwritten\<rparr> \<and>
   Some 5 \<notin> set (gpu_stack (m_gpudata ex_rebuilt) # primary_pointers ex_rebuilt)"
  by (simp add: ex_ready_fields ex_rebuild_ok ex_rebuilt_fields)
     (simp add: ex_changed_def ex_rebuilt_def uploaded_def Let_def buffer_at_def ex_released_def
        ex_ready_fields ex_ready_def new_strategy_def ex_device_def stack_bytes_eq primary_pointers_def)

end
